(* ===== verification/Prelude.thy ===== *)
theory Prelude
  imports
    Complex_Main
    "HOL-Library.Char_ord"
    "HOL-Library.List_Lexorder"
    "HOL-Library.Product_Lexorder"
    "HOL-Library.Multiset"
begin

text \<open>
  Shared vocabulary of the development.

  \<^item> Go error values are terms of \<open>error\<close>: a format literal of the source with its string
    arguments (\<open>Errorf\<close>), the same wrapping another error through \<open>%w\<close> or \<open>%v\<close> (\<open>Wrapf\<close>), the two
    named error types of the repository, and an error of code outside it (\<open>LibError\<close>).
    Formatting is left symbolic, so that two errors are equal exactly when the source builds them
    from the same literal and arguments.
  \<^item> A fallible Go function \<open>(T, error)\<close> returns \<open>'a res\<close>, that is \<open>error + 'a\<close>.
  \<^item> Go strings and byte slices are byte sequences, and so is the HOL type \<open>string\<close>; a Go map with
    string keys is an association list sorted by key, built by \<open>mput\<close> and read by \<open>map_of\<close>.
  \<^item> The collection \<open>go_simps\<close> carries the rewrite rules of the library.
\<close>

named_theorems go_simps "rewrite rules for the Go library functions and data of the model"

datatype error =
    Errorf string "string list"
  | Wrapf string "string list" error
  | IssuanceDeniedError string string
  | DeniedError string string
  | LibError string

type_synonym 'a res = "error + 'a"

abbreviation Ok :: "'a \<Rightarrow> 'a res" where "Ok \<equiv> Inr"
abbreviation Err :: "error \<Rightarrow> 'a res" where "Err \<equiv> Inl"

fun is_Ok :: "'a res \<Rightarrow> bool" where
  "is_Ok (Inr _) = True"
| "is_Ok (Inl _) = False"

text \<open>Sequencing of fallible calls: \<open>x, err := f(); if err != nil { return wrap(err) }\<close>.\<close>

fun bindr :: "'a res \<Rightarrow> (error \<Rightarrow> error) \<Rightarrow> ('a \<Rightarrow> 'b res) \<Rightarrow> 'b res" where
  "bindr (Inl e) w f = Inl (w e)"
| "bindr (Inr x) w f = f x"

text \<open>Maps with string keys: insertion, deletion and construction from a list of pairs.\<close>

fun mput :: "'k::linorder \<Rightarrow> 'v \<Rightarrow> ('k \<times> 'v) list \<Rightarrow> ('k \<times> 'v) list" where
  "mput k v [] = [(k, v)]"
| "mput k v ((k', v') # m) =
     (if k < k' then (k, v) # (k', v') # m
      else if k = k' then (k, v) # m
      else (k', v') # mput k v m)"

definition mdel :: "'k \<Rightarrow> ('k \<times> 'v) list \<Rightarrow> ('k \<times> 'v) list" where
  "mdel k m = filter (\<lambda>(k', _). k' \<noteq> k) m"

definition mput_all :: "('k::linorder \<times> 'v) list \<Rightarrow> ('k \<times> 'v) list \<Rightarrow> ('k \<times> 'v) list" where
  "mput_all kvs m = foldl (\<lambda>m (k, v). mput k v m) m kvs"

text \<open>A map is well formed when its keys are strictly increasing.\<close>

definition mwf :: "('k::linorder \<times> 'v) list \<Rightarrow> bool" where
  "mwf m \<longleftrightarrow> sorted_wrt (<) (map fst m)"

text \<open>Decimal text of a natural number (\<open>%d\<close>).\<close>

fun string_of_nat :: "nat \<Rightarrow> string" where
  "string_of_nat n =
     (if n < 10 then [char_of (48 + n)]
      else string_of_nat (n div 10) @ [char_of (48 + n mod 10)])"

declare string_of_nat.simps [simp del]

subsection \<open>Fallible results\<close>

lemma bindr_Ok_iff [go_simps]:
  "bindr r w f = Inr y \<longleftrightarrow> (\<exists>x. r = Inr x \<and> f x = Inr y)"
  by (cases r) auto

lemma bindr_Err_iff [go_simps]:
  "bindr r w f = Inl e \<longleftrightarrow> (\<exists>e'. r = Inl e' \<and> e = w e') \<or> (\<exists>x. r = Inr x \<and> f x = Inl e)"
  by (cases r) auto

lemma is_Ok_iff [go_simps]: "is_Ok r \<longleftrightarrow> (\<exists>x. r = Inr x)"
  by (cases r) auto

subsection \<open>Maps\<close>

lemma map_of_mput [simp]: "map_of (mput k v m) = (map_of m)(k \<mapsto> v)"
  by (induction m) (auto simp: fun_eq_iff)

lemma set_fst_mput [simp]: "fst ` set (mput k v m) = insert k (fst ` set m)"
proof (induction m)
  case (Cons kv m)
  then show ?case by (cases kv) auto
qed simp

lemma set_mput: "set (mput k v m) \<subseteq> insert (k, v) (set m)"
  by (induction m) (auto split: if_splits)

lemma mwf_Nil [simp]: "mwf []"
  by (simp add: mwf_def)

lemma mwf_Cons: "mwf ((k, v) # m) \<longleftrightarrow> mwf m \<and> (\<forall>k'\<in>fst ` set m. k < k')"
  by (auto simp: mwf_def)

lemma mwf_mput [simp]: "mwf m \<Longrightarrow> mwf (mput k v m)"
proof (induction m)
  case (Cons kv m)
  obtain k' v' where "kv = (k', v')" by (cases kv)
  with Cons show ?case by (auto simp: mwf_Cons)
qed (simp add: mwf_def)

lemma mwf_distinct: "mwf m \<Longrightarrow> distinct (map fst m)"
  unfolding mwf_def by (simp add: strict_sorted_iff)

lemma map_of_mdel [simp]: "map_of (mdel k m) = (map_of m)(k := None)"
  by (induction m) (auto simp: mdel_def fun_eq_iff)

lemma fst_set_mdel: "fst ` set (mdel k m) = fst ` set m - {k}"
  by (auto simp: mdel_def image_iff)

lemma mwf_mdel [simp]: "mwf m \<Longrightarrow> mwf (mdel k m)"
  unfolding mdel_def mwf_def by (simp add: sorted_wrt_map sorted_wrt_filter)

lemma mput_all_simps [simp]:
  "mput_all [] m = m"
  "mput_all ((k, v) # kvs) m = mput_all kvs (mput k v m)"
  by (simp_all add: mput_all_def)

lemma mput_all_append: "mput_all (xs @ ys) m = mput_all ys (mput_all xs m)"
  by (simp add: mput_all_def)

lemma mwf_mput_all [simp]: "mwf m \<Longrightarrow> mwf (mput_all kvs m)"
  by (induction kvs arbitrary: m) auto

lemma map_of_mput_all: "map_of (mput_all kvs m) = map_of m ++ map_of (rev kvs)"
  by (induction kvs arbitrary: m) (auto simp: fun_eq_iff map_add_def split: option.splits)

text \<open>Two well-formed maps with the same lookups are the same list.\<close>

lemma mwf_hd_least: "mwf ((k, v) # m) \<Longrightarrow> map_of ((k, v) # m) k' = Some w \<Longrightarrow> k \<le> k'"
  by (auto simp: mwf_Cons split: if_splits dest!: map_of_SomeD)

lemma mwf_ext: "mwf m \<Longrightarrow> mwf m' \<Longrightarrow> map_of m = map_of m' \<Longrightarrow> m = m'"
proof (induction m arbitrary: m')
  case Nil
  then show ?case by (cases m') (auto simp: fun_eq_iff split: if_splits)
next
  case (Cons kv m)
  obtain k v where kv: "kv = (k, v)" by (cases kv)
  have "map_of m' k = Some v" using fun_cong [OF Cons.prems(3), of k] kv by simp
  then obtain k' v' n where m': "m' = (k', v') # n" by (cases m') auto
  have eq: "map_of ((k, v) # m) = map_of ((k', v') # n)"
    using Cons.prems(3) unfolding kv m' .
  have "k \<le> k'" using mwf_hd_least [of k v m k' v'] Cons.prems(1) kv fun_cong [OF eq, of k']
    by simp
  moreover have "k' \<le> k"
    using mwf_hd_least [of k' v' n k v] Cons.prems(2) m' fun_cong [OF eq, of k] by simp
  ultimately have k: "k = k'" by simp
  have "v = v'" using fun_cong [OF eq, of k] k by simp
  have "map_of m x = map_of n x" for x
  proof (cases "x = k")
    case True
    then have "map_of m x = None" "map_of n x = None"
      using Cons.prems(1,2) kv m' k by (auto simp: mwf_Cons map_of_eq_None_iff)
    then show ?thesis by simp
  next
    case False
    then show ?thesis using fun_cong [OF eq, of x] k by simp
  qed
  then have "m = n" using Cons.IH [of n] Cons.prems(1,2) kv m' by (auto simp: mwf_Cons)
  with kv m' k \<open>v = v'\<close> show ?case by simp
qed

subsection \<open>Lists\<close>

lemma mset_eq_imp_set_eq: "mset xs = mset ys \<Longrightarrow> set xs = set ys"
  by (metis set_mset_mset)

lemma takeWhile_dropWhile_Cons:
  "dropWhile P xs = y # ys \<Longrightarrow> \<not> P y"
  by (induction xs) (auto split: if_splits)

end
