(* ===== verification/GoStrings.thy ===== *)
theory GoStrings
  imports Prelude
begin

text \<open>
  The functions of Go's package \<open>strings\<close> that the repository calls, on byte strings.

  \<^item> \<open>Fields\<close> splits around white space as \<open>unicode.IsSpace\<close> defines it. A white-space rune is
    recognised by its UTF-8 bytes (\<open>space_width\<close>); since every such encoding starts with a byte that is no
    continuation byte, matching at every byte position is matching at every rune.
  \<^item> \<open>ToLower\<close> and \<open>EqualFold\<close> are given for ASCII text, which is what HTTP methods and header
    names are made of; bytes above 127 are left alone.
  \<^item> The separators and cut sets of \<open>Split\<close>, \<open>Trim\<close>, \<open>Index\<close> and \<open>LastIndex\<close> are single
    characters everywhere in the repository, and so are they here.
\<close>

subsection \<open>Definitions\<close>

definition HasPrefix :: "string \<Rightarrow> string \<Rightarrow> bool" where
  "HasPrefix s p \<longleftrightarrow> take (length p) s = p"

definition HasSuffix :: "string \<Rightarrow> string \<Rightarrow> bool" where
  "HasSuffix s p \<longleftrightarrow> HasPrefix (rev s) (rev p)"

definition TrimPrefix :: "string \<Rightarrow> string \<Rightarrow> string" where
  "TrimPrefix s p = (if HasPrefix s p then drop (length p) s else s)"

definition TrimSuffix :: "string \<Rightarrow> string \<Rightarrow> string" where
  "TrimSuffix s p = (if HasSuffix s p then take (length s - length p) s else s)"

definition Trim :: "string \<Rightarrow> char \<Rightarrow> string" where
  "Trim s c = rev (dropWhile (\<lambda>x. x = c) (rev (dropWhile (\<lambda>x. x = c) s)))"

definition Contains :: "string \<Rightarrow> char \<Rightarrow> bool" where
  "Contains s c \<longleftrightarrow> c \<in> set s"

text \<open>\<open>Index\<close> and \<open>LastIndex\<close> return \<open>None\<close> where Go returns -1.\<close>

definition Index :: "string \<Rightarrow> char \<Rightarrow> nat option" where
  "Index s c = (if Contains s c then Some (length (takeWhile (\<lambda>x. x \<noteq> c) s)) else None)"

definition LastIndex :: "string \<Rightarrow> char \<Rightarrow> nat option" where
  "LastIndex s c =
     (if Contains s c then Some (length s - 1 - length (takeWhile (\<lambda>x. x \<noteq> c) (rev s))) else None)"

fun Split :: "string \<Rightarrow> char \<Rightarrow> string list" where
  "Split [] c = [[]]"
| "Split (x # xs) c =
     (if x = c then [] # Split xs c
      else (case Split xs c of [] \<Rightarrow> [[x]] | w # ws \<Rightarrow> (x # w) # ws))"

fun Join :: "string list \<Rightarrow> char \<Rightarrow> string" where
  "Join [] c = []"
| "Join [w] c = w"
| "Join (w # v # ws) c = w @ c # Join (v # ws) c"

definition ascii_space :: "char \<Rightarrow> bool" where
  "ascii_space c \<longleftrightarrow> of_char c \<in> {9, 10, 11, 12, 13, 32 :: nat}"

definition code :: "char \<Rightarrow> nat" where
  "code c = of_char c"

text \<open>Number of bytes of the white-space rune a string starts with, 0 if it starts with none.\<close>

fun space_width :: "string \<Rightarrow> nat" where
  "space_width [] = 0"
| "space_width (a # s) =
     (if ascii_space a then 1
      else case s of
        [] \<Rightarrow> 0
      | b # s' \<Rightarrow>
          (if code a = 0xC2 \<and> code b \<in> {0x85, 0xA0} then 2
           else case s' of
             [] \<Rightarrow> 0
           | c # _ \<Rightarrow>
               (if code a = 0xE1 \<and> code b = 0x9A \<and> code c = 0x80
                 \<or> code a = 0xE2 \<and> code b = 0x80
                    \<and> (0x80 \<le> code c \<and> code c \<le> 0x8A \<or> code c \<in> {0xA8, 0xA9, 0xAF})
                 \<or> code a = 0xE2 \<and> code b = 0x81 \<and> code c = 0x9F
                 \<or> code a = 0xE3 \<and> code b = 0x80 \<and> code c = 0x80
                then 3 else 0)))"

declare space_width.simps(2) [simp del]

definition emit_word :: "string \<Rightarrow> string list" where
  "emit_word w = (if w = [] then [] else [w])"

function fields_from :: "string \<Rightarrow> string \<Rightarrow> string list" where
  "fields_from w [] = emit_word w"
| "fields_from w (c # cs) =
     (if space_width (c # cs) = 0 then fields_from (w @ [c]) cs
      else emit_word w @ fields_from [] (drop (space_width (c # cs)) (c # cs)))"
  by pat_completeness auto
termination
  by (relation "measure (\<lambda>(w, s). length s)") auto

definition Fields :: "string \<Rightarrow> string list" where
  "Fields s = fields_from [] s"

definition lower_char :: "char \<Rightarrow> char" where
  "lower_char c = (if 65 \<le> code c \<and> code c \<le> 90 then char_of (code c + 32) else c)"

definition ToLower :: "string \<Rightarrow> string" where
  "ToLower s = map lower_char s"

definition EqualFold :: "string \<Rightarrow> string \<Rightarrow> bool" where
  "EqualFold s t \<longleftrightarrow> ToLower s = ToLower t"

text \<open>A word that \<open>Fields\<close> keeps in one piece: not empty, ASCII, no white space.\<close>

definition plain_word :: "string \<Rightarrow> bool" where
  "plain_word w \<longleftrightarrow> w \<noteq> [] \<and> (\<forall>c\<in>set w. code c < 128 \<and> \<not> ascii_space c)"

subsection \<open>Prefixes, suffixes and positions\<close>

lemma HasPrefix_iff: "HasPrefix s p \<longleftrightarrow> (\<exists>r. s = p @ r)"
  unfolding HasPrefix_def by (metis append_eq_conv_conj append_take_drop_id)

lemma HasPrefix_append [simp, go_simps]: "HasPrefix (p @ r) p"
  by (auto simp: HasPrefix_iff)

lemma HasSuffix_iff: "HasSuffix s p \<longleftrightarrow> (\<exists>r. s = r @ p)"
  unfolding HasSuffix_def HasPrefix_iff by (metis rev_append rev_rev_ident)

lemma TrimPrefix_append [simp, go_simps]: "TrimPrefix (p @ r) p = r"
  by (simp add: TrimPrefix_def)

lemma TrimSuffix_append [simp, go_simps]: "TrimSuffix (r @ p) p = r"
  by (simp add: TrimSuffix_def HasSuffix_def)

lemma Index_append_sep [simp]: "c \<notin> set a \<Longrightarrow> Index (a @ c # b) c = Some (length a)"
  by (induction a) (auto simp: Index_def Contains_def)

lemma Index_Some_iff:
  "Index s c = Some i \<longleftrightarrow> (\<exists>a b. s = a @ c # b \<and> c \<notin> set a \<and> i = length a)"
proof
  assume i: "Index s c = Some i"
  then have "c \<in> set s" by (auto simp: Index_def Contains_def split: if_splits)
  then obtain a b where "s = a @ c # b" "c \<notin> set a" by (meson split_list_first)
  with i show "\<exists>a b. s = a @ c # b \<and> c \<notin> set a \<and> i = length a" by auto
qed auto

lemma Index_None_iff: "Index s c = None \<longleftrightarrow> c \<notin> set s"
  by (simp add: Index_def Contains_def)

subsection \<open>Splitting and joining\<close>

lemma Split_nonempty [simp]: "Split s c \<noteq> []"
  by (induction s) (auto split: list.splits)

lemma Join_Cons: "ws \<noteq> [] \<Longrightarrow> Join (w # ws) c = w @ c # Join ws c"
  by (cases ws) auto

lemma Join_Split: "Join (Split s c) c = s"
proof (induction s)
  case (Cons x s)
  show ?case
  proof (cases "x = c")
    case True
    then show ?thesis using Cons by (simp add: Join_Cons)
  next
    case False
    obtain w ws where s: "Split s c = w # ws" by (meson Split_nonempty list.exhaust)
    then show ?thesis using False Cons by (cases ws) auto
  qed
qed simp

lemma Split_no_sep: "w \<in> set (Split s c) \<Longrightarrow> c \<notin> set w"
proof (induction s arbitrary: w)
  case (Cons x s)
  obtain v vs where "Split s c = v # vs" by (meson Split_nonempty list.exhaust)
  with Cons show ?case by (auto split: if_splits)
qed simp

lemma Split_free [simp]: "c \<notin> set w \<Longrightarrow> Split w c = [w]"
  by (induction w) auto

lemma Split_append_sep [simp]: "c \<notin> set w \<Longrightarrow> Split (w @ c # s) c = w # Split s c"
  by (induction w) auto

lemma Split_Join:
  "ws \<noteq> [] \<Longrightarrow> \<forall>w\<in>set ws. c \<notin> set w \<Longrightarrow> Split (Join ws c) c = ws"
  by (induction ws c rule: Join.induct) auto

lemma length_Split: "length (Split s c) = Suc (count_list s c)"
proof (induction s)
  case (Cons x s)
  obtain v vs where "Split s c = v # vs" by (meson Split_nonempty list.exhaust)
  with Cons show ?case by auto
qed simp

subsection \<open>Fields\<close>

lemma space_width_ascii: "ascii_space a \<Longrightarrow> space_width (a # s) = 1"
  by (simp add: space_width.simps(2))

lemma space_width_plain: "code a < 128 \<Longrightarrow> \<not> ascii_space a \<Longrightarrow> space_width (a # s) = 0"
  by (auto simp: space_width.simps(2) split: list.splits)

lemma fields_from_plain:
  "\<forall>c\<in>set v. code c < 128 \<and> \<not> ascii_space c \<Longrightarrow> fields_from w (v @ s) = fields_from (w @ v) s"
  by (induction v arbitrary: w) (auto simp: space_width_plain)

lemma fields_from_space:
  "ascii_space c \<Longrightarrow> fields_from w (c # s) = emit_word w @ fields_from [] s"
  by (simp add: space_width_ascii)

lemma ascii_space_blank [simp]: "ascii_space CHR '' ''"
  by (simp add: ascii_space_def)

lemma Fields_Nil [simp]: "Fields [] = []"
  by (simp add: Fields_def emit_word_def)

lemma Fields_plain [simp]: "plain_word w \<Longrightarrow> Fields w = [w]"
  using fields_from_plain [of w "[]" "[]"] by (simp add: Fields_def plain_word_def emit_word_def)

lemma Fields_plain_space:
  "plain_word w \<Longrightarrow> Fields (w @ CHR '' '' # s) = w # Fields s"
  using fields_from_plain [of w "[]" "CHR '' '' # s"]
  by (simp add: Fields_def plain_word_def emit_word_def fields_from_space del: fields_from.simps(2))

lemma Fields_Join: "\<forall>w\<in>set ws. plain_word w \<Longrightarrow> Fields (Join ws CHR '' '') = ws"
  by (induction ws "CHR '' ''" rule: Join.induct) (auto simp: Fields_plain_space)

lemma fields_from_nonempty: "v \<in> set (fields_from w s) \<Longrightarrow> v \<noteq> []"
  by (induction w s rule: fields_from.induct) (auto simp: emit_word_def split: if_splits)

lemma Fields_nonempty: "v \<in> set (Fields s) \<Longrightarrow> v \<noteq> []"
  unfolding Fields_def by (rule fields_from_nonempty)

lemma space_width_pos_if_ascii: "space_width (c # cs) = 0 \<Longrightarrow> \<not> ascii_space c"
  by (auto simp: space_width_ascii)

lemma fields_from_no_space:
  "v \<in> set (fields_from w s) \<Longrightarrow> \<forall>c\<in>set w. \<not> ascii_space c \<Longrightarrow> \<forall>c\<in>set v. \<not> ascii_space c"
  by (induction w s rule: fields_from.induct)
    (auto simp: emit_word_def dest: space_width_pos_if_ascii split: if_splits)

lemma Fields_no_space: "v \<in> set (Fields s) \<Longrightarrow> c \<in> set v \<Longrightarrow> \<not> ascii_space c"
  using fields_from_no_space [of v "[]" s] by (auto simp: Fields_def)

subsection \<open>Case folding\<close>

lemma EqualFold_refl [simp]: "EqualFold s s"
  by (simp add: EqualFold_def)

lemma EqualFold_sym: "EqualFold s t \<longleftrightarrow> EqualFold t s"
  by (auto simp: EqualFold_def)

lemma code_lt [simp]: "code c < 256"
  using of_char_mod_256 [of c] by (simp add: code_def)

lemma code_char_of [simp]: "n < 256 \<Longrightarrow> code (char_of n) = n"
  by (simp add: code_def of_char_of)

lemma char_of_code [simp]: "char_of (code c) = c"
  by (simp add: code_def)

lemma code_inj: "code c = code d \<longleftrightarrow> c = d"
  by (metis char_of_code)

lemma lower_char_idem [simp]: "lower_char (lower_char c) = lower_char c"
  by (auto simp: lower_char_def)

lemma ToLower_idem [simp]: "ToLower (ToLower s) = ToLower s"
  by (simp add: ToLower_def)

lemmas [go_simps] = HasPrefix_def HasSuffix_def TrimPrefix_def TrimSuffix_def Trim_def
  Contains_def Index_def LastIndex_def EqualFold_def ToLower_def lower_char_def code_def

end
