(* ===== verification/GoEncoding.thy ===== *)
theory GoEncoding
  imports GoStrings "HOL-Library.Word"
begin

text \<open>
  Encodings of Go's standard library that the repository uses, each with its round trip.

  \<^item> \<open>base64.RawURLEncoding\<close>: \<open>EncodeToString\<close> and \<open>DecodeString\<close>. The decoder skips carriage
    returns and line feeds and does not look at the unused low bits of the last character, as Go's does.
  \<^item> \<open>math/big\<close>: \<open>Bytes\<close>, \<open>SetBytes\<close> and \<open>Int64\<close> (the low 64 bits, read as two's complement).
  \<^item> \<open>fmt\<close>'s \<open>%x\<close> on bytes.
  \<^item> \<open>net/url\<close>: \<open>QueryEscape\<close>, \<open>QueryUnescape\<close>, \<open>Values.Encode\<close>, \<open>ParseQuery\<close> and \<open>Values.Get\<close>;
    \<open>Values\<close> is a map from keys to lists of values.
\<close>

subsection \<open>Base 64\<close>

definition b64_char :: "nat \<Rightarrow> char" where
  "b64_char n =
     (if n < 26 then char_of (65 + n)
      else if n < 52 then char_of (71 + n)
      else if n < 62 then char_of (n - 4)
      else if n = 62 then CHR ''-''
      else CHR ''_'')"

definition b64_val :: "char \<Rightarrow> nat option" where
  "b64_val c =
     (if 65 \<le> code c \<and> code c \<le> 90 then Some (code c - 65)
      else if 97 \<le> code c \<and> code c \<le> 122 then Some (code c - 71)
      else if 48 \<le> code c \<and> code c \<le> 57 then Some (code c + 4)
      else if c = CHR ''-'' then Some 62
      else if c = CHR ''_'' then Some 63
      else None)"

fun b64_sextets :: "nat list \<Rightarrow> nat list" where
  "b64_sextets [] = []"
| "b64_sextets [a] = [a div 4, (a mod 4) * 16]"
| "b64_sextets [a, b] = [a div 4, (a mod 4) * 16 + b div 16, (b mod 16) * 4]"
| "b64_sextets (a # b # c # r) =
     [a div 4, (a mod 4) * 16 + b div 16, (b mod 16) * 4 + c div 64, c mod 64] @ b64_sextets r"

fun b64_octets :: "nat list \<Rightarrow> nat list option" where
  "b64_octets [] = Some []"
| "b64_octets [a] = None"
| "b64_octets [a, b] = Some [a * 4 + b div 16]"
| "b64_octets [a, b, c] = Some [a * 4 + b div 16, (b mod 16) * 16 + c div 4]"
| "b64_octets (a # b # c # d # r) =
     map_option (\<lambda>bs. [a * 4 + b div 16, (b mod 16) * 16 + c div 4, (c mod 4) * 64 + d] @ bs)
       (b64_octets r)"

definition base64_EncodeToString :: "string \<Rightarrow> string" where
  "base64_EncodeToString s = map b64_char (b64_sextets (map code s))"

definition is_newline :: "char \<Rightarrow> bool" where
  "is_newline c \<longleftrightarrow> code c \<in> {10, 13}"

definition base64_DecodeString :: "string \<Rightarrow> string res" where
  "base64_DecodeString s =
     (case Option.bind (those (map b64_val (filter (\<lambda>c. \<not> is_newline c) s))) b64_octets of
        None \<Rightarrow> Err (LibError ''illegal base64 data'')
      | Some bs \<Rightarrow> Ok (map char_of bs))"

subsection \<open>Big-endian integers and hexadecimal text\<close>

fun big_Bytes :: "nat \<Rightarrow> string" where
  "big_Bytes n = (if n = 0 then [] else big_Bytes (n div 256) @ [char_of (n mod 256)])"

declare big_Bytes.simps [simp del]

definition big_SetBytes :: "string \<Rightarrow> nat" where
  "big_SetBytes s = foldl (\<lambda>a c. a * 256 + code c) 0 s"

definition big_Int64 :: "nat \<Rightarrow> int" where
  "big_Int64 n = sint (of_nat n :: 64 word)"

definition hex_digit :: "nat \<Rightarrow> char" where
  "hex_digit n = (if n < 10 then char_of (48 + n) else char_of (87 + n))"

definition hex_string :: "string \<Rightarrow> string" where
  "hex_string s = concat (map (\<lambda>c. [hex_digit (code c div 16), hex_digit (code c mod 16)]) s)"

subsection \<open>Query strings\<close>

type_synonym Values = "(string \<times> string list) list"

definition query_unreserved :: "char \<Rightarrow> bool" where
  "query_unreserved c \<longleftrightarrow>
     65 \<le> code c \<and> code c \<le> 90 \<or> 97 \<le> code c \<and> code c \<le> 122 \<or> 48 \<le> code c \<and> code c \<le> 57
     \<or> c = CHR ''-'' \<or> c = CHR ''_'' \<or> c = CHR ''.'' \<or> c = CHR ''~''"

definition upper_hex :: "nat \<Rightarrow> char" where
  "upper_hex n = (if n < 10 then char_of (48 + n) else char_of (55 + n))"

definition unhex :: "char \<Rightarrow> nat option" where
  "unhex c =
     (if 48 \<le> code c \<and> code c \<le> 57 then Some (code c - 48)
      else if 97 \<le> code c \<and> code c \<le> 102 then Some (code c - 87)
      else if 65 \<le> code c \<and> code c \<le> 70 then Some (code c - 55)
      else None)"

definition escape_char :: "char \<Rightarrow> string" where
  "escape_char c =
     (if query_unreserved c then [c]
      else if c = CHR '' '' then ''+''
      else [CHR ''%'', upper_hex (code c div 16), upper_hex (code c mod 16)])"

definition QueryEscape :: "string \<Rightarrow> string" where
  "QueryEscape s = concat (map escape_char s)"

fun QueryUnescape :: "string \<Rightarrow> string option" where
  "QueryUnescape [] = Some []"
| "QueryUnescape (c # s) =
     (if c = CHR ''%'' then
        (case s of
           h1 # h2 # r \<Rightarrow>
             (case (unhex h1, unhex h2) of
                (Some a, Some b) \<Rightarrow> map_option ((#) (char_of (a * 16 + b))) (QueryUnescape r)
              | _ \<Rightarrow> None)
         | _ \<Rightarrow> None)
      else map_option ((#) (if c = CHR ''+'' then CHR '' '' else c)) (QueryUnescape s))"

text \<open>\<open>strings.Cut\<close> at a character: the text before it and the text after it, if it occurs.\<close>

definition Cut :: "string \<Rightarrow> char \<Rightarrow> string \<times> string" where
  "Cut s c =
     (case Index s c of None \<Rightarrow> (s, []) | Some i \<Rightarrow> (take i s, drop (Suc i) s))"

definition Values_Add :: "string \<Rightarrow> string \<Rightarrow> Values \<Rightarrow> Values" where
  "Values_Add k v m = mput k ((case map_of m k of None \<Rightarrow> [] | Some vs \<Rightarrow> vs) @ [v]) m"

definition Values_Set :: "string \<Rightarrow> string \<Rightarrow> Values \<Rightarrow> Values" where
  "Values_Set k v m = mput k [v] m"

definition Values_Get :: "Values \<Rightarrow> string \<Rightarrow> string" where
  "Values_Get m k =
     (case map_of m k of Some (v # _) \<Rightarrow> v | _ \<Rightarrow> [])"

text \<open>One segment between two ampersands: the updated values and whether it was malformed.\<close>

definition parse_segment :: "string \<Rightarrow> Values \<Rightarrow> bool \<times> Values" where
  "parse_segment seg m =
     (if Contains seg CHR '';'' then (True, m)
      else if seg = [] then (False, m)
      else
        (let (k, v) = Cut seg CHR ''='' in
         case (QueryUnescape k, QueryUnescape v) of
           (Some k', Some v') \<Rightarrow> (False, Values_Add k' v' m)
         | _ \<Rightarrow> (True, m)))"

fun parse_segments :: "string list \<Rightarrow> bool \<times> Values \<Rightarrow> bool \<times> Values" where
  "parse_segments [] (e, m) = (e, m)"
| "parse_segments (seg # segs) (e, m) =
     (let (e', m') = parse_segment seg m in parse_segments segs (e \<or> e', m'))"

text \<open>\<open>url.ParseQuery\<close>: it keeps every well-formed pair and reports whether some pair was malformed.\<close>

definition ParseQuery :: "string \<Rightarrow> Values \<times> error option" where
  "ParseQuery q =
     (let (e, m) = parse_segments (Split q CHR ''&'') (False, [])
      in (m, if e then Some (LibError ''invalid query'') else None))"

definition encode_pair :: "string \<Rightarrow> string \<Rightarrow> string" where
  "encode_pair k v = QueryEscape k @ CHR ''='' # QueryEscape v"

definition pairs_of :: "Values \<Rightarrow> (string \<times> string) list" where
  "pairs_of m = concat (map (\<lambda>(k, vs). map (Pair k) vs) m)"

definition Values_Encode :: "Values \<Rightarrow> string" where
  "Values_Encode m = Join (map (\<lambda>(k, v). encode_pair k v) (pairs_of m)) CHR ''&''"

subsection \<open>Base 64 round trip\<close>

lemma b64_val_char [simp]: "n < 64 \<Longrightarrow> b64_val (b64_char n) = Some n"
  by (auto simp: b64_val_def b64_char_def code_def)

lemma not_newline_b64 [simp]: "n < 64 \<Longrightarrow> \<not> is_newline (b64_char n)"
  by (auto simp: is_newline_def b64_char_def code_def)

lemma b64_sextets_bound: "\<forall>b\<in>set bs. b < 256 \<Longrightarrow> n \<in> set (b64_sextets bs) \<Longrightarrow> n < 64"
  by (induction bs rule: b64_sextets.induct) auto

lemma b64_octets_sextets: "\<forall>b\<in>set bs. b < 256 \<Longrightarrow> b64_octets (b64_sextets bs) = Some bs"
proof (induction bs rule: b64_sextets.induct)
  case (4 a b c r)
  have "(a mod 4 * 16 + b div 16) div 16 = a mod 4" "(a mod 4 * 16 + b div 16) mod 16 = b div 16"
    "(b mod 16 * 4 + c div 64) div 4 = b mod 16" "(b mod 16 * 4 + c div 64) mod 4 = c div 64"
    using "4.prems" by auto
  with "4" show ?case by simp
next
  case (3 a b)
  have "(a mod 4 * 16 + b div 16) div 16 = a mod 4" "(a mod 4 * 16 + b div 16) mod 16 = b div 16"
    using "3.prems" by auto
  then show ?case by simp
qed simp_all

lemma those_map_Some: "\<forall>x\<in>set xs. f x = Some (g x) \<Longrightarrow> those (map f xs) = Some (map g xs)"
  by (induction xs) auto

lemma base64_roundtrip [simp]: "base64_DecodeString (base64_EncodeToString s) = Inr s"
proof -
  let ?n = "b64_sextets (map code s)"
  have lt: "\<forall>n\<in>set ?n. n < 64" using b64_sextets_bound [of "map code s"] by auto
  then have "filter (\<lambda>c. \<not> is_newline c) (map b64_char ?n) = map b64_char ?n"
    by (auto simp: filter_id_conv)
  moreover have "those (map b64_val (map b64_char ?n)) = Some ?n"
    using those_map_Some [of ?n "b64_val \<circ> b64_char" id] lt by simp
  moreover have "b64_octets ?n = Some (map code s)" by (rule b64_octets_sextets) simp
  ultimately show ?thesis
    by (simp add: base64_DecodeString_def base64_EncodeToString_def comp_def)
qed

lemma b64_char_not_dot [simp]: "n < 64 \<Longrightarrow> b64_char n \<noteq> CHR ''.''"
  by (auto simp: b64_char_def code_def simp flip: code_inj)

lemma base64_no_dot: "CHR ''.'' \<notin> set (base64_EncodeToString s)"
  using b64_sextets_bound [of "map code s"]
  by (auto simp: base64_EncodeToString_def) (metis b64_char_not_dot code_lt)

subsection \<open>Big-endian round trip\<close>

lemma big_SetBytes_snoc: "big_SetBytes (s @ [c]) = big_SetBytes s * 256 + code c"
  by (simp add: big_SetBytes_def)

lemma big_SetBytes_Bytes [simp]: "big_SetBytes (big_Bytes n) = n"
proof (induction n rule: big_Bytes.induct)
  case (1 n)
  show ?case
  proof (cases "n = 0")
    case True
    then show ?thesis by (simp add: big_Bytes.simps [of 0] big_SetBytes_def)
  next
    case False
    then show ?thesis
      using "1" by (simp add: big_Bytes.simps [of n] big_SetBytes_snoc code_def)
  qed
qed

lemma big_Int64_small: "n < 2 ^ 63 \<Longrightarrow> big_Int64 n = int n"
  unfolding big_Int64_def
  by transfer (simp add: signed_take_bit_int_eq_self)

lemma length_hex_string: "length (hex_string s) = 2 * length s"
  by (induction s) (auto simp: hex_string_def)

subsection \<open>Query string round trip\<close>

lemma code_div_16 [simp]: "code c div 16 < 16"
  by (rule less_mult_imp_div_less) simp

lemma unhex_upper_hex [simp]: "n < 16 \<Longrightarrow> unhex (upper_hex n) = Some n"
  by (auto simp: unhex_def upper_hex_def code_def)

lemma query_reserved [simp]:
  "\<not> query_unreserved CHR ''%''" "\<not> query_unreserved CHR ''+''" "\<not> query_unreserved CHR ''&''"
  "\<not> query_unreserved CHR '';''" "\<not> query_unreserved CHR ''=''"
  by (simp_all add: query_unreserved_def code_def)

lemma QueryUnescape_escape_char [simp]:
  "QueryUnescape (escape_char c @ s) = map_option ((#) c) (QueryUnescape s)"
proof (cases "query_unreserved c")
  case True
  then have "c \<noteq> CHR ''%''" "c \<noteq> CHR ''+''" by auto
  with True show ?thesis by (simp add: escape_char_def)
next
  case False
  have "char_of (code c div 16 * 16 + code c mod 16) = c" by (simp only: div_mult_mod_eq char_of_code)
  with False show ?thesis by (simp add: escape_char_def)
qed

lemma QueryUnescape_QueryEscape [simp]: "QueryUnescape (QueryEscape s) = Some s"
  by (induction s) (auto simp: QueryEscape_def)

lemma upper_hex_clean:
  "n < 16 \<Longrightarrow> upper_hex n \<noteq> CHR ''&'' \<and> upper_hex n \<noteq> CHR '';'' \<and> upper_hex n \<noteq> CHR ''=''"
  by (auto simp: upper_hex_def code_def simp flip: code_inj)

lemma escape_char_clean:
  "x \<in> set (escape_char c) \<Longrightarrow> x \<noteq> CHR ''&'' \<and> x \<noteq> CHR '';'' \<and> x \<noteq> CHR ''=''"
  using upper_hex_clean [of "code c div 16"] upper_hex_clean [of "code c mod 16"]
  by (auto simp: escape_char_def split: if_splits)

lemma QueryEscape_clean:
  "CHR ''&'' \<notin> set (QueryEscape s)" "CHR '';'' \<notin> set (QueryEscape s)"
  "CHR ''='' \<notin> set (QueryEscape s)"
  using escape_char_clean by (auto simp: QueryEscape_def)

lemma parse_segment_encode_pair: "parse_segment (encode_pair k v) m = (False, Values_Add k v m)"
  using QueryEscape_clean
  by (simp add: parse_segment_def encode_pair_def Cut_def Contains_def)

lemma encode_pair_no_amp: "CHR ''&'' \<notin> set (encode_pair k v)"
  using QueryEscape_clean by (simp add: encode_pair_def)

lemma parse_segments_pairs:
  "parse_segments (map (\<lambda>(k, v). encode_pair k v) kvs) (False, m) =
     (False, foldl (\<lambda>m (k, v). Values_Add k v m) m kvs)"
  by (induction kvs arbitrary: m) (auto simp: parse_segment_encode_pair)

lemma ParseQuery_Encode_pairs:
  "ParseQuery (Values_Encode m) = (foldl (\<lambda>m (k, v). Values_Add k v m) [] (pairs_of m), None)"
proof (cases "pairs_of m = []")
  case True
  then show ?thesis
    by (simp add: Values_Encode_def ParseQuery_def parse_segment_def Contains_def)
next
  case False
  then have "Split (Values_Encode m) CHR ''&'' = map (\<lambda>(k, v). encode_pair k v) (pairs_of m)"
    unfolding Values_Encode_def by (intro Split_Join) (auto simp: encode_pair_no_amp)
  then show ?thesis by (simp add: ParseQuery_def parse_segments_pairs)
qed

lemma foldl_Values_Add_same:
  "map_of (foldl (\<lambda>m (k, v). Values_Add k v m) m (map (Pair k) vs)) =
     (if vs = [] then map_of m
      else (map_of m)(k \<mapsto> (case map_of m k of None \<Rightarrow> [] | Some us \<Rightarrow> us) @ vs))"
  by (induction vs arbitrary: m) (auto simp: Values_Add_def)

lemma mwf_foldl_Values_Add:
  "mwf m \<Longrightarrow> mwf (foldl (\<lambda>m (k, v). Values_Add k v m) m kvs)"
  by (induction kvs arbitrary: m) (auto simp: Values_Add_def)

lemma map_of_foldl_pairs:
  "distinct (map fst n) \<Longrightarrow> \<forall>(k, vs)\<in>set n. vs \<noteq> [] \<and> map_of m k = None \<Longrightarrow>
     map_of (foldl (\<lambda>m (k, v). Values_Add k v m) m (pairs_of n)) = map_of m ++ map_of n"
proof (induction n arbitrary: m)
  case Nil
  then show ?case by (simp add: pairs_of_def)
next
  case (Cons kvs n)
  obtain k vs where kvs: "kvs = (k, vs)" by (cases kvs)
  let ?m = "foldl (\<lambda>m (k, v). Values_Add k v m) m (map (Pair k) vs)"
  have m: "map_of ?m = (map_of m)(k \<mapsto> vs)"
    using Cons.prems kvs by (simp add: foldl_Values_Add_same)
  have "\<forall>(k', vs')\<in>set n. vs' \<noteq> [] \<and> map_of ?m k' = None"
    using Cons.prems kvs m by (auto simp: image_iff) force+
  then have "map_of (foldl (\<lambda>m (k, v). Values_Add k v m) ?m (pairs_of n)) = map_of ?m ++ map_of n"
    using Cons.IH Cons.prems(1) kvs by simp
  moreover have "k \<notin> dom (map_of n)" using Cons.prems(1) kvs by (simp add: dom_map_of_conv_image_fst)
  ultimately show ?case
    using m kvs by (simp add: pairs_of_def map_add_upd_left flip: fun_upd_def)
qed

theorem ParseQuery_Encode:
  "mwf m \<Longrightarrow> \<forall>(k, vs)\<in>set m. vs \<noteq> [] \<Longrightarrow> ParseQuery (Values_Encode m) = (m, None)"
proof -
  assume wf: "mwf m" and ne: "\<forall>(k, vs)\<in>set m. vs \<noteq> []"
  let ?r = "foldl (\<lambda>m (k, v). Values_Add k v m) [] (pairs_of m)"
  have "map_of ?r = map_of m"
    using map_of_foldl_pairs [of m "[]"] wf ne by (auto simp: mwf_distinct)
  then have "?r = m" using wf by (intro mwf_ext mwf_foldl_Values_Add) auto
  then show "ParseQuery (Values_Encode m) = (m, None)" by (simp add: ParseQuery_Encode_pairs)
qed

lemmas [go_simps] = Values_Get_def Values_Set_def

end
