(* ===== verification/Json.thy ===== *)
theory Json
  imports GoEncoding "HOL-Library.Log_Nat"
begin

text \<open>
  Go's package \<open>encoding/json\<close>, as far as the repository uses it.

  \<^item> A decoded value (Go's \<open>any\<close>) is a \<open>json\<close>. Numbers are \<open>float64\<close> values, that is rationals
    that \<open>float64_of\<close> maps to themselves; negative zero is identified with zero.
  \<^item> \<open>json_parse\<close> is the scanner: it keeps the members of an object in the order of the text, because
    decoding into a struct looks at all of them. \<open>norm\<close> gives the value decoding into \<open>any\<close> stores: an
    object is a map, the last of two members with the same name wins, and the map is sorted by key.
  \<^item> Strings follow Go's rules: escapes, surrogate pairs, and U+FFFD for what is not UTF-8, on the way in and
    on the way out; \<open>json_Marshal\<close> escapes \<open><\<close>, \<open>>\<close>, \<open>&\<close>, U+2028 and U+2029.
  \<^item> The scanner spends one unit of fuel per call; \<open>json_fuel\<close> units are enough for every text, and more
    fuel never changes the result.
\<close>

datatype json =
    JNull
  | JBool bool
  | JNum rat
  | JStr string
  | JArr "json list"
  | JObj "(string \<times> json) list"

type_synonym gomap = "(string \<times> json) list"

subsection \<open>Float64 numbers\<close>

definition pow2 :: "int \<Rightarrow> rat" where
  "pow2 e = (if 0 \<le> e then 2 ^ nat e else 1 / 2 ^ nat (- e))"

definition round_half_even :: "rat \<Rightarrow> int" where
  "round_half_even q =
     (let f = \<lfloor>q\<rfloor>; r = q - of_int f
      in if r < 1 / 2 then f else if r > 1 / 2 then f + 1 else if even f then f else f + 1)"

definition bit_exponent :: "rat \<Rightarrow> int" where
  "bit_exponent q =
     (let (n, d) = quotient_of q;
          a = int (floorlog 2 (nat n)) - int (floorlog 2 (nat d))
      in if pow2 a \<le> q then a else a - 1)"

definition float64_of :: "rat \<Rightarrow> rat option" where
  "float64_of q =
     (if q = 0 then Some 0
      else
        (let e = max (bit_exponent \<bar>q\<bar> - 52) (-1074);
             v = of_int (round_half_even (\<bar>q\<bar> / pow2 e)) * pow2 e
         in if v \<ge> 2 ^ 1024 then None else Some (sgn q * v)))"

definition string_of_int :: "int \<Rightarrow> string" where
  "string_of_int i = (if i < 0 then CHR ''-'' # string_of_nat (nat (- i)) else string_of_nat (nat i))"

text \<open>
  Shortest decimal that reads back as the number (\<open>strconv.FormatFloat(f, _, -1, 64)\<close>): the least digit
  count between 1 and 17 at which the nearest decimal reads back. Whole numbers up to \<open>2\<^sup>5\<^sup>3\<close> are
  printed digit by digit, which is what the search gives for them.
\<close>

definition dec_exponent :: "rat \<Rightarrow> int" where
  "dec_exponent q =
     (if q \<ge> 1 then int (length (string_of_nat (nat \<lfloor>q\<rfloor>)))
      else (case find (\<lambda>j. q * 10 ^ j \<ge> 1) [0..<400] of None \<Rightarrow> 0 | Some j \<Rightarrow> 1 - int j))"

definition pow10 :: "int \<Rightarrow> rat" where
  "pow10 e = (if 0 \<le> e then 10 ^ nat e else 1 / 10 ^ nat (- e))"

definition shortest_digits :: "rat \<Rightarrow> string" where
  "shortest_digits q =
     (let k = dec_exponent q;
          cand = (\<lambda>n. round_half_even (q * pow10 (int n - k)))
      in case find (\<lambda>n. float64_of (of_int (cand n) * pow10 (k - int n)) = Some q) [1..<18] of
           None \<Rightarrow> string_of_nat (nat (cand 17))
         | Some n \<Rightarrow> string_of_nat (nat (cand n)))"

definition format_positive :: "rat \<Rightarrow> string" where
  "format_positive q =
     (let ds = shortest_digits q; k = dec_exponent q; n = int (length ds)
      in if q < 1 / 10 ^ 6 \<or> q \<ge> 10 ^ 21 then
           hd ds # (if tl ds = [] then [] else CHR ''.'' # tl ds) @ CHR ''e'' #
             (if k - 1 < 0 then [] else ''+'') @ string_of_int (k - 1)
         else if k \<le> 0 then ''0.'' @ replicate (nat (- k)) CHR ''0'' @ ds
         else if n \<le> k then ds @ replicate (nat (k - n)) CHR ''0''
         else take (nat k) ds @ CHR ''.'' # drop (nat k) ds)"

definition format_float :: "rat \<Rightarrow> string" where
  "format_float q =
     (if of_int \<lfloor>q\<rfloor> = q \<and> \<bar>q\<bar> \<le> 2 ^ 53 then string_of_int \<lfloor>q\<rfloor>
      else if q < 0 then CHR ''-'' # format_positive (- q)
      else format_positive q)"

subsection \<open>Text\<close>

definition cont :: "char \<Rightarrow> bool" where
  "cont c \<longleftrightarrow> 0x80 \<le> code c \<and> code c \<le> 0xBF"

definition between :: "nat \<Rightarrow> nat \<Rightarrow> char \<Rightarrow> bool" where
  "between l h c \<longleftrightarrow> l \<le> code c \<and> code c \<le> h"

text \<open>Width of the UTF-8 sequence a string starts with, 0 if it starts with none.\<close>

definition utf8_width :: "string \<Rightarrow> nat" where
  "utf8_width s =
     (case s of
        [] \<Rightarrow> 0
      | a # s1 \<Rightarrow>
          if code a < 0x80 then 1
          else (case s1 of
              [] \<Rightarrow> 0
            | b # s2 \<Rightarrow>
                if between 0xC2 0xDF a \<and> cont b then 2
                else (case s2 of
                    [] \<Rightarrow> 0
                  | c # s3 \<Rightarrow>
                      if (code a = 0xE0 \<and> between 0xA0 0xBF b
                          \<or> (between 0xE1 0xEC a \<or> between 0xEE 0xEF a) \<and> cont b
                          \<or> code a = 0xED \<and> between 0x80 0x9F b) \<and> cont c then 3
                      else (case s3 of
                          [] \<Rightarrow> 0
                        | d # _ \<Rightarrow>
                            if (code a = 0xF0 \<and> between 0x90 0xBF b
                                \<or> between 0xF1 0xF3 a \<and> cont b
                                \<or> code a = 0xF4 \<and> between 0x80 0x8F b) \<and> cont c \<and> cont d
                            then 4 else 0))))"

definition utf8_encode :: "nat \<Rightarrow> string" where
  "utf8_encode r =
     (if r < 0x80 then [char_of r]
      else if r < 0x800 then [char_of (0xC0 + r div 64), char_of (0x80 + r mod 64)]
      else if r < 0x10000 then
        [char_of (0xE0 + r div 4096), char_of (0x80 + r div 64 mod 64), char_of (0x80 + r mod 64)]
      else
        [char_of (0xF0 + r div 262144), char_of (0x80 + r div 4096 mod 64),
         char_of (0x80 + r div 64 mod 64), char_of (0x80 + r mod 64)])"

definition replacement :: string where
  "replacement = utf8_encode 0xFFFD"

definition hex4 :: "string \<Rightarrow> (nat \<times> string) option" where
  "hex4 s =
     (case s of
        a # b # c # d # r \<Rightarrow>
          (case (unhex a, unhex b, unhex c, unhex d) of
             (Some w, Some x, Some y, Some z) \<Rightarrow> Some (((w * 16 + x) * 16 + y) * 16 + z, r)
           | _ \<Rightarrow> None)
      | _ \<Rightarrow> None)"

definition unicode_escape :: "string \<Rightarrow> (string \<times> string) option" where
  "unicode_escape s =
     (case hex4 s of
        None \<Rightarrow> None
      | Some (u, r) \<Rightarrow>
          if \<not> (0xD800 \<le> u \<and> u < 0xE000) then Some (utf8_encode u, r)
          else (case r of
              e # x # r' \<Rightarrow>
                if u < 0xDC00 \<and> e = CHR 0x5C \<and> x = CHR ''u'' then
                  (case hex4 r' of
                     Some (l, r'') \<Rightarrow>
                       if 0xDC00 \<le> l \<and> l < 0xE000
                       then Some (utf8_encode (0x10000 + (u - 0xD800) * 1024 + (l - 0xDC00)), r'')
                       else Some (replacement, r)
                   | None \<Rightarrow> Some (replacement, r))
                else Some (replacement, r)
            | _ \<Rightarrow> Some (replacement, r)))"

definition simple_escape :: "char \<Rightarrow> char option" where
  "simple_escape c =
     (if c = CHR 0x22 \<or> c = CHR 0x5C \<or> c = CHR ''/'' then Some c
      else if c = CHR ''b'' then Some (CHR 0x08)
      else if c = CHR ''f'' then Some (CHR 0x0C)
      else if c = CHR ''n'' then Some (CHR 0x0A)
      else if c = CHR ''r'' then Some (CHR 0x0D)
      else if c = CHR ''t'' then Some (CHR 0x09)
      else None)"

text \<open>One element of a string literal: the decoded bytes and the rest of the text.\<close>

definition string_item :: "string \<Rightarrow> (string \<times> string) option" where
  "string_item s =
     (case s of
        [] \<Rightarrow> None
      | c # r \<Rightarrow>
          if c = CHR 0x5C then
            (case r of
               [] \<Rightarrow> None
             | e # r' \<Rightarrow>
                 if e = CHR ''u'' then unicode_escape r'
                 else map_option (\<lambda>x. ([x], r')) (simple_escape e))
          else if code c < 0x20 then None
          else if utf8_width s = 0 then Some (replacement, r)
          else Some (take (utf8_width s) s, drop (utf8_width s) s))"

lemma hex4_shorter: "hex4 s = Some (u, r) \<Longrightarrow> length r < length s"
  by (auto simp: hex4_def split: list.splits option.splits prod.splits)

lemma unicode_escape_shorter: "unicode_escape s = Some (x, r) \<Longrightarrow> length r < length s"
  by (auto simp: unicode_escape_def split: list.splits option.splits prod.splits if_splits
      dest!: hex4_shorter)

lemma string_item_shorter: "string_item s = Some (x, r) \<Longrightarrow> length r < length s"
  by (auto simp: string_item_def split: list.splits option.splits if_splits
      dest!: unicode_escape_shorter)

function string_rest :: "string \<Rightarrow> (string \<times> string) option" where
  "string_rest s =
     (case s of
        [] \<Rightarrow> None
      | c # r \<Rightarrow>
          if c = CHR 0x22 then Some ([], r)
          else (case string_item s of
              None \<Rightarrow> None
            | Some (x, r') \<Rightarrow> map_option (\<lambda>(y, r''). (x @ y, r'')) (string_rest r')))"
  by pat_completeness auto
termination
  by (relation "measure length") (auto dest: string_item_shorter)

declare string_rest.simps [simp del]

subsection \<open>Number literals\<close>

definition is_digit :: "char \<Rightarrow> bool" where
  "is_digit c \<longleftrightarrow> 48 \<le> code c \<and> code c \<le> 57"

definition digits_val :: "string \<Rightarrow> nat" where
  "digits_val ds = foldl (\<lambda>a c. a * 10 + (code c - 48)) 0 ds"

definition take_digits :: "string \<Rightarrow> string \<times> string" where
  "take_digits s = (takeWhile is_digit s, dropWhile is_digit s)"

definition scan_int :: "string \<Rightarrow> (nat \<times> string) option" where
  "scan_int s =
     (case take_digits s of
        ([], _) \<Rightarrow> None
      | (d # ds, r) \<Rightarrow>
          if d = CHR ''0'' then Some (0, ds @ r) else Some (digits_val (d # ds), r))"

definition scan_frac :: "string \<Rightarrow> (rat \<times> string) option" where
  "scan_frac s =
     (case s of
        c # r \<Rightarrow>
          if c = CHR ''.'' then
            (case take_digits r of
               ([], _) \<Rightarrow> None
             | (ds, r') \<Rightarrow> Some (of_nat (digits_val ds) / 10 ^ length ds, r'))
          else Some (0, s)
      | [] \<Rightarrow> Some (0, s))"

definition scan_exp :: "string \<Rightarrow> (int \<times> string) option" where
  "scan_exp s =
     (case s of
        c # r \<Rightarrow>
          if c = CHR ''e'' \<or> c = CHR ''E'' then
            (let neg = (r \<noteq> [] \<and> hd r = CHR ''-'');
                 r' = (if r \<noteq> [] \<and> (hd r = CHR ''-'' \<or> hd r = CHR ''+'') then tl r else r)
             in case take_digits r' of
                  ([], _) \<Rightarrow> None
                | (ds, r'') \<Rightarrow> Some ((if neg then - 1 else 1) * int (digits_val ds), r''))
          else Some (0, s)
      | [] \<Rightarrow> Some (0, s))"

definition scan_number :: "string \<Rightarrow> (rat \<times> string) option" where
  "scan_number s =
     (let neg = (s \<noteq> [] \<and> hd s = CHR ''-''); s1 = (if neg then tl s else s)
      in case scan_int s1 of
           None \<Rightarrow> None
         | Some (i, s2) \<Rightarrow>
             (case scan_frac s2 of
                None \<Rightarrow> None
              | Some (f, s3) \<Rightarrow>
                  (case scan_exp s3 of
                     None \<Rightarrow> None
                   | Some (e, s4) \<Rightarrow>
                       map_option (\<lambda>v. (v, s4))
                         (float64_of ((if neg then - 1 else 1) * (of_nat i + f) * pow10 e)))))"

subsection \<open>The scanner\<close>

definition is_ws :: "char \<Rightarrow> bool" where
  "is_ws c \<longleftrightarrow> code c \<in> {9, 10, 13, 32}"

definition skip_ws :: "string \<Rightarrow> string" where
  "skip_ws s = dropWhile is_ws s"

definition literal :: "string \<Rightarrow> json \<Rightarrow> string \<Rightarrow> (json \<times> string) option" where
  "literal w v s = (if HasPrefix s w then Some (v, drop (length w) s) else None)"

fun json_value :: "nat \<Rightarrow> string \<Rightarrow> (json \<times> string) option"
and json_elements :: "nat \<Rightarrow> string \<Rightarrow> (json list \<times> string) option"
and json_members :: "nat \<Rightarrow> string \<Rightarrow> ((string \<times> json) list \<times> string) option" where
  "json_value 0 s = None"
| "json_value (Suc n) s =
     (case s of
        [] \<Rightarrow> None
      | c # r \<Rightarrow>
          if c = CHR 0x22 then map_option (\<lambda>(x, r'). (JStr x, r')) (string_rest r)
          else if c = CHR ''['' then
            (let r' = skip_ws r in
             if r' \<noteq> [] \<and> hd r' = CHR '']'' then Some (JArr [], tl r')
             else map_option (\<lambda>(vs, r''). (JArr vs, r'')) (json_elements n r'))
          else if c = CHR ''{'' then
            (let r' = skip_ws r in
             if r' \<noteq> [] \<and> hd r' = CHR ''}'' then Some (JObj [], tl r')
             else map_option (\<lambda>(ms, r''). (JObj ms, r'')) (json_members n r'))
          else if c = CHR ''t'' then literal ''true'' (JBool True) s
          else if c = CHR ''f'' then literal ''false'' (JBool False) s
          else if c = CHR ''n'' then literal ''null'' JNull s
          else map_option (\<lambda>(q, r'). (JNum q, r')) (scan_number s))"
| "json_elements 0 s = None"
| "json_elements (Suc n) s =
     (case json_value n s of
        None \<Rightarrow> None
      | Some (v, r) \<Rightarrow>
          (case skip_ws r of
             [] \<Rightarrow> None
           | d # r' \<Rightarrow>
               if d = CHR '']'' then Some ([v], r')
               else if d = CHR '','' then
                 map_option (\<lambda>(vs, r''). (v # vs, r'')) (json_elements n (skip_ws r'))
               else None))"
| "json_members 0 s = None"
| "json_members (Suc n) s =
     (case s of
        [] \<Rightarrow> None
      | q # s' \<Rightarrow>
          if q \<noteq> CHR 0x22 then None
          else (case string_rest s' of
              None \<Rightarrow> None
            | Some (k, r) \<Rightarrow>
                (case skip_ws r of
                   [] \<Rightarrow> None
                 | d # r1 \<Rightarrow>
                     if d \<noteq> CHR '':'' then None
                     else (case json_value n (skip_ws r1) of
                         None \<Rightarrow> None
                       | Some (v, r2) \<Rightarrow>
                           (case skip_ws r2 of
                              [] \<Rightarrow> None
                            | e # r3 \<Rightarrow>
                                if e = CHR ''}'' then Some ([(k, v)], r3)
                                else if e = CHR '','' then
                                  map_option (\<lambda>(ms, r4). ((k, v) # ms, r4))
                                    (json_members n (skip_ws r3))
                                else None)))))"

definition json_fuel :: "string \<Rightarrow> nat" where
  "json_fuel s = Suc (2 * length s)"

definition json_parse :: "string \<Rightarrow> json res" where
  "json_parse s =
     (case json_value (json_fuel s) (skip_ws s) of
        Some (v, r) \<Rightarrow> if skip_ws r = [] then Ok v else Err (LibError ''invalid JSON'')
      | None \<Rightarrow> Err (LibError ''invalid JSON''))"

text \<open>\<open>json.NewDecoder(r).Decode\<close> reads the first value of a stream and leaves the rest.\<close>

definition json_Decode :: "string \<Rightarrow> json res" where
  "json_Decode s =
     (case json_value (json_fuel s) (skip_ws s) of
        Some (v, _) \<Rightarrow> Ok v
      | None \<Rightarrow> Err (LibError ''invalid JSON''))"

text \<open>Decoding into \<open>any\<close>: objects become maps.\<close>

fun norm :: "json \<Rightarrow> json" where
  "norm (JArr vs) = JArr (map norm vs)"
| "norm (JObj ms) = JObj (mput_all (map (\<lambda>(k, v). (k, norm v)) ms) [])"
| "norm v = v"

definition json_Unmarshal_map :: "string \<Rightarrow> gomap option res" where
  "json_Unmarshal_map s =
     (case json_parse s of
        Inl e \<Rightarrow> Err e
      | Inr v \<Rightarrow>
          (case norm v of
             JNull \<Rightarrow> Ok None
           | JObj m \<Rightarrow> Ok (Some m)
           | _ \<Rightarrow> Err (LibError ''cannot unmarshal into Go value of type map'')))"

text \<open>
  Decoding into a struct with string fields: of the members whose name is the tag up to case, the last
  one that is not \<open>null\<close> gives the value; another type than a string is an error.
\<close>

fun string_field :: "string \<Rightarrow> (string \<times> json) list \<Rightarrow> string res" where
  "string_field tag [] = Ok []"
| "string_field tag ((k, v) # ms) =
     (if EqualFold k tag then
        (case v of
           JStr x \<Rightarrow> bindr (string_field tag ms) id
             (\<lambda>y. Ok (if list_ex (\<lambda>(k', v'). EqualFold k' tag \<and> v' \<noteq> JNull) ms then y else x))
         | JNull \<Rightarrow> string_field tag ms
         | _ \<Rightarrow> Err (LibError ''cannot unmarshal into Go struct field of type string''))
      else string_field tag ms)"

definition struct_members :: "json \<Rightarrow> (string \<times> json) list res" where
  "struct_members v =
     (case v of
        JObj ms \<Rightarrow> Ok ms
      | JNull \<Rightarrow> Ok []
      | _ \<Rightarrow> Err (LibError ''cannot unmarshal into Go value of struct type''))"

text \<open>A field of slice type: \<open>null\<close> leaves it nil, the last array wins.\<close>

fun array_field :: "string \<Rightarrow> (string \<times> json) list \<Rightarrow> json list res" where
  "array_field tag [] = Ok []"
| "array_field tag ((k, v) # ms) =
     (if EqualFold k tag then
        (case v of
           JArr x \<Rightarrow> bindr (array_field tag ms) id
             (\<lambda>y. Ok (if list_ex (\<lambda>(k', _). EqualFold k' tag) ms then y else x))
         | JNull \<Rightarrow> array_field tag ms
         | _ \<Rightarrow> Err (LibError ''cannot unmarshal into Go struct field of slice type''))
      else array_field tag ms)"

subsection \<open>Printing\<close>

definition u_escape :: "nat \<Rightarrow> string" where
  "u_escape u =
     CHR 0x5C # CHR ''u'' #
       [hex_digit (u div 4096), hex_digit (u div 256 mod 16), hex_digit (u div 16 mod 16), hex_digit (u mod 16)]"

definition quote_ascii :: "char \<Rightarrow> string" where
  "quote_ascii c =
     (if c = CHR 0x22 \<or> c = CHR 0x5C then [CHR 0x5C, c]
      else if code c = 8 then [CHR 0x5C, CHR ''b'']
      else if code c = 12 then [CHR 0x5C, CHR ''f'']
      else if code c = 10 then [CHR 0x5C, CHR ''n'']
      else if code c = 13 then [CHR 0x5C, CHR ''r'']
      else if code c = 9 then [CHR 0x5C, CHR ''t'']
      else if code c < 0x20 \<or> c = CHR ''<'' \<or> c = CHR ''>'' \<or> c = CHR ''&'' then u_escape (code c)
      else [c])"

function quote_body :: "string \<Rightarrow> string" where
  "quote_body s =
     (case s of
        [] \<Rightarrow> []
      | c # r \<Rightarrow>
          if code c < 0x80 then quote_ascii c @ quote_body r
          else if utf8_width s = 0 then u_escape 0xFFFD @ quote_body r
          else if take 3 s = utf8_encode 0x2028 then u_escape 0x2028 @ quote_body (drop 3 s)
          else if take 3 s = utf8_encode 0x2029 then u_escape 0x2029 @ quote_body (drop 3 s)
          else take (utf8_width s) s @ quote_body (drop (utf8_width s) s))"
  by pat_completeness auto
termination
  by (relation "measure length") auto

declare quote_body.simps [simp del]

definition json_quote :: "string \<Rightarrow> string" where
  "json_quote s = CHR 0x22 # quote_body s @ [CHR 0x22]"

fun json_Marshal :: "json \<Rightarrow> string" where
  "json_Marshal JNull = ''null''"
| "json_Marshal (JBool b) = (if b then ''true'' else ''false'')"
| "json_Marshal (JNum q) = format_float q"
| "json_Marshal (JStr s) = json_quote s"
| "json_Marshal (JArr vs) = CHR ''['' # Join (map json_Marshal vs) CHR '','' @ '']''"
| "json_Marshal (JObj ms) =
     CHR ''{'' # Join (map (\<lambda>(k, v). json_quote k @ CHR '':'' # json_Marshal v) ms) CHR '','' @ ''}''"

text \<open>\<open>json.NewEncoder(w).Encode\<close> ends the value with a line feed.\<close>

definition json_Encode :: "json \<Rightarrow> string" where
  "json_Encode v = json_Marshal v @ [CHR 0x0A]"

text \<open>A nil map is marshalled as \<open>null\<close>.\<close>

definition json_of_map :: "gomap option \<Rightarrow> json" where
  "json_of_map m = (case m of None \<Rightarrow> JNull | Some ms \<Rightarrow> JObj ms)"

end
