(* ===== verification/Api.thy ===== *)
theory Api
  imports Json
begin

text \<open>
  The custom resources of \<open>api/v1alpha1/types.go\<close> that the controllers read: transaction types, service token
  requirements and token policies. Of the Kubernetes metadata only name and namespace are kept; a condition is
  \<open>metav1.Condition\<close> with its time stamp in nanoseconds. Optional pointers are options, maps are association lists sorted
  by key.
\<close>

datatype ConditionStatus = ConditionTrue | ConditionFalse | ConditionUnknown

text \<open>A condition's message: a literal, or a literal with the list of errors it formats.\<close>

datatype message = Text string | Listing string "error list"

record Condition =
  cond_Type :: string
  cond_Status :: ConditionStatus
  cond_Reason :: string
  cond_Message :: message
  cond_LastTransitionTime :: int

subsection \<open>Transaction types\<close>

record EndpointSpec =
  ep_Path :: string
  ep_Method :: string

record TctxFieldMapping =
  fm_Source :: string
  fm_Field :: string
  fm_Required :: bool

record TctxEnrichment =
  te_Field :: string
  te_Enricher :: string

record TransactionTypeSpec =
  tts_Endpoint :: EndpointSpec
  tts_Purpose :: string
  tts_Scope :: string
  tts_TctxMapping :: "(string \<times> TctxFieldMapping) list"
  tts_TctxEnrichments :: "TctxEnrichment list"
  tts_RctxFields :: "string list"
  tts_TokenLifetime :: string

record TransactionTypeStatus =
  ttst_Conditions :: "Condition list"
  ttst_ProducedTctxFields :: "string list"
  ttst_EffectiveTokenLifetime :: string

record TransactionType =
  tt_Namespace :: string
  tt_Name :: string
  tt_Spec :: TransactionTypeSpec
  tt_Status :: TransactionTypeStatus

subsection \<open>Service token requirements\<close>

record ApiVerificationRule =
  av_Name :: string
  av_CEL :: string
  av_Message :: string

record VerificationSpec =
  vs_RequiredScope :: string
  vs_RequiredTctxFields :: "string list"
  vs_Rules :: "ApiVerificationRule list"

record ServiceReference =
  sr_Name :: string

record ServiceTokenRequirementSpec =
  sts_ServiceRef :: ServiceReference
  sts_Verification :: VerificationSpec
  sts_ExcludedEndpoints :: "EndpointSpec list"
  sts_AutoNarrow :: bool

record ServiceTokenRequirementStatus =
  stst_Conditions :: "Condition list"
  stst_ActiveVerificationRules :: nat
  stst_ExcludedEndpointCount :: nat

record ServiceTokenRequirement =
  str_Namespace :: string
  str_Name :: string
  str_Spec :: ServiceTokenRequirementSpec
  str_Status :: ServiceTokenRequirementStatus

subsection \<open>Token policies\<close>

record NamespaceSelector =
  ns_MatchNames :: "string list"
  ns_MatchLabels :: "(string \<times> string) list"

record PolicyConstraints =
  pc_MaxTokenLifetime :: string
  pc_MandatoryTctxFields :: "string list"
  pc_MandatoryRctxFields :: "string list"
  pc_DisallowedEnrichers :: "string list"

record ApiIssuanceRule =
  ai_Name :: string
  ai_CEL :: string
  ai_Message :: string

text \<open>\<open>metav1.LabelSelector\<close>: labels, and expressions given by key, operator and values.\<close>

datatype LabelSelector = LabelSelector "(string \<times> string) list" "(string \<times> string \<times> string list) list"

record RequesterRule =
  rr_NamespaceSelector :: "LabelSelector option"
  rr_ServiceAccountNames :: "string list"

record WebhookConfig =
  wc_Enabled :: bool
  wc_Endpoint :: string
  wc_FailurePolicy :: string

record TokenPolicySpec =
  tps_TargetNamespaces :: "NamespaceSelector option"
  tps_AuthorizedTransactionNamespaces :: "LabelSelector option"
  tps_AuthorizedRequesters :: "RequesterRule list"
  tps_Constraints :: PolicyConstraints
  tps_IssuanceRules :: "ApiIssuanceRule list"
  tps_AccessEvaluationWebhook :: "WebhookConfig option"

record TokenPolicy =
  tp_Name :: string
  tp_Spec :: TokenPolicySpec
  tp_Conditions :: "Condition list"

end
