(* ===== verification/Cel.thy ===== *)
theory Cel
  imports Json
begin

text \<open>
  The interface of the CEL library (cel-go), which is not part of the repository, and the contract shared by the
  three places that evaluate lists of rules.

  \<^item> \<open>cel.NewEnv\<close> is a parameter: from the declared variables it gives an environment, whose \<open>Compile\<close> maps a
    source text to a checked expression with an output type and, if it can be planned, a program. A program maps
    the variable bindings to a value or an error.
  \<^item> A binding is an interface value: nil, a string, or a map, which may itself be nil.
\<close>

datatype cel_type = BoolType | StringType | DynType | OtherType string

text \<open>A value of another type has the name of its type, its text, and the string \<open>Value()\<close> gives, where that is a Go string.\<close>

datatype cel_val = CelBool bool | CelString string | CelOther string string "string option"

datatype any_val = AnyNil | AnyStr string | AnyMap "gomap option"

type_synonym activation = "(string \<times> any_val) list"
type_synonym cel_program = "activation \<Rightarrow> cel_val res"

record cel_ast =
  OutputType :: cel_type
  Program :: "cel_program res"

type_synonym cel_env = "string \<Rightarrow> cel_ast res"
type_synonym cel_NewEnv = "(string \<times> cel_type) list \<Rightarrow> cel_env res"

fun type_name :: "cel_type \<Rightarrow> string" where
  "type_name BoolType = ''bool''"
| "type_name StringType = ''string''"
| "type_name DynType = ''dyn''"
| "type_name (OtherType s) = s"

fun value_type :: "cel_val \<Rightarrow> string" where
  "value_type (CelBool _) = ''bool''"
| "value_type (CelString _) = ''string''"
| "value_type (CelOther t _ _) = t"

text \<open>\<open>%v\<close> of a value; for a value of another type it is the second component.\<close>

fun value_text :: "cel_val \<Rightarrow> string" where
  "value_text (CelBool b) = (if b then ''true'' else ''false'')"
| "value_text (CelString s) = s"
| "value_text (CelOther _ s _) = s"

text \<open>The assertion \<open>Value().(string)\<close>; \<open>None\<close> is the panic.\<close>

fun go_string :: "cel_val \<Rightarrow> string option" where
  "go_string (CelBool _) = None"
| "go_string (CelString s) = Some s"
| "go_string (CelOther _ _ v) = v"

text \<open>\<open>if activation[k] == nil { activation[k] = map[string]any{} }\<close>: the comparison is with the nil interface.\<close>

definition default_map :: "string \<Rightarrow> activation \<Rightarrow> activation" where
  "default_map k act = (if map_of act k = Some AnyNil \<or> map_of act k = None then mput k (AnyMap (Some [])) act else act)"

subsection \<open>Rule lists\<close>

text \<open>
  A list of rules is evaluated in order up to the first that fails; \<open>verdict r c\<close> is the failure of rule \<open>r\<close> in context
  \<open>c\<close>, if any.
\<close>

locale rule_evaluator =
  fixes eval :: "'r list \<Rightarrow> 'c \<Rightarrow> 'e option"
    and verdict :: "'r \<Rightarrow> 'c \<Rightarrow> 'e option"
  assumes eval_Nil: "eval [] c = None"
    and eval_Cons: "eval (r # rs) c = (case verdict r c of Some e \<Rightarrow> Some e | None \<Rightarrow> eval rs c)"
begin

lemma accept_iff: "eval rs c = None \<longleftrightarrow> (\<forall>r\<in>set rs. verdict r c = None)"
  by (induction rs) (auto simp: eval_Nil eval_Cons split: option.splits)

lemma eval_append: "eval (rs @ rs') c = (case eval rs c of Some e \<Rightarrow> Some e | None \<Rightarrow> eval rs' c)"
  by (induction rs) (auto simp: eval_Nil eval_Cons split: option.splits)

lemma failure_splits:
  "eval rs c = Some e \<Longrightarrow>
     \<exists>xs r ys. rs = xs @ r # ys \<and> (\<forall>x\<in>set xs. verdict x c = None) \<and> verdict r c = Some e"
proof (induction rs)
  case (Cons r rs)
  show ?case
  proof (cases "verdict r c")
    case None
    with Cons.prems have "eval rs c = Some e" by (simp add: eval_Cons)
    from Cons.IH [OF this] obtain xs q ys
      where "rs = xs @ q # ys" "\<forall>x\<in>set xs. verdict x c = None" "verdict q c = Some e" by blast
    with None have "r # rs = (r # xs) @ q # ys \<and> (\<forall>x\<in>set (r # xs). verdict x c = None) \<and> verdict q c = Some e"
      by simp
    then show ?thesis by blast
  next
    case (Some e')
    with Cons.prems have "r # rs = [] @ r # rs \<and> (\<forall>x\<in>set []. verdict x c = None) \<and> verdict r c = Some e"
      by (simp add: eval_Cons)
    then show ?thesis by blast
  qed
qed (simp add: eval_Nil)

lemma first_failure:
  "eval rs c = Some e \<longleftrightarrow>
     (\<exists>xs r ys. rs = xs @ r # ys \<and> (\<forall>x\<in>set xs. verdict x c = None) \<and> verdict r c = Some e)" (is "_ \<longleftrightarrow> ?r")
proof
  assume ?r
  then obtain xs r ys where "rs = xs @ r # ys" "eval xs c = None" "verdict r c = Some e" by (auto simp: accept_iff)
  then show "eval rs c = Some e" by (simp add: eval_append eval_Cons)
qed (rule failure_splits)

lemma order_irrelevant: "mset rs = mset rs' \<Longrightarrow> eval rs c = None \<longleftrightarrow> eval rs' c = None"
  by (auto simp: accept_iff dest: mset_eq_imp_set_eq)

lemma fewer_rules: "set rs' \<subseteq> set rs \<Longrightarrow> eval rs c = None \<Longrightarrow> eval rs' c = None"
  by (auto simp: accept_iff)

lemma failure_is_a_verdict: "eval rs c = Some e \<Longrightarrow> \<exists>r\<in>set rs. verdict r c = Some e"
  by (auto simp: first_failure)

end

text \<open>
  The two compilers of rule lists stop at the first rule they refuse. The position of a rule only shows in the error, so
  a list compiles exactly when every rule of it does.
\<close>

locale rule_compiler =
  fixes one :: "nat \<Rightarrow> 'c \<Rightarrow> 'r res"
    and loop :: "nat \<Rightarrow> 'c list \<Rightarrow> 'r list res"
  assumes loop_Nil: "loop i [] = Inr []"
    and loop_Cons: "loop i (c # cs) = bindr (one i c) id (\<lambda>r. bindr (loop (Suc i) cs) id (\<lambda>rs. Inr (r # rs)))"
    and one_index: "one i c = Inr r \<Longrightarrow> one j c = Inr r"
begin

lemma compiles_iff: "is_Ok (loop i cs) \<longleftrightarrow> (\<forall>c\<in>set cs. is_Ok (one 0 c))"
proof (induction cs arbitrary: i)
  case (Cons c cs)
  have "is_Ok (one i c) \<longleftrightarrow> is_Ok (one 0 c)" using one_index unfolding is_Ok_iff by blast
  then show ?case using Cons.IH [of "Suc i"] by (auto simp: loop_Cons is_Ok_iff bindr_Ok_iff)
qed (simp add: loop_Nil)

lemma compiled: "loop i cs = Inr rs \<Longrightarrow> list_all2 (\<lambda>c r. one 0 c = Inr r) cs rs"
proof (induction cs arbitrary: i rs)
  case (Cons c cs)
  then obtain r rs' where "rs = r # rs'" "one i c = Inr r" "loop (Suc i) cs = Inr rs'"
    by (auto simp: loop_Cons bindr_Ok_iff)
  then show ?case using one_index [of i c r 0] Cons.IH [of "Suc i" rs'] by simp
qed (simp add: loop_Nil)

end

end
