(* ===== verification/CelVerify.thy ===== *)
theory CelVerify
  imports Cel
begin

text \<open>
  Verification rules (\<open>pkg/extauth/celverify/cel.go\<close>): the controller compiles them to validate a requirement, the ext-auth
  server compiles and evaluates them.
\<close>

record CelRule =
  cv_Name :: string
  cv_CEL :: string
  cv_Message :: string

record CelProgram =
  vp_Name :: string
  vp_program :: cel_program
  vp_message :: string

record CelContext =
  cx_TxToken :: "gomap option"
  cx_Request :: "gomap option"

definition celverify_NewEnv :: "cel_NewEnv \<Rightarrow> cel_env res" where
  "celverify_NewEnv NewEnv = NewEnv [(''txtoken'', DynType), (''request'', DynType)]"

definition compile_verification_rule :: "cel_env \<Rightarrow> nat \<Rightarrow> CelRule \<Rightarrow> CelProgram res" where
  "compile_verification_rule env i r =
     (if cv_CEL r = [] then Err (Errorf ''verification rule %d (%q): empty CEL expression'' [string_of_nat i, cv_Name r])
      else
        bindr (env (cv_CEL r)) (Wrapf ''compiling verification rule %q: %w'' [cv_Name r]) (\<lambda>ast.
        if OutputType ast \<noteq> BoolType
          then Err (Errorf ''verification rule %q: expression must return bool, got %s'' [cv_Name r, type_name (OutputType ast)])
        else
          bindr (Program ast) (Wrapf ''creating program for verification rule %q: %w'' [cv_Name r]) (\<lambda>prg.
          Ok \<lparr>vp_Name = cv_Name r, vp_program = prg, vp_message = cv_Message r\<rparr>)))"

fun compile_verification_loop :: "cel_env \<Rightarrow> nat \<Rightarrow> CelRule list \<Rightarrow> CelProgram list res" where
  "compile_verification_loop env i [] = Ok []"
| "compile_verification_loop env i (r # rs) =
     bindr (compile_verification_rule env i r) id (\<lambda>p.
     bindr (compile_verification_loop env (Suc i) rs) id (\<lambda>ps. Ok (p # ps)))"

definition celverify_Compile :: "cel_NewEnv \<Rightarrow> CelRule list \<Rightarrow> CelProgram list res" where
  "celverify_Compile NewEnv rules =
     (if rules = [] then Ok []
      else
        bindr (celverify_NewEnv NewEnv) (Wrapf ''creating CEL environment: %w'' []) (\<lambda>env.
        compile_verification_loop env 0 rules))"

definition verification_activation :: "CelContext \<Rightarrow> activation" where
  "verification_activation x =
     default_map ''request'' (default_map ''txtoken'' (mput_all
       [(''txtoken'', AnyMap (cx_TxToken x)), (''request'', AnyMap (cx_Request x))] []))"

definition verification_verdict :: "CelProgram \<Rightarrow> CelContext \<Rightarrow> error option" where
  "verification_verdict p x =
     (case vp_program p (verification_activation x) of
        Inl e \<Rightarrow> Some (Wrapf ''evaluating verification rule %q: %w'' [vp_Name p] e)
      | Inr (CelBool b) \<Rightarrow> if \<not> b then Some (DeniedError (vp_Name p) (vp_message p)) else None
      | Inr out \<Rightarrow> Some (Errorf ''verification rule %q returned %s, expected bool'' [vp_Name p, value_type out]))"

fun celverify_Evaluate :: "CelProgram list \<Rightarrow> CelContext \<Rightarrow> error option" where
  "celverify_Evaluate [] x = None"
| "celverify_Evaluate (p # ps) x =
     (case verification_verdict p x of
        Some e \<Rightarrow> Some e
      | None \<Rightarrow> celverify_Evaluate ps x)"

subsection \<open>Lemmas\<close>

interpretation cv: rule_evaluator celverify_Evaluate verification_verdict
  by unfold_locales simp_all

interpretation cc: rule_compiler "compile_verification_rule env" "compile_verification_loop env" for env
  by unfold_locales (auto simp: compile_verification_rule_def bindr_Ok_iff split: if_splits)

lemma verification_verdict_None_iff:
  "verification_verdict p x = None \<longleftrightarrow> vp_program p (verification_activation x) = Inr (CelBool True)"
  by (auto simp: verification_verdict_def split: sum.splits cel_val.splits)

lemma celverify_Evaluate_None_iff:
  "celverify_Evaluate ps x = None \<longleftrightarrow> (\<forall>p\<in>set ps. vp_program p (verification_activation x) = Inr (CelBool True))"
  by (simp add: cv.accept_iff verification_verdict_None_iff)

lemma celverify_Compile_single:
  "celverify_Compile NewEnv [r] = Inr ps \<longleftrightarrow>
     (\<exists>env ast prg. celverify_NewEnv NewEnv = Inr env \<and> cv_CEL r \<noteq> [] \<and> env (cv_CEL r) = Inr ast \<and>
        OutputType ast = BoolType \<and> Program ast = Inr prg \<and>
        ps = [\<lparr>vp_Name = cv_Name r, vp_program = prg, vp_message = cv_Message r\<rparr>])"
  by (auto simp: celverify_Compile_def compile_verification_rule_def bindr_Ok_iff)

end
