(* ===== verification/Issuance.thy ===== *)
theory Issuance
  imports Cel GoStrings
begin

text \<open>
  Issuance rules of the token service (\<open>pkg/tts/cel.go\<close>): compilation of the configured CEL expressions and their
  evaluation against a token request.
\<close>

record IssuanceRule =
  ir_Name :: string
  ir_program :: cel_program
  ir_message :: string
  ir_TargetNamespaces :: "string list"

record IssuanceRuleConfig =
  ic_Name :: string
  ic_CEL :: string
  ic_Message :: string
  ic_TargetNamespaces :: "string list"

record IssuanceContext =
  ix_Subject :: string
  ix_Scope :: string
  ix_Tctx :: "gomap option"
  ix_Rctx :: "gomap option"
  ix_Workload :: string
  ix_WorkloadNS :: string

definition newIssuanceCELEnv :: "cel_NewEnv \<Rightarrow> cel_env res" where
  "newIssuanceCELEnv NewEnv =
     NewEnv [(''subject'', StringType), (''scope'', StringType), (''tctx'', DynType), (''rctx'', DynType),
             (''workload'', StringType), (''workload_ns'', StringType)]"

definition compile_issuance_rule :: "cel_env \<Rightarrow> nat \<Rightarrow> IssuanceRuleConfig \<Rightarrow> IssuanceRule res" where
  "compile_issuance_rule env i cfg =
     (if ic_CEL cfg = [] then Err (Errorf ''issuance rule %d (%q): empty CEL expression'' [string_of_nat i, ic_Name cfg])
      else
        bindr (env (ic_CEL cfg)) (Wrapf ''compiling issuance rule %q: %w'' [ic_Name cfg]) (\<lambda>ast.
        if OutputType ast \<noteq> BoolType
          then Err (Errorf ''issuance rule %q: expression must return bool, got %s'' [ic_Name cfg, type_name (OutputType ast)])
        else
          bindr (Program ast) (Wrapf ''creating program for issuance rule %q: %w'' [ic_Name cfg]) (\<lambda>prg.
          Ok \<lparr>ir_Name = ic_Name cfg, ir_program = prg, ir_message = ic_Message cfg,
              ir_TargetNamespaces = ic_TargetNamespaces cfg\<rparr>)))"

fun compile_issuance_loop :: "cel_env \<Rightarrow> nat \<Rightarrow> IssuanceRuleConfig list \<Rightarrow> IssuanceRule list res" where
  "compile_issuance_loop env i [] = Ok []"
| "compile_issuance_loop env i (cfg # cfgs) =
     bindr (compile_issuance_rule env i cfg) id (\<lambda>r.
     bindr (compile_issuance_loop env (Suc i) cfgs) id (\<lambda>rs. Ok (r # rs)))"

definition CompileIssuanceRules :: "cel_NewEnv \<Rightarrow> IssuanceRuleConfig list \<Rightarrow> IssuanceRule list res" where
  "CompileIssuanceRules NewEnv configs =
     (if configs = [] then Ok []
      else
        bindr (newIssuanceCELEnv NewEnv) (Wrapf ''creating CEL environment: %w'' []) (\<lambda>env.
        compile_issuance_loop env 0 configs))"

definition ruleAppliesToNamespace :: "string list \<Rightarrow> string \<Rightarrow> bool" where
  "ruleAppliesToNamespace targets workloadNS =
     (if targets = [] then True
      else if workloadNS = [] then False
      else list_ex (\<lambda>t. t = workloadNS) targets)"

definition issuance_activation :: "IssuanceContext \<Rightarrow> activation" where
  "issuance_activation x =
     default_map ''rctx'' (default_map ''tctx'' (mput_all
       [(''subject'', AnyStr (ix_Subject x)), (''scope'', AnyStr (ix_Scope x)), (''tctx'', AnyMap (ix_Tctx x)),
        (''rctx'', AnyMap (ix_Rctx x)), (''workload'', AnyStr (ix_Workload x)),
        (''workload_ns'', AnyStr (ix_WorkloadNS x))] []))"

definition issuance_verdict :: "IssuanceRule \<Rightarrow> IssuanceContext \<Rightarrow> error option" where
  "issuance_verdict rule x =
     (if \<not> ruleAppliesToNamespace (ir_TargetNamespaces rule) (ix_WorkloadNS x) then None
      else
        (case ir_program rule (issuance_activation x) of
           Inl e \<Rightarrow> Some (Wrapf ''evaluating issuance rule %q: %w'' [ir_Name rule] e)
         | Inr (CelBool b) \<Rightarrow> if \<not> b then Some (IssuanceDeniedError (ir_Name rule) (ir_message rule)) else None
         | Inr out \<Rightarrow> Some (Errorf ''issuance rule %q returned %s, expected bool'' [ir_Name rule, value_type out])))"

fun EvaluateIssuanceRules :: "IssuanceRule list \<Rightarrow> IssuanceContext \<Rightarrow> error option" where
  "EvaluateIssuanceRules [] x = None"
| "EvaluateIssuanceRules (rule # rules) x =
     (case issuance_verdict rule x of
        Some e \<Rightarrow> Some e
      | None \<Rightarrow> EvaluateIssuanceRules rules x)"

definition ScopeContains :: "string \<Rightarrow> string \<Rightarrow> bool" where
  "ScopeContains scopeString target = list_ex (\<lambda>s. s = target) (Fields scopeString)"

subsection \<open>Lemmas\<close>

interpretation ir: rule_evaluator EvaluateIssuanceRules issuance_verdict
  by unfold_locales simp_all

interpretation ic: rule_compiler "compile_issuance_rule env" "compile_issuance_loop env" for env
  by unfold_locales (auto simp: compile_issuance_rule_def bindr_Ok_iff split: if_splits)

text \<open>A rule passes when it does not apply, or its program gives true.\<close>

lemma issuance_verdict_None_iff:
  "issuance_verdict r x = None \<longleftrightarrow>
     \<not> ruleAppliesToNamespace (ir_TargetNamespaces r) (ix_WorkloadNS x) \<or>
     ir_program r (issuance_activation x) = Inr (CelBool True)"
  by (auto simp: issuance_verdict_def split: sum.splits cel_val.splits)

lemma ruleAppliesToNamespace_iff:
  "ruleAppliesToNamespace ts ns \<longleftrightarrow> ts = [] \<or> (ns \<noteq> [] \<and> ns \<in> set ts)"
  by (auto simp: ruleAppliesToNamespace_def list_ex_iff)

lemma EvaluateIssuanceRules_None_iff:
  "EvaluateIssuanceRules rs x = None \<longleftrightarrow>
     (\<forall>r\<in>set rs. ruleAppliesToNamespace (ir_TargetNamespaces r) (ix_WorkloadNS x) \<longrightarrow>
        ir_program r (issuance_activation x) = Inr (CelBool True))"
  by (auto simp: ir.accept_iff issuance_verdict_None_iff)

lemma compile_issuance_rule_Ok:
  "compile_issuance_rule env i cfg = Inr r \<Longrightarrow>
     \<exists>ast. ic_CEL cfg \<noteq> [] \<and> env (ic_CEL cfg) = Inr ast \<and> OutputType ast = BoolType \<and>
        Program ast = Inr (ir_program r) \<and> ir_Name r = ic_Name cfg \<and> ir_message r = ic_Message cfg \<and>
        ir_TargetNamespaces r = ic_TargetNamespaces cfg"
  by (auto simp: bindr_Ok_iff compile_issuance_rule_def split: if_splits)

lemma compile_issuance_loop_Ok:
  "compile_issuance_loop env i cfgs = Inr rs \<Longrightarrow>
     list_all2 (\<lambda>cfg r. \<exists>ast. ic_CEL cfg \<noteq> [] \<and> env (ic_CEL cfg) = Inr ast \<and> OutputType ast = BoolType \<and>
        Program ast = Inr (ir_program r) \<and> ir_Name r = ic_Name cfg \<and> ir_message r = ic_Message cfg \<and>
        ir_TargetNamespaces r = ic_TargetNamespaces cfg) cfgs rs"
proof (induction cfgs arbitrary: i rs)
  case (Cons cfg cfgs)
  then obtain r rs' where "rs = r # rs'" "compile_issuance_rule env i cfg = Inr r"
    "compile_issuance_loop env (Suc i) cfgs = Inr rs'" by (auto simp: bindr_Ok_iff)
  then show ?case using compile_issuance_rule_Ok Cons.IH by simp
qed simp

text \<open>
  The two map variables of a rule are always bound to the request's maps: the test for nil never fires, because a
  nil map in an interface is not the nil interface.
\<close>

lemma issuance_activation_tctx:
  "map_of (issuance_activation x) ''tctx'' = Some (AnyMap (ix_Tctx x))"
  "map_of (issuance_activation x) ''rctx'' = Some (AnyMap (ix_Rctx x))"
  by (simp_all add: issuance_activation_def default_map_def map_of_mput_all del: mput_all_simps)

lemma ScopeContains_iff: "ScopeContains s t \<longleftrightarrow> t \<in> set (Fields s)"
  by (auto simp: ScopeContains_def list_ex_iff)

end
