(* ===== verification/GoTime.thy ===== *)
theory GoTime
  imports Json
begin

text \<open>
  \<open>time.ParseDuration\<close>: a signed sequence of decimal numbers with units, in nanoseconds. Intermediate values are
  unsigned 64-bit integers; the source's overflow tests keep them below \<open>2\<^sup>6\<^sup>3\<close>, so they are naturals here with
  the tests written out. A fraction is scaled in floating point, as in the library.
\<close>

type_synonym duration = int

definition Nanosecond :: nat where "Nanosecond = 1"
definition Second :: nat where "Second = 1000000000"

definition unit_of :: "string \<Rightarrow> nat option" where
  "unit_of u =
     (if u = ''ns'' then Some 1
      else if u = ''us'' \<or> u = [char_of (0xC2::nat), char_of (0xB5::nat), CHR ''s'']
           \<or> u = [char_of (0xCE::nat), char_of (0xBC::nat), CHR ''s''] then Some 1000
      else if u = ''ms'' then Some 1000000
      else if u = ''s'' then Some 1000000000
      else if u = ''m'' then Some (60 * 1000000000)
      else if u = ''h'' then Some (3600 * 1000000000)
      else None)"

fun leadingInt :: "nat \<Rightarrow> string \<Rightarrow> (nat \<times> string) option" where
  "leadingInt x [] = Some (x, [])"
| "leadingInt x (c # s) =
     (if \<not> is_digit c then Some (x, c # s)
      else if 2 ^ 63 div 10 < x then None
      else
        let y = x * 10 + (code c - 48) in
        if 2 ^ 63 < y then None else leadingInt y s)"

fun leadingFraction :: "nat \<Rightarrow> nat \<Rightarrow> bool \<Rightarrow> string \<Rightarrow> nat \<times> nat \<times> string" where
  "leadingFraction x scale over [] = (x, scale, [])"
| "leadingFraction x scale over (c # s) =
     (if \<not> is_digit c then (x, scale, c # s)
      else if over then leadingFraction x scale True s
      else if (2 ^ 63 - 1) div 10 < x then leadingFraction x scale True s
      else
        let y = x * 10 + (code c - 48) in
        if 2 ^ 63 < y then leadingFraction x scale True s
        else leadingFraction y (scale * 10) False s)"

definition float64 :: "rat \<Rightarrow> rat" where
  "float64 q = (case float64_of q of Some r \<Rightarrow> r | None \<Rightarrow> 0)"

definition fraction_nanos :: "nat \<Rightarrow> nat \<Rightarrow> nat \<Rightarrow> nat" where
  "fraction_nanos f scale u = nat \<lfloor>float64 (float64 (of_nat f) * float64 (of_nat u / of_nat scale))\<rfloor>"

definition unit_char :: "char \<Rightarrow> bool" where
  "unit_char c \<longleftrightarrow> c \<noteq> CHR ''.'' \<and> \<not> is_digit c"

text \<open>One component: the number of nanoseconds and the rest of the text.\<close>

definition duration_part :: "string \<Rightarrow> (nat \<times> string) option" where
  "duration_part s =
     (case s of
        [] \<Rightarrow> None
      | c # _ \<Rightarrow>
          if \<not> (c = CHR ''.'' \<or> is_digit c) then None
          else
            (case leadingInt 0 s of
               None \<Rightarrow> None
             | Some (v, s1) \<Rightarrow>
                 let pre = (length s1 \<noteq> length s);
                     (f, scale, s2, post) =
                       (case s1 of
                          c1 # r \<Rightarrow>
                            if c1 = CHR ''.'' then
                              let (f, scale, r') = leadingFraction 0 1 False r in (f, scale, r', length r' \<noteq> length r)
                            else (0, 1, s1, False)
                        | [] \<Rightarrow> (0, 1, s1, False));
                     u = takeWhile unit_char s2; s3 = dropWhile unit_char s2
                 in if \<not> pre \<and> \<not> post then None
                    else if u = [] then None
                    else
                      (case unit_of u of
                         None \<Rightarrow> None
                       | Some unit \<Rightarrow>
                           if 2 ^ 63 div unit < v then None
                           else
                             let w = v * unit + (if 0 < f then fraction_nanos f scale unit else 0) in
                             if 0 < f \<and> 2 ^ 63 < w then None else Some (w, s3))))"

fun duration_sum :: "nat \<Rightarrow> nat \<Rightarrow> string \<Rightarrow> nat option" where
  "duration_sum 0 d s = (if s = [] then Some d else None)"
| "duration_sum (Suc n) d s =
     (if s = [] then Some d
      else
        (case duration_part s of
           None \<Rightarrow> None
         | Some (w, r) \<Rightarrow> if 2 ^ 63 < d + w then None else duration_sum n (d + w) r))"

definition invalid_duration :: "string \<Rightarrow> duration res" where
  "invalid_duration s = Err (LibError (''time: invalid duration '' @ s))"

definition ParseDuration :: "string \<Rightarrow> duration res" where
  "ParseDuration orig =
     (let neg = HasPrefix orig ''-'';
          s = (if HasPrefix orig ''-'' \<or> HasPrefix orig ''+'' then tl orig else orig)
      in if s = ''0'' then Ok 0
         else if s = [] then invalid_duration orig
         else
           (case duration_sum (length s) 0 s of
              None \<Rightarrow> invalid_duration orig
            | Some d \<Rightarrow>
                if neg then Ok (- int d)
                else if 2 ^ 63 - 1 < d then invalid_duration orig
                else Ok (int d)))"

subsection \<open>Lemmas\<close>

lemma leadingInt_length: "leadingInt x s = Some (v, r) \<Longrightarrow> length r \<le> length s"
  by (induction x s rule: leadingInt.induct) (auto simp: Let_def split: if_splits)

lemma leadingFraction_length: "leadingFraction x k b s = (v, k', r) \<Longrightarrow> length r \<le> length s"
  by (induction s arbitrary: x k b) (auto simp: Let_def split: if_splits intro: le_SucI)

text \<open>Every component consumes text, so as many steps as there are characters are enough.\<close>

lemma duration_part_shorter: "duration_part s = Some (w, r) \<Longrightarrow> length r < length s"
proof -
  assume "duration_part s = Some (w, r)"
  then obtain v s1 f k s2 post where 1: "leadingInt 0 s = Some (v, s1)"
    and 2: "(case s1 of c1 # q \<Rightarrow> if c1 = CHR ''.'' then
              let (f, scale, q') = leadingFraction 0 1 False q in (f, scale, q', length q' \<noteq> length q)
            else (0, 1, s1, False) | [] \<Rightarrow> (0, 1, s1, False)) = (f, k, s2, post)"
    and 3: "takeWhile unit_char s2 \<noteq> []" "r = dropWhile unit_char s2"
    by (auto simp: duration_part_def Let_def split: list.splits if_splits option.splits prod.splits)
  have "length s2 \<le> length s1"
    using 2 leadingFraction_length by (fastforce simp: Let_def split: list.splits if_splits prod.splits)
  moreover have "length r < length s2"
    using 3 by (metis length_append length_greater_0_conv less_add_same_cancel2 takeWhile_dropWhile_id)
  ultimately show ?thesis using leadingInt_length [OF 1] by simp
qed

lemma duration_sum_fuel: "length s \<le> n \<Longrightarrow> duration_sum (Suc n) d s = duration_sum n d s"
proof (induction n arbitrary: d s)
  case (Suc n)
  show ?case
  proof (cases "duration_part s")
    case (Some wr)
    obtain w r where wr: "wr = (w, r)" by fastforce
    then have "length r \<le> n" using duration_part_shorter [of s w r] Some Suc.prems by simp
    then have "duration_sum (Suc n) (d + w) r = duration_sum n (d + w) r" using Suc.IH by blast
    with Some wr show ?thesis by (simp del: duration_sum.simps add: duration_sum.simps(2) [of "Suc n" d s] duration_sum.simps(2) [of n d s])
  qed simp
qed simp

lemma duration_sum_bound: "duration_sum n d s = Some d' \<Longrightarrow> d \<le> 2 ^ 63 \<Longrightarrow> d' \<le> 2 ^ 63"
  by (induction n arbitrary: d s) (auto split: if_splits option.splits)

text \<open>A parsed duration fits the 64 bits of \<open>time.Duration\<close>.\<close>

lemma ParseDuration_bounds:
  assumes "ParseDuration s = Inr d"
  shows "- (2 ^ 63) \<le> d \<and> d < 2 ^ 63"
proof -
  have "int n \<le> 2 ^ 63" if "duration_sum k 0 t = Some n" for k t n
    using duration_sum_bound [OF that] by (metis le0 of_nat_le_iff of_nat_numeral of_nat_power)
  then show ?thesis
    using assms
    by (fastforce simp: ParseDuration_def invalid_duration_def Let_def split: if_splits option.splits)
qed

end
