(* ===== verification/Controller.thy ===== *)
theory Controller
  imports Api CelVerify Issuance GoTime
begin

text \<open>
  The controller (\<open>internal/controller\<close>): the rule types it publishes (\<open>rules.go\<close>), the reconcilers of transaction types and
  service token requirements (\<open>controller.go\<close>) and of token policies (\<open>policy_reconciler.go\<close>).

  The Kubernetes client is a parameter: what \<open>Get\<close>, \<open>List\<close> and \<open>Status().Update\<close> answer during one reconcile. A reconcile
  lists transaction types or requirements at most once; the policies it may list several times, and each listing has an
  answer of its own (\<open>ttr_policies\<close>). A publisher is the update operation of the rule server, acting on the server's state;
  a reconcile returns its error, the object it wrote with \<open>Status().Update\<close>, if any, and the state of the publisher. The
  order in which Go ranges over the keys of a map is the parameter \<open>iter\<close>.
\<close>

subsection \<open>Published rules\<close>

record GenerationRule =
  gr_Namespace :: string
  gr_Name :: string
  gr_Endpoint :: EndpointSpec
  gr_Purpose :: string
  gr_Scope :: string
  gr_TctxMapping :: "(string \<times> TctxFieldMapping) list"
  gr_TctxEnrichments :: "TctxEnrichment list"
  gr_RctxFields :: "string list"
  gr_TokenLifetime :: string

record CELRule =
  cr_Name :: string
  cr_CEL :: string
  cr_Message :: string

record VerificationRule =
  vr_Namespace :: string
  vr_Name :: string
  vr_ServiceName :: string
  vr_RequiredScope :: string
  vr_RequiredTctxFields :: "string list"
  vr_CELRules :: "CELRule list"
  vr_ExcludedEndpoints :: "EndpointSpec list"
  vr_AutoNarrow :: bool

record PublishedIssuanceRule =
  pi_PolicyNamespace :: string
  pi_PolicyName :: string
  pi_RuleName :: string
  pi_CEL :: string
  pi_Message :: string
  pi_TargetNamespaces :: "string list"

subsection \<open>Policy constraints\<close>

definition lifetime_violations :: "TransactionType \<Rightarrow> TokenPolicy \<Rightarrow> error list" where
  "lifetime_violations tt policy =
     (let maxl = pc_MaxTokenLifetime (tps_Constraints (tp_Spec policy));
          ttl = tts_TokenLifetime (tt_Spec tt)
      in if maxl \<noteq> [] \<and> ttl \<noteq> [] then
           (case (ParseDuration maxl, ParseDuration ttl) of
              (Inr maxDuration, Inr ttDuration) \<Rightarrow>
                if ttDuration > maxDuration then [Errorf ''tokenLifetime %s exceeds policy maximum %s'' [ttl, maxl]] else []
            | _ \<Rightarrow> [])
         else [])"

definition produces :: "TransactionType \<Rightarrow> string \<Rightarrow> bool" where
  "produces tt required =
     (list_ex (\<lambda>(fieldName, _). fieldName = required) (tts_TctxMapping (tt_Spec tt)) \<or>
      list_ex (\<lambda>enrichment. te_Field enrichment = required) (tts_TctxEnrichments (tt_Spec tt)))"

fun mandatory_violations :: "TransactionType \<Rightarrow> string list \<Rightarrow> error list" where
  "mandatory_violations tt [] = []"
| "mandatory_violations tt (required # rest) =
     (if required = ''purpose'' then mandatory_violations tt rest
      else if produces tt required then mandatory_violations tt rest
      else Errorf ''mandatory tctx field %q not produced by this TransactionType'' [required] # mandatory_violations tt rest)"

fun disallowed_violations :: "TctxEnrichment list \<Rightarrow> string list \<Rightarrow> error list" where
  "disallowed_violations [] ds = []"
| "disallowed_violations (enrichment # es) ds =
     map (\<lambda>_. Errorf ''enricher %q is disallowed by policy'' [te_Enricher enrichment])
       (filter (\<lambda>disallowed. te_Enricher enrichment = disallowed) ds) @ disallowed_violations es ds"

definition ValidateTransactionTypeAgainstPolicy :: "TransactionType \<Rightarrow> TokenPolicy option \<Rightarrow> error list" where
  "ValidateTransactionTypeAgainstPolicy tt policy =
     (case policy of
        None \<Rightarrow> []
      | Some p \<Rightarrow>
          lifetime_violations tt p @
          mandatory_violations tt (pc_MandatoryTctxFields (tps_Constraints (tp_Spec p))) @
          disallowed_violations (tts_TctxEnrichments (tt_Spec tt)) (pc_DisallowedEnrichers (tps_Constraints (tp_Spec p))))"

definition ComputeProducedTctxFields :: "(string list \<Rightarrow> string list) \<Rightarrow> TransactionType \<Rightarrow> string list" where
  "ComputeProducedTctxFields iter tt =
     [''purpose''] @ iter (map fst (tts_TctxMapping (tt_Spec tt))) @ map te_Field (tts_TctxEnrichments (tt_Spec tt))"

definition ClampTokenLifetime :: "string \<Rightarrow> string \<Rightarrow> string \<Rightarrow> string" where
  "ClampTokenLifetime requested0 maxLifetime defaultLifetime =
     (let requested = (if requested0 = [] then defaultLifetime else requested0)
      in if maxLifetime = [] then requested
         else
           (case (ParseDuration requested, ParseDuration maxLifetime) of
              (Inr reqDur, Inr maxDur) \<Rightarrow> if reqDur > maxDur then maxLifetime else requested
            | _ \<Rightarrow> requested))"

subsection \<open>Conditions\<close>

definition ConditionPolicyCompliant :: string where "ConditionPolicyCompliant = ''PolicyCompliant''"
definition ConditionReady :: string where "ConditionReady = ''Ready''"

fun setCondition :: "int \<Rightarrow> string \<Rightarrow> ConditionStatus \<Rightarrow> string \<Rightarrow> message \<Rightarrow> Condition list \<Rightarrow> Condition list" where
  "setCondition now condType status reason msg [] =
     [\<lparr>cond_Type = condType, cond_Status = status, cond_Reason = reason, cond_Message = msg,
       cond_LastTransitionTime = now\<rparr>]"
| "setCondition now condType status reason msg (c # cs) =
     (if cond_Type c = condType
        then c\<lparr>cond_Status := status, cond_Reason := reason, cond_Message := msg, cond_LastTransitionTime := now\<rparr> # cs
      else c # setCondition now condType status reason msg cs)"

subsection \<open>Clients\<close>

datatype 'o get_result = Found 'o | ObjectNotFound error | GetError error

record 'o kube =
  kube_Get :: "string \<Rightarrow> string \<Rightarrow> 'o get_result"
  kube_List :: "'o list res"
  kube_StatusUpdate :: "'o \<Rightarrow> error option"

type_synonym ('r, 's) publisher = "('r list \<Rightarrow> 's \<Rightarrow> 's) option"

definition publish :: "('r, 's) publisher \<Rightarrow> 'r list \<Rightarrow> 's \<Rightarrow> 's" where
  "publish p rules s = (case p of None \<Rightarrow> s | Some update \<Rightarrow> update rules s)"

subsection \<open>Transaction types\<close>

text \<open>
  A reconcile lists the policies anew for every type it looks at. What the client answers to the \<open>n\<close>-th of these requests
  is \<open>ttr_policies n\<close>.
\<close>

record 's TransactionTypeReconciler =
  ttr_Client :: "TransactionType kube"
  ttr_policies :: "nat \<Rightarrow> TokenPolicy list res"
  ttr_RulePublisher :: "(GenerationRule, 's) publisher"

definition selects :: "string \<Rightarrow> TokenPolicy \<Rightarrow> bool" where
  "selects namespace policy =
     (case tps_TargetNamespaces (tp_Spec policy) of
        None \<Rightarrow> True
      | Some sel \<Rightarrow> list_ex (\<lambda>name. name = namespace) (ns_MatchNames sel))"

definition findApplicablePolicy :: "TokenPolicy list res \<Rightarrow> string \<Rightarrow> TokenPolicy option res" where
  "findApplicablePolicy policies namespace =
     bindr policies id (\<lambda>policyList.
       case find (selects namespace) policyList of
         Some policy \<Rightarrow> Ok (Some policy)
       | None \<Rightarrow> Ok (find (\<lambda>policy. tps_TargetNamespaces (tp_Spec policy) = None) policyList))"

text \<open>\<open>policy, _ := findApplicablePolicy(...)\<close>: the error is logged or dropped and the policy is nil.\<close>

definition applicable :: "TokenPolicy list res \<Rightarrow> string \<Rightarrow> TokenPolicy option" where
  "applicable policies namespace = (case findApplicablePolicy policies namespace of Inl _ \<Rightarrow> None | Inr p \<Rightarrow> p)"

definition effective_lifetime :: "TransactionType \<Rightarrow> TokenPolicy option \<Rightarrow> string" where
  "effective_lifetime tt policy =
     (case policy of
        None \<Rightarrow> tts_TokenLifetime (tt_Spec tt)
      | Some p \<Rightarrow> ClampTokenLifetime (tts_TokenLifetime (tt_Spec tt)) (pc_MaxTokenLifetime (tps_Constraints (tp_Spec p))) ''15s'')"

definition generation_rule :: "TokenPolicy list res \<Rightarrow> TransactionType \<Rightarrow> GenerationRule" where
  "generation_rule policies tt =
     (let effectiveLifetime = effective_lifetime tt (applicable policies (tt_Namespace tt))
      in \<lparr>gr_Namespace = tt_Namespace tt, gr_Name = tt_Name tt, gr_Endpoint = tts_Endpoint (tt_Spec tt),
          gr_Purpose = tts_Purpose (tt_Spec tt), gr_Scope = tts_Scope (tt_Spec tt),
          gr_TctxMapping = tts_TctxMapping (tt_Spec tt), gr_TctxEnrichments = tts_TctxEnrichments (tt_Spec tt),
          gr_RctxFields = tts_RctxFields (tt_Spec tt),
          gr_TokenLifetime = (if effectiveLifetime = [] then ''15s'' else effectiveLifetime)\<rparr>)"

text \<open>The loop over the listed types, after \<open>n\<close> requests for the policies.\<close>

fun generation_rules :: "(nat \<Rightarrow> TokenPolicy list res) \<Rightarrow> nat \<Rightarrow> TransactionType list \<Rightarrow> GenerationRule list" where
  "generation_rules policies n [] = []"
| "generation_rules policies n (tt # tts) = generation_rule (policies n) tt # generation_rules policies (Suc n) tts"

definition rebuildGenerationRules :: "nat \<Rightarrow> ('s, 'z) TransactionTypeReconciler_scheme \<Rightarrow> 's \<Rightarrow> error option \<times> 's" where
  "rebuildGenerationRules n r s =
     (case kube_List (ttr_Client r) of
        Inl e \<Rightarrow> (Some (Wrapf ''listing TransactionTypes: %w'' [] e), s)
      | Inr ttList \<Rightarrow> (None, publish (ttr_RulePublisher r) (generation_rules (ttr_policies r) n ttList) s))"

definition transaction_type_status ::
    "(string list \<Rightarrow> string list) \<Rightarrow> int \<Rightarrow> TokenPolicy option \<Rightarrow> TransactionType \<Rightarrow> TransactionTypeStatus" where
  "transaction_type_status iter now policy tt =
     (let violations = ValidateTransactionTypeAgainstPolicy tt policy;
          conds = ttst_Conditions (tt_Status tt);
          conds' =
            (if violations \<noteq> [] then
               setCondition now ConditionPolicyCompliant ConditionFalse ''PolicyViolation'' (Listing ''violations: %v'' violations) conds
             else
               setCondition now ConditionPolicyCompliant ConditionTrue ''Compliant'' (Text ''all policy constraints satisfied'') conds)
      in \<lparr>ttst_Conditions = setCondition now ConditionReady ConditionTrue ''Reconciled'' (Text ''generation rules updated'') conds',
          ttst_ProducedTctxFields = ComputeProducedTctxFields iter tt,
          ttst_EffectiveTokenLifetime = effective_lifetime tt policy\<rparr>)"

definition TransactionType_Reconcile ::
    "(string list \<Rightarrow> string list) \<Rightarrow> int \<Rightarrow> ('s, 'z) TransactionTypeReconciler_scheme \<Rightarrow> string \<times> string \<Rightarrow> 's \<Rightarrow>
       error option \<times> TransactionType option \<times> 's" where
  "TransactionType_Reconcile iter now r req s =
     (case kube_Get (ttr_Client r) (fst req) (snd req) of
        ObjectNotFound _ \<Rightarrow> (let (e, s') = rebuildGenerationRules 0 r s in (e, None, s'))
      | GetError e \<Rightarrow> (Some e, None, s)
      | Found tt \<Rightarrow>
          (let tt' = tt\<lparr>tt_Status := transaction_type_status iter now (applicable (ttr_policies r 0) (tt_Namespace tt)) tt\<rparr>
           in case kube_StatusUpdate (ttr_Client r) tt' of
                Some e \<Rightarrow> (Some e, None, s)
              | None \<Rightarrow> (let (e, s') = rebuildGenerationRules 1 r s in (e, Some tt', s'))))"

subsection \<open>Service token requirements\<close>

record 's ServiceTokenRequirementReconciler =
  strr_Client :: "ServiceTokenRequirement kube"
  strr_RulePublisher :: "(VerificationRule, 's) publisher"

fun validate_rules_loop :: "cel_NewEnv \<Rightarrow> ApiVerificationRule list \<Rightarrow> ApiVerificationRule list \<times> error list" where
  "validate_rules_loop NewEnv [] = ([], [])"
| "validate_rules_loop NewEnv (rule # rules) =
     (let (valid, errs) = validate_rules_loop NewEnv rules
      in if av_CEL rule = [] then (valid, Errorf ''rule %q has empty CEL expression'' [av_Name rule] # errs)
         else
           (case celverify_Compile NewEnv [\<lparr>cv_Name = av_Name rule, cv_CEL = av_CEL rule, cv_Message = av_Message rule\<rparr>] of
              Inl err \<Rightarrow> (valid, err # errs)
            | Inr _ \<Rightarrow> (rule # valid, errs)))"

definition validateAndCompileCELRules :: "cel_NewEnv \<Rightarrow> ApiVerificationRule list \<Rightarrow> ApiVerificationRule list \<times> error list" where
  "validateAndCompileCELRules NewEnv rules =
     (if rules = [] then ([], []) else validate_rules_loop NewEnv rules)"

definition validateCELRules :: "cel_NewEnv \<Rightarrow> ApiVerificationRule list \<Rightarrow> error list" where
  "validateCELRules NewEnv rules = snd (validateAndCompileCELRules NewEnv rules)"

definition verification_rule :: "cel_NewEnv \<Rightarrow> ServiceTokenRequirement \<Rightarrow> VerificationRule" where
  "verification_rule NewEnv str =
     (let validCEL = fst (validateAndCompileCELRules NewEnv (vs_Rules (sts_Verification (str_Spec str))))
      in \<lparr>vr_Namespace = str_Namespace str, vr_Name = str_Name str, vr_ServiceName = sr_Name (sts_ServiceRef (str_Spec str)),
          vr_RequiredScope = vs_RequiredScope (sts_Verification (str_Spec str)),
          vr_RequiredTctxFields = vs_RequiredTctxFields (sts_Verification (str_Spec str)),
          vr_CELRules = map (\<lambda>r. \<lparr>cr_Name = av_Name r, cr_CEL = av_CEL r, cr_Message = av_Message r\<rparr>) validCEL,
          vr_ExcludedEndpoints = sts_ExcludedEndpoints (str_Spec str), vr_AutoNarrow = sts_AutoNarrow (str_Spec str)\<rparr>)"

definition rebuildVerificationRules ::
    "cel_NewEnv \<Rightarrow> ('s, 'z) ServiceTokenRequirementReconciler_scheme \<Rightarrow> 's \<Rightarrow> error option \<times> 's" where
  "rebuildVerificationRules NewEnv r s =
     (case kube_List (strr_Client r) of
        Inl e \<Rightarrow> (Some (Wrapf ''listing ServiceTokenRequirements: %w'' [] e), s)
      | Inr strList \<Rightarrow> (None, publish (strr_RulePublisher r) (map (verification_rule NewEnv) strList) s))"

definition requirement_status :: "cel_NewEnv \<Rightarrow> int \<Rightarrow> ServiceTokenRequirement \<Rightarrow> ServiceTokenRequirementStatus" where
  "requirement_status NewEnv now str =
     (let celErrors = validateCELRules NewEnv (vs_Rules (sts_Verification (str_Spec str)));
          conds = stst_Conditions (str_Status str)
      in \<lparr>stst_Conditions =
            (if celErrors \<noteq> [] then
               setCondition now ConditionReady ConditionFalse ''CELCompilationError'' (Listing ''CEL errors: %v'' celErrors) conds
             else setCondition now ConditionReady ConditionTrue ''Reconciled'' (Text ''verification rules updated'') conds),
          stst_ActiveVerificationRules = length (vs_Rules (sts_Verification (str_Spec str))),
          stst_ExcludedEndpointCount = length (sts_ExcludedEndpoints (str_Spec str))\<rparr>)"

definition ServiceTokenRequirement_Reconcile ::
    "cel_NewEnv \<Rightarrow> int \<Rightarrow> ('s, 'z) ServiceTokenRequirementReconciler_scheme \<Rightarrow> string \<times> string \<Rightarrow> 's \<Rightarrow>
       error option \<times> ServiceTokenRequirement option \<times> 's" where
  "ServiceTokenRequirement_Reconcile NewEnv now r req s =
     (case kube_Get (strr_Client r) (fst req) (snd req) of
        ObjectNotFound _ \<Rightarrow> (let (e, s') = rebuildVerificationRules NewEnv r s in (e, None, s'))
      | GetError e \<Rightarrow> (Some e, None, s)
      | Found str \<Rightarrow>
          (let str' = str\<lparr>str_Status := requirement_status NewEnv now str\<rparr>
           in case kube_StatusUpdate (strr_Client r) str' of
                Some e \<Rightarrow> (Some e, None, s)
              | None \<Rightarrow> (let (e, s') = rebuildVerificationRules NewEnv r s in (e, Some str', s'))))"

subsection \<open>Token policies\<close>

record 's TokenPolicyReconciler =
  tpr_Client :: "TokenPolicy kube"
  tpr_IssuancePublisher :: "(PublishedIssuanceRule, 's) publisher"

record issuanceCELError =
  ie_ruleName :: string
  ie_err :: error

definition resolveTargetNamespaces :: "NamespaceSelector option \<Rightarrow> string list" where
  "resolveTargetNamespaces sel =
     (case sel of
        None \<Rightarrow> []
      | Some s \<Rightarrow> if ns_MatchNames s = [] then [] else ns_MatchNames s)"

definition issuance_config :: "ApiIssuanceRule \<Rightarrow> IssuanceRuleConfig" where
  "issuance_config r = \<lparr>ic_Name = ai_Name r, ic_CEL = ai_CEL r, ic_Message = ai_Message r, ic_TargetNamespaces = []\<rparr>"

definition issuance_cel_error :: "cel_NewEnv \<Rightarrow> IssuanceRuleConfig \<Rightarrow> issuanceCELError list" where
  "issuance_cel_error NewEnv cfg =
     (case CompileIssuanceRules NewEnv [cfg] of
        Inl err \<Rightarrow> [\<lparr>ie_ruleName = ic_Name cfg, ie_err = err\<rparr>]
      | Inr _ \<Rightarrow> [])"

definition validateIssuanceCEL :: "cel_NewEnv \<Rightarrow> ApiIssuanceRule list \<Rightarrow> issuanceCELError list" where
  "validateIssuanceCEL NewEnv rules =
     (if rules = [] then []
      else
        (let configs = map issuance_config rules
         in case CompileIssuanceRules NewEnv configs of
              Inr _ \<Rightarrow> []
            | Inl _ \<Rightarrow> concat (map (issuance_cel_error NewEnv) configs)))"

definition issuance_rules_of :: "cel_NewEnv \<Rightarrow> TokenPolicy \<Rightarrow> PublishedIssuanceRule list" where
  "issuance_rules_of NewEnv policy =
     (let compileErrs = validateIssuanceCEL NewEnv (tps_IssuanceRules (tp_Spec policy));
          broken = map ie_ruleName compileErrs;
          targetNS = resolveTargetNamespaces (tps_TargetNamespaces (tp_Spec policy))
      in map (\<lambda>ir. \<lparr>pi_PolicyNamespace = [], pi_PolicyName = tp_Name policy, pi_RuleName = ai_Name ir, pi_CEL = ai_CEL ir,
                    pi_Message = ai_Message ir, pi_TargetNamespaces = targetNS\<rparr>)
           (filter (\<lambda>ir. ai_Name ir \<notin> set broken) (tps_IssuanceRules (tp_Spec policy))))"

definition rebuildIssuanceRules :: "cel_NewEnv \<Rightarrow> ('s, 'z) TokenPolicyReconciler_scheme \<Rightarrow> 's \<Rightarrow> error option \<times> 's" where
  "rebuildIssuanceRules NewEnv r s =
     (case kube_List (tpr_Client r) of
        Inl e \<Rightarrow> (Some (Wrapf ''listing TokenPolicies: %w'' [] e), s)
      | Inr policyList \<Rightarrow>
          (None, publish (tpr_IssuancePublisher r) (concat (map (issuance_rules_of NewEnv) policyList)) s))"

definition error_String :: "issuanceCELError \<Rightarrow> error" where
  "error_String e = Wrapf ''%s: %s'' [ie_ruleName e] (ie_err e)"

definition policy_conditions :: "cel_NewEnv \<Rightarrow> int \<Rightarrow> TokenPolicy \<Rightarrow> Condition list" where
  "policy_conditions NewEnv now policy =
     (let compileErrs = map error_String (validateIssuanceCEL NewEnv (tps_IssuanceRules (tp_Spec policy)))
      in if compileErrs \<noteq> [] then
           setCondition now ConditionReady ConditionFalse ''CELCompilationError''
             (Listing ''one or more issuance rules failed to compile: %v'' compileErrs)
             (setCondition now ConditionPolicyCompliant ConditionFalse ''CELCompilationError''
               (Listing ''CEL errors: %v'' compileErrs) (tp_Conditions policy))
         else
           setCondition now ConditionReady ConditionTrue ''Reconciled'' (Text ''issuance rules updated'')
             (setCondition now ConditionPolicyCompliant ConditionTrue ''Compliant''
               (Text ''all issuance rules compiled successfully'') (tp_Conditions policy)))"

definition TokenPolicy_Reconcile ::
    "cel_NewEnv \<Rightarrow> int \<Rightarrow> ('s, 'z) TokenPolicyReconciler_scheme \<Rightarrow> string \<times> string \<Rightarrow> 's \<Rightarrow>
       error option \<times> TokenPolicy option \<times> 's" where
  "TokenPolicy_Reconcile NewEnv now r req s =
     (case kube_Get (tpr_Client r) (fst req) (snd req) of
        ObjectNotFound _ \<Rightarrow> (let (e, s') = rebuildIssuanceRules NewEnv r s in (e, None, s'))
      | GetError e \<Rightarrow> (Some e, None, s)
      | Found policy \<Rightarrow>
          (let policy' = policy\<lparr>tp_Conditions := policy_conditions NewEnv now policy\<rparr>
           in case kube_StatusUpdate (tpr_Client r) policy' of
                Some e \<Rightarrow> (Some e, None, s)
              | None \<Rightarrow> (let (e, s') = rebuildIssuanceRules NewEnv r s in (e, Some policy', s'))))"

subsection \<open>Policy lemmas\<close>

lemma produces_iff:
  "produces tt f \<longleftrightarrow> f \<in> fst ` set (tts_TctxMapping (tt_Spec tt)) \<or> f \<in> te_Field ` set (tts_TctxEnrichments (tt_Spec tt))"
  by (force simp: produces_def list_ex_iff)

lemma mandatory_violations_Nil_iff:
  "mandatory_violations tt fs = [] \<longleftrightarrow> (\<forall>f\<in>set fs. f = ''purpose'' \<or> produces tt f)"
  by (induction fs) auto

lemma disallowed_violations_Nil_iff:
  "disallowed_violations es ds = [] \<longleftrightarrow> (\<forall>e\<in>set es. te_Enricher e \<notin> set ds)"
  by (induction es) (auto simp: filter_empty_conv)

lemma lifetime_violations_Nil_iff:
  "lifetime_violations tt p = [] \<longleftrightarrow>
     (\<forall>m d. pc_MaxTokenLifetime (tps_Constraints (tp_Spec p)) \<noteq> [] \<and> tts_TokenLifetime (tt_Spec tt) \<noteq> [] \<and>
        ParseDuration (pc_MaxTokenLifetime (tps_Constraints (tp_Spec p))) = Inr m \<and>
        ParseDuration (tts_TokenLifetime (tt_Spec tt)) = Inr d \<longrightarrow> d \<le> m)"
  by (auto simp: lifetime_violations_def Let_def split: sum.splits)

lemma set_ComputeProducedTctxFields:
  "mset (iter (map fst (tts_TctxMapping (tt_Spec tt)))) = mset (map fst (tts_TctxMapping (tt_Spec tt))) \<Longrightarrow>
     set (ComputeProducedTctxFields iter tt) = {f. f = ''purpose'' \<or> produces tt f}"
  by (drule mset_eq_imp_set_eq) (auto simp: ComputeProducedTctxFields_def produces_iff image_iff)

lemma ClampTokenLifetime_bound:
  assumes "ParseDuration maxl = Inr m" "ParseDuration (ClampTokenLifetime req maxl dflt) = Inr d" "maxl \<noteq> []"
  shows "d \<le> m"
  using assms by (auto simp: ClampTokenLifetime_def Let_def split: sum.splits if_splits)

lemma ClampTokenLifetime_nonempty: "dflt \<noteq> [] \<Longrightarrow> ClampTokenLifetime req maxl dflt \<noteq> []"
  by (auto simp: ClampTokenLifetime_def Let_def split: sum.splits)

lemma generation_rule_lifetime:
  "gr_TokenLifetime (generation_rule policies tt) =
     (case applicable policies (tt_Namespace tt) of
        None \<Rightarrow> (if tts_TokenLifetime (tt_Spec tt) = [] then ''15s'' else tts_TokenLifetime (tt_Spec tt))
      | Some p \<Rightarrow> ClampTokenLifetime (tts_TokenLifetime (tt_Spec tt)) (pc_MaxTokenLifetime (tps_Constraints (tp_Spec p))) ''15s'')"
  using ClampTokenLifetime_nonempty [of "''15s''"]
  by (auto simp: generation_rule_def effective_lifetime_def Let_def split: option.splits)

lemma find_Some_split: "find P xs = Some x \<Longrightarrow> P x \<and> x \<in> set xs"
  by (metis find_Some_iff nth_mem)

text \<open>The second loop of \<open>findApplicablePolicy\<close> finds nothing the first has not found.\<close>

lemma findApplicablePolicy_eq: "findApplicablePolicy policies ns = bindr policies id (\<lambda>ps. Ok (find (selects ns) ps))"
proof -
  have "find (\<lambda>policy. tps_TargetNamespaces (tp_Spec policy) = None) ps = None" if "find (selects ns) ps = None" for ps
    using that by (auto simp: find_None_iff selects_def split: option.splits)
  then show ?thesis
    by (cases policies) (auto simp: findApplicablePolicy_def split: option.splits)
qed

subsection \<open>Condition lemmas\<close>

lemma setCondition_types:
  "set (map cond_Type (setCondition now t st rs ms cs)) = insert t (set (map cond_Type cs))"
  by (induction cs) auto

lemma setCondition_distinct:
  "distinct (map cond_Type cs) \<Longrightarrow> distinct (map cond_Type (setCondition now t st rs ms cs))"
proof (induction cs)
  case (Cons c cs)
  then show ?case using setCondition_types [of now t st rs ms cs] by auto
qed simp

lemma setCondition_here:
  "\<exists>c\<in>set (setCondition now t st rs ms cs). cond_Type c = t \<and> cond_Status c = st \<and> cond_Reason c = rs \<and>
     cond_Message c = ms \<and> cond_LastTransitionTime c = now"
  by (induction cs) auto

lemma setCondition_others:
  "cond_Type c \<noteq> t \<Longrightarrow> c \<in> set (setCondition now t st rs ms cs) \<longleftrightarrow> c \<in> set cs"
  by (induction cs) auto

text \<open>Of a list with distinct types, the status of a type, if the list has it.\<close>

definition condition_status :: "Condition list \<Rightarrow> string \<Rightarrow> ConditionStatus option" where
  "condition_status cs t = map_option cond_Status (find (\<lambda>c. cond_Type c = t) cs)"

lemma condition_status_set [simp]:
  "condition_status (setCondition now t st rs ms cs) t' = (if t' = t then Some st else condition_status cs t')"
  by (induction cs) (auto simp: condition_status_def)

lemma condition_types_differ [simp]: "ConditionReady \<noteq> ConditionPolicyCompliant" "ConditionPolicyCompliant \<noteq> ConditionReady"
  by (simp_all add: ConditionReady_def ConditionPolicyCompliant_def)

subsection \<open>Compilation lemmas\<close>

text \<open>An expression is accepted when the environment compiles it to a boolean program.\<close>

definition cel_ok :: "cel_env res \<Rightarrow> string \<Rightarrow> bool" where
  "cel_ok env cel =
     (case env of
        Inl _ \<Rightarrow> False
      | Inr compile \<Rightarrow>
          cel \<noteq> [] \<and> (case compile cel of Inl _ \<Rightarrow> False | Inr ast \<Rightarrow> OutputType ast = BoolType \<and> is_Ok (Program ast)))"

lemma CompileIssuanceRules_Ok_iff:
  "is_Ok (CompileIssuanceRules NewEnv cfgs) \<longleftrightarrow> (\<forall>c\<in>set cfgs. cel_ok (newIssuanceCELEnv NewEnv) (ic_CEL c))"
proof -
  have "is_Ok (compile_issuance_rule env 0 c) \<longleftrightarrow> cel_ok (Inr env) (ic_CEL c)" for env c
    by (auto simp: compile_issuance_rule_def cel_ok_def bindr_Ok_iff is_Ok_iff split: sum.splits)
  then show ?thesis
    by (cases cfgs; cases "newIssuanceCELEnv NewEnv")
      (auto simp add: CompileIssuanceRules_def ic.compiles_iff cel_ok_def simp del: compile_issuance_loop.simps)
qed

lemma celverify_Compile_Ok_iff:
  "is_Ok (celverify_Compile NewEnv rs) \<longleftrightarrow> (\<forall>r\<in>set rs. cel_ok (celverify_NewEnv NewEnv) (cv_CEL r))"
proof -
  have "is_Ok (compile_verification_rule env 0 r) \<longleftrightarrow> cel_ok (Inr env) (cv_CEL r)" for env r
    by (auto simp: compile_verification_rule_def cel_ok_def bindr_Ok_iff is_Ok_iff split: sum.splits)
  then show ?thesis
    by (cases rs; cases "celverify_NewEnv NewEnv")
      (auto simp add: celverify_Compile_def cc.compiles_iff cel_ok_def simp del: compile_verification_loop.simps)
qed

lemma validateAndCompileCELRules_valid:
  "fst (validateAndCompileCELRules NewEnv rules) = filter (\<lambda>r. cel_ok (celverify_NewEnv NewEnv) (av_CEL r)) rules"
proof -
  have one: "(\<exists>ps. celverify_Compile NewEnv [\<lparr>cv_Name = n, cv_CEL = cel, cv_Message = m\<rparr>] = Inr ps) \<longleftrightarrow>
      cel_ok (celverify_NewEnv NewEnv) cel" for n cel m
    using celverify_Compile_Ok_iff [of NewEnv "[\<lparr>cv_Name = n, cv_CEL = cel, cv_Message = m\<rparr>]"] by (simp add: is_Ok_iff)
  have nil: "\<not> cel_ok env []" for env by (simp add: cel_ok_def split: sum.splits)
  have "fst (validate_rules_loop NewEnv rules) = filter (\<lambda>r. cel_ok (celverify_NewEnv NewEnv) (av_CEL r)) rules"
  proof (induction rules)
    case (Cons r rules)
    then show ?case using one [of "av_Name r" "av_CEL r" "av_Message r"] nil
      by (auto simp: Let_def split: prod.splits sum.splits)
  qed simp
  then show ?thesis by (simp add: validateAndCompileCELRules_def)
qed

lemma validateIssuanceCEL_names:
  "ie_ruleName ` set (validateIssuanceCEL NewEnv rules) =
     {ai_Name r | r. r \<in> set rules \<and> \<not> cel_ok (newIssuanceCELEnv NewEnv) (ai_CEL r)}"
proof -
  let ?ok = "\<lambda>r. cel_ok (newIssuanceCELEnv NewEnv) (ai_CEL r)"
  have all: "is_Ok (CompileIssuanceRules NewEnv (map issuance_config rules)) \<longleftrightarrow> (\<forall>r\<in>set rules. ?ok r)"
    by (simp add: CompileIssuanceRules_Ok_iff issuance_config_def)
  have one: "ie_ruleName ` set (issuance_cel_error NewEnv (issuance_config r)) = (if ?ok r then {} else {ai_Name r})" for r
    using CompileIssuanceRules_Ok_iff [of NewEnv "[issuance_config r]"]
    by (cases "CompileIssuanceRules NewEnv [issuance_config r]") (simp_all add: issuance_cel_error_def issuance_config_def)
  show ?thesis
  proof (cases "\<forall>r\<in>set rules. ?ok r")
    case True
    with all show ?thesis by (auto simp: validateIssuanceCEL_def Let_def is_Ok_iff)
  next
    case False
    with all obtain e where "CompileIssuanceRules NewEnv (map issuance_config rules) = Inl e"
      by (cases "CompileIssuanceRules NewEnv (map issuance_config rules)") auto
    with False have "ie_ruleName ` set (validateIssuanceCEL NewEnv rules) =
        (\<Union>r\<in>set rules. ie_ruleName ` set (issuance_cel_error NewEnv (issuance_config r)))"
      by (auto simp: validateIssuanceCEL_def Let_def image_UN)
    also have "\<dots> = {ai_Name r | r. r \<in> set rules \<and> \<not> ?ok r}" unfolding one by auto
    finally show ?thesis .
  qed
qed

text \<open>The rules published for a policy: those whose name no rule refused by the compiler has.\<close>

lemma issuance_rules_of_iff:
  "x \<in> set (issuance_rules_of NewEnv p) \<longleftrightarrow>
     (\<exists>ir\<in>set (tps_IssuanceRules (tp_Spec p)).
        (\<forall>ir'\<in>set (tps_IssuanceRules (tp_Spec p)).
           ai_Name ir' = ai_Name ir \<longrightarrow> cel_ok (newIssuanceCELEnv NewEnv) (ai_CEL ir')) \<and>
        x = \<lparr>pi_PolicyNamespace = [], pi_PolicyName = tp_Name p, pi_RuleName = ai_Name ir, pi_CEL = ai_CEL ir,
             pi_Message = ai_Message ir, pi_TargetNamespaces = resolveTargetNamespaces (tps_TargetNamespaces (tp_Spec p))\<rparr>)"
proof -
  have "ai_Name ir \<notin> ie_ruleName ` set (validateIssuanceCEL NewEnv (tps_IssuanceRules (tp_Spec p))) \<longleftrightarrow>
      (\<forall>ir'\<in>set (tps_IssuanceRules (tp_Spec p)).
         ai_Name ir' = ai_Name ir \<longrightarrow> cel_ok (newIssuanceCELEnv NewEnv) (ai_CEL ir'))" for ir
    unfolding validateIssuanceCEL_names by auto
  then show ?thesis by (auto simp: issuance_rules_of_def Let_def)
qed

subsection \<open>Reconciliation\<close>

lemmas reconcile_defs = TransactionType_Reconcile_def rebuildGenerationRules_def ServiceTokenRequirement_Reconcile_def
  rebuildVerificationRules_def TokenPolicy_Reconcile_def rebuildIssuanceRules_def

text \<open>
  C12. Compliance with a policy, on every branch: no violation is reported exactly when the requested lifetime, if both
  durations parse, is at most the policy's maximum, every mandatory context field is among the fields the status
  reports as produced, and no enrichment uses a disallowed enricher.
\<close>

theorem compliance_iff:
  assumes "mset (iter (map fst (tts_TctxMapping (tt_Spec tt)))) = mset (map fst (tts_TctxMapping (tt_Spec tt)))"
  shows "ValidateTransactionTypeAgainstPolicy tt (Some p) = [] \<longleftrightarrow>
     (\<forall>m d. pc_MaxTokenLifetime (tps_Constraints (tp_Spec p)) \<noteq> [] \<and> tts_TokenLifetime (tt_Spec tt) \<noteq> [] \<and>
        ParseDuration (pc_MaxTokenLifetime (tps_Constraints (tp_Spec p))) = Inr m \<and>
        ParseDuration (tts_TokenLifetime (tt_Spec tt)) = Inr d \<longrightarrow> d \<le> m) \<and>
     set (pc_MandatoryTctxFields (tps_Constraints (tp_Spec p))) \<subseteq> set (ComputeProducedTctxFields iter tt) \<and>
     te_Enricher ` set (tts_TctxEnrichments (tt_Spec tt)) \<inter> set (pc_DisallowedEnrichers (tps_Constraints (tp_Spec p))) = {}"
  unfolding set_ComputeProducedTctxFields [of iter tt, OF assms]
  by (auto simp: ValidateTransactionTypeAgainstPolicy_def lifetime_violations_Nil_iff mandatory_violations_Nil_iff
      disallowed_violations_Nil_iff)

lemma generation_rules_nth:
  "length (generation_rules policies n tts) = length tts"
  "i < length tts \<Longrightarrow> generation_rules policies n tts ! i = generation_rule (policies (n + i)) (tts ! i)"
  by (induction tts arbitrary: n i) (auto simp: nth_Cons split: nat.splits)

lemma generation_rules_names:
  "map (\<lambda>g. (gr_Namespace g, gr_Name g, gr_Scope g)) (generation_rules policies n tts) =
     map (\<lambda>t. (tt_Namespace t, tt_Name t, tts_Scope (tt_Spec t))) tts"
  by (induction tts arbitrary: n) (simp_all add: generation_rule_def Let_def)

text \<open>
  C16. What a successful rebuild publishes for transaction types: one rule per listed type, in order, under its own name,
  and the lifetime of a rule, when it parses as a duration, never exceeds the ceiling of the policy selected for its
  namespace in the listing of policies that was made for it.
\<close>

theorem published_lifetime_bounded:
  assumes "rebuildGenerationRules n r s = (None, s')" "ttr_RulePublisher r = Some update"
  shows "\<exists>tts rules. kube_List (ttr_Client r) = Inr tts \<and> s' = update rules s \<and>
     map (\<lambda>g. (gr_Namespace g, gr_Name g, gr_Scope g)) rules = map (\<lambda>t. (tt_Namespace t, tt_Name t, tts_Scope (tt_Spec t))) tts \<and>
     (\<forall>i<length rules. \<forall>ps p m d.
        ttr_policies r (n + i) = Inr ps \<and> find (selects (gr_Namespace (rules ! i))) ps = Some p \<and>
        pc_MaxTokenLifetime (tps_Constraints (tp_Spec p)) \<noteq> [] \<and>
        ParseDuration (pc_MaxTokenLifetime (tps_Constraints (tp_Spec p))) = Inr m \<and>
        ParseDuration (gr_TokenLifetime (rules ! i)) = Inr d \<longrightarrow> d \<le> m)"
proof -
  obtain tts where tts: "kube_List (ttr_Client r) = Inr tts"
    and s': "s' = update (generation_rules (ttr_policies r) n tts) s"
    using assms by (auto simp: rebuildGenerationRules_def publish_def split: sum.splits)
  have "d \<le> m" if "ttr_policies r k = Inr ps" "find (selects (tt_Namespace t)) ps = Some p"
      "pc_MaxTokenLifetime (tps_Constraints (tp_Spec p)) \<noteq> []"
      "ParseDuration (pc_MaxTokenLifetime (tps_Constraints (tp_Spec p))) = Inr m"
      "ParseDuration (gr_TokenLifetime (generation_rule (ttr_policies r k) t)) = Inr d" for k t ps p m d
    using that ClampTokenLifetime_bound by (simp add: generation_rule_lifetime applicable_def findApplicablePolicy_eq)
  moreover have "gr_Namespace (generation_rule pol t) = tt_Namespace t" for pol t by (simp add: generation_rule_def Let_def)
  ultimately show ?thesis using tts s'
    by (intro exI [of _ tts] exI [of _ "generation_rules (ttr_policies r) n tts"] conjI)
      (auto simp: generation_rules_nth generation_rules_names)
qed

text \<open>
  C15. A requirement's CEL rules reach the ext-auth servers only if they compile: every published verification rule
  carries exactly the expressions of its requirement that compile, in order, and together they compile.
\<close>

theorem published_cel_compiles:
  assumes "rebuildVerificationRules NewEnv r s = (None, s')" "strr_RulePublisher r = Some update"
  shows "\<exists>strs rules. kube_List (strr_Client r) = Inr strs \<and> s' = update rules s \<and>
     list_all2 (\<lambda>str v. (vr_Namespace v, vr_Name v) = (str_Namespace str, str_Name str) \<and>
       map cr_CEL (vr_CELRules v) =
         filter (cel_ok (celverify_NewEnv NewEnv)) (map av_CEL (vs_Rules (sts_Verification (str_Spec str)))) \<and>
       is_Ok (celverify_Compile NewEnv
         (map (\<lambda>c. \<lparr>cv_Name = cr_Name c, cv_CEL = cr_CEL c, cv_Message = cr_Message c\<rparr>) (vr_CELRules v)))) strs rules"
proof -
  obtain strs where strs: "kube_List (strr_Client r) = Inr strs"
    and s': "s' = update (map (verification_rule NewEnv) strs) s"
    using assms by (auto simp: rebuildVerificationRules_def publish_def split: sum.splits)
  have "is_Ok (celverify_Compile NewEnv
      (map (\<lambda>c. \<lparr>cv_Name = cr_Name c, cv_CEL = cr_CEL c, cv_Message = cr_Message c\<rparr>) (vr_CELRules (verification_rule NewEnv str))))" for str
    by (auto simp: celverify_Compile_Ok_iff verification_rule_def validateAndCompileCELRules_valid)
  moreover have "map cr_CEL (vr_CELRules (verification_rule NewEnv str)) =
      filter (cel_ok (celverify_NewEnv NewEnv)) (map av_CEL (vs_Rules (sts_Verification (str_Spec str))))" for str
    by (simp add: verification_rule_def validateAndCompileCELRules_valid filter_map comp_def)
  ultimately show ?thesis using strs s'
    by (intro exI [of _ strs] exI [of _ "map (verification_rule NewEnv) strs"] conjI)
      (simp_all add: list_all2_conv_all_nth verification_rule_def Let_def)
qed

text \<open>
  C32. Conditions: a reconcile that writes a transaction type or a policy keeps one condition per type, reports it as
  compliant exactly when nothing was found against it, and keeps the conditions of other types. A transaction type is
  reported ready even when it violates its policy.
\<close>

theorem reconcile_conditions:
  assumes "TransactionType_Reconcile iter now r req s = (e, Some tt', s')" "kube_Get (ttr_Client r) (fst req) (snd req) = Found tt"
    and "TokenPolicy_Reconcile NewEnv now q req t = (e', Some p', t')" "kube_Get (tpr_Client q) (fst req) (snd req) = Found p"
    and "distinct (map cond_Type (ttst_Conditions (tt_Status tt)))" "distinct (map cond_Type (tp_Conditions p))"
  shows "distinct (map cond_Type (ttst_Conditions (tt_Status tt'))) \<and> distinct (map cond_Type (tp_Conditions p')) \<and>
     condition_status (ttst_Conditions (tt_Status tt')) ConditionReady = Some ConditionTrue \<and>
     condition_status (ttst_Conditions (tt_Status tt')) ConditionPolicyCompliant =
       Some (if ValidateTransactionTypeAgainstPolicy tt (applicable (ttr_policies r 0) (tt_Namespace tt)) = []
             then ConditionTrue else ConditionFalse) \<and>
     (\<forall>ty\<in>{ConditionReady, ConditionPolicyCompliant}. condition_status (tp_Conditions p') ty =
       Some (if \<forall>ir\<in>set (tps_IssuanceRules (tp_Spec p)). cel_ok (newIssuanceCELEnv NewEnv) (ai_CEL ir)
             then ConditionTrue else ConditionFalse)) \<and>
     (\<forall>ty. ty \<noteq> ConditionReady \<and> ty \<noteq> ConditionPolicyCompliant \<longrightarrow>
        condition_status (ttst_Conditions (tt_Status tt')) ty = condition_status (ttst_Conditions (tt_Status tt)) ty \<and>
        condition_status (tp_Conditions p') ty = condition_status (tp_Conditions p) ty)"
proof -
  have tt': "tt_Status tt' = transaction_type_status iter now (applicable (ttr_policies r 0) (tt_Namespace tt)) tt"
    and p': "tp_Conditions p' = policy_conditions NewEnv now p"
    using assms(1-4) by (auto simp: reconcile_defs Let_def split: option.splits sum.splits)
  have "validateIssuanceCEL NewEnv (tps_IssuanceRules (tp_Spec p)) = [] \<longleftrightarrow>
      (\<forall>ir\<in>set (tps_IssuanceRules (tp_Spec p)). cel_ok (newIssuanceCELEnv NewEnv) (ai_CEL ir))"
    unfolding set_empty [symmetric] image_is_empty [of ie_ruleName, symmetric] validateIssuanceCEL_names by auto
  then show ?thesis unfolding tt' p' using assms(5,6)
    by (simp add: transaction_type_status_def policy_conditions_def Let_def setCondition_distinct)
qed

text \<open>
  C33. A reconcile that returns an error, be it of the lookup, of the status update or of the listing, publishes nothing:
  the rules in force stay as they were.
\<close>

theorem failed_reconcile_publishes_nothing:
  "(TransactionType_Reconcile iter now r req s = (Some e, o1, s') \<longrightarrow> s' = s) \<and>
   (ServiceTokenRequirement_Reconcile NewEnv now q req s = (Some e, o2, s') \<longrightarrow> s' = s) \<and>
   (TokenPolicy_Reconcile NewEnv now p req s = (Some e, o3, s') \<longrightarrow> s' = s)"
  by (auto simp: reconcile_defs Let_def split: get_result.splits option.splits sum.splits)

subsection \<open>A concrete cluster\<close>

text \<open>
  One transaction type asking for a minute, one policy allowing thirty seconds, and one requirement with a rule that
  compiles and one that does not: the environment knows the expression \<open>true\<close> only.
\<close>

definition demo_type :: TransactionType where
  "demo_type = \<lparr>tt_Namespace = ''shop'', tt_Name = ''buy'',
     tt_Spec = \<lparr>tts_Endpoint = \<lparr>ep_Path = ''/buy/{item}'', ep_Method = ''POST''\<rparr>, tts_Purpose = ''purchase'', tts_Scope = ''buy'',
       tts_TctxMapping = [(''item'', \<lparr>fm_Source = ''path'', fm_Field = ''item'', fm_Required = True\<rparr>)],
       tts_TctxEnrichments = [\<lparr>te_Field = ''risk'', te_Enricher = ''risk-score''\<rparr>], tts_RctxFields = [''src_addr''],
       tts_TokenLifetime = ''60s''\<rparr>,
     tt_Status = \<lparr>ttst_Conditions = [], ttst_ProducedTctxFields = [], ttst_EffectiveTokenLifetime = []\<rparr>\<rparr>"

definition demo_policy :: TokenPolicy where
  "demo_policy = \<lparr>tp_Name = ''base'',
     tp_Spec = \<lparr>tps_TargetNamespaces = None, tps_AuthorizedTransactionNamespaces = None, tps_AuthorizedRequesters = [],
       tps_Constraints = \<lparr>pc_MaxTokenLifetime = ''30s'', pc_MandatoryTctxFields = [''purpose'', ''item''],
         pc_MandatoryRctxFields = [], pc_DisallowedEnrichers = [''geo'']\<rparr>,
       tps_IssuanceRules = [\<lparr>ai_Name = ''all'', ai_CEL = ''true'', ai_Message = ''always''\<rparr>], tps_AccessEvaluationWebhook = None\<rparr>,
     tp_Conditions = []\<rparr>"

definition demo_requirement :: ServiceTokenRequirement where
  "demo_requirement = \<lparr>str_Namespace = ''shop'', str_Name = ''cart'',
     str_Spec = \<lparr>sts_ServiceRef = \<lparr>sr_Name = ''cart''\<rparr>,
       sts_Verification = \<lparr>vs_RequiredScope = ''buy'', vs_RequiredTctxFields = [''item''],
         vs_Rules = [\<lparr>av_Name = ''ok'', av_CEL = ''true'', av_Message = ''m''\<rparr>, \<lparr>av_Name = ''bad'', av_CEL = ''((('', av_Message = ''m''\<rparr>]\<rparr>,
       sts_ExcludedEndpoints = [\<lparr>ep_Path = ''/healthz'', ep_Method = ''*''\<rparr>], sts_AutoNarrow = False\<rparr>,
     str_Status = \<lparr>stst_Conditions = [], stst_ActiveVerificationRules = 0, stst_ExcludedEndpointCount = 0\<rparr>\<rparr>"

definition demo_NewEnv :: cel_NewEnv where
  "demo_NewEnv vars = Inr (\<lambda>src. if src = ''true'' then Inr \<lparr>OutputType = BoolType, Program = Inr (\<lambda>_. Inr (CelBool True))\<rparr>
     else Inl (LibError ''syntax error''))"

definition demo_kube :: "'o \<Rightarrow> 'o kube" where
  "demo_kube x = \<lparr>kube_Get = (\<lambda>_ _. Found x), kube_List = Inr [x], kube_StatusUpdate = (\<lambda>_. None)\<rparr>"

definition demo_ttr :: "GenerationRule list TransactionTypeReconciler" where
  "demo_ttr = \<lparr>ttr_Client = demo_kube demo_type, ttr_policies = (\<lambda>_. Inr [demo_policy]), ttr_RulePublisher = Some (\<lambda>rs _. rs)\<rparr>"

definition demo_strr :: "VerificationRule list ServiceTokenRequirementReconciler" where
  "demo_strr = \<lparr>strr_Client = demo_kube demo_requirement, strr_RulePublisher = Some (\<lambda>rs _. rs)\<rparr>"

definition demo_tpr :: "PublishedIssuanceRule list TokenPolicyReconciler" where
  "demo_tpr = \<lparr>tpr_Client = demo_kube demo_policy, tpr_IssuancePublisher = Some (\<lambda>rs _. rs)\<rparr>"

lemma demo_selects: "selects ''shop'' demo_policy"
  by (simp add: selects_def demo_policy_def)

lemma demo_durations: "ParseDuration ''30s'' = Inr 30000000000" "ParseDuration ''60s'' = Inr 60000000000"
  by (simp_all add: ParseDuration_def HasPrefix_def duration_part_def unit_of_def unit_char_def Let_def is_digit_def code_def)

theorem compliance_iff_witness:
  "ValidateTransactionTypeAgainstPolicy demo_type (Some demo_policy) \<noteq> [] \<and>
   set (pc_MandatoryTctxFields (tps_Constraints (tp_Spec demo_policy))) \<subseteq> set (ComputeProducedTctxFields rev demo_type)"
proof -
  have "mset (rev (map fst (tts_TctxMapping (tt_Spec demo_type)))) = mset (map fst (tts_TctxMapping (tt_Spec demo_type)))" by simp
  from compliance_iff [of rev demo_type demo_policy, OF this]
  show ?thesis using demo_durations
    by (auto simp: demo_type_def demo_policy_def ComputeProducedTctxFields_def)
qed

theorem published_lifetime_bounded_witness:
  "\<exists>g d. snd (rebuildGenerationRules 0 demo_ttr []) = [g] \<and> ParseDuration (gr_TokenLifetime g) = Inr d \<and> d \<le> 30000000000"
proof -
  have run: "rebuildGenerationRules 0 demo_ttr [] = (None, snd (rebuildGenerationRules 0 demo_ttr []))"
    by (simp add: rebuildGenerationRules_def demo_ttr_def demo_kube_def)
  have pub: "ttr_RulePublisher demo_ttr = Some (\<lambda>rs _. rs)" by (simp add: demo_ttr_def)
  obtain rules where rules: "snd (rebuildGenerationRules 0 demo_ttr []) = rules"
    and bound: "\<And>i ps p m d. i < length rules \<Longrightarrow> ttr_policies demo_ttr (0 + i) = Inr ps \<Longrightarrow>
      find (selects (gr_Namespace (rules ! i))) ps = Some p \<Longrightarrow>
      pc_MaxTokenLifetime (tps_Constraints (tp_Spec p)) \<noteq> [] \<Longrightarrow>
      ParseDuration (pc_MaxTokenLifetime (tps_Constraints (tp_Spec p))) = Inr m \<Longrightarrow>
      ParseDuration (gr_TokenLifetime (rules ! i)) = Inr d \<Longrightarrow> d \<le> m"
    using published_lifetime_bounded [OF run pub] by blast
  have shop: "gr_Namespace g = ''shop''" if "g \<in> set rules" for g
    using that unfolding rules [symmetric]
    by (simp add: rebuildGenerationRules_def demo_ttr_def demo_kube_def publish_def generation_rule_def Let_def demo_type_def)
  have demo: "ttr_policies demo_ttr i = Inr [demo_policy]" "find (selects ''shop'') [demo_policy] = Some demo_policy"
    "pc_MaxTokenLifetime (tps_Constraints (tp_Spec demo_policy)) = ''30s''"
    for i using demo_selects by (simp_all add: demo_ttr_def demo_policy_def)
  have le: "d \<le> 30000000000" if "rules = [g]" "ParseDuration (gr_TokenLifetime g) = Inr d" for g d
    using bound [of 0 "[demo_policy]" demo_policy 30000000000 d] that shop demo demo_durations by simp
  have "map gr_TokenLifetime rules = [''30s'']"
    using demo_selects demo_durations unfolding rules [symmetric]
    by (simp add: rebuildGenerationRules_def demo_ttr_def demo_kube_def publish_def generation_rule_lifetime applicable_def
        findApplicablePolicy_eq ClampTokenLifetime_def demo_type_def) (simp add: demo_policy_def)
  then obtain g where g: "rules = [g]" "gr_TokenLifetime g = ''30s''" by auto
  with le [of g] demo_durations(1) show ?thesis unfolding rules by auto
qed

theorem published_cel_compiles_witness:
  "map (\<lambda>v. map cr_CEL (vr_CELRules v)) (snd (rebuildVerificationRules demo_NewEnv demo_strr [])) = [[''true'']]"
proof -
  have run: "rebuildVerificationRules demo_NewEnv demo_strr [] = (None, snd (rebuildVerificationRules demo_NewEnv demo_strr []))"
    by (simp add: rebuildVerificationRules_def demo_strr_def demo_kube_def)
  have pub: "strr_RulePublisher demo_strr = Some (\<lambda>rs _. rs)" by (simp add: demo_strr_def)
  have "filter (cel_ok (celverify_NewEnv demo_NewEnv)) (map av_CEL (vs_Rules (sts_Verification (str_Spec demo_requirement)))) = [''true'']"
    by (simp add: demo_requirement_def cel_ok_def celverify_NewEnv_def demo_NewEnv_def)
  then show ?thesis using published_cel_compiles [OF run pub]
    by (auto simp: demo_strr_def demo_kube_def list_all2_Cons1)
qed

theorem reconcile_conditions_witness:
  "condition_status (ttst_Conditions (tt_Status (the (fst (snd (TransactionType_Reconcile id 0 demo_ttr (''shop'', ''buy'') [])))))) ConditionPolicyCompliant = Some ConditionFalse"
proof -
  obtain tt' s' where 1: "TransactionType_Reconcile id 0 demo_ttr (''shop'', ''buy'') [] = (None, Some tt', s')"
    by (simp add: TransactionType_Reconcile_def rebuildGenerationRules_def demo_ttr_def demo_kube_def)
  obtain p' t' where 2: "TokenPolicy_Reconcile demo_NewEnv 0 demo_tpr (''shop'', ''buy'') [] = (None, Some p', t')"
    by (simp add: TokenPolicy_Reconcile_def rebuildIssuanceRules_def demo_tpr_def demo_kube_def)
  have found: "kube_Get (ttr_Client demo_ttr) (fst (''shop'', ''buy'')) (snd (''shop'', ''buy'')) = Found demo_type"
    "kube_Get (tpr_Client demo_tpr) (fst (''shop'', ''buy'')) (snd (''shop'', ''buy'')) = Found demo_policy"
    by (simp_all add: demo_ttr_def demo_tpr_def demo_kube_def)
  have conds: "distinct (map cond_Type (ttst_Conditions (tt_Status demo_type)))" "distinct (map cond_Type (tp_Conditions demo_policy))"
    by (simp_all add: demo_type_def demo_policy_def)
  have "applicable (ttr_policies demo_ttr 0) (tt_Namespace demo_type) = Some demo_policy"
    using demo_selects by (simp add: applicable_def findApplicablePolicy_eq demo_ttr_def demo_type_def)
  moreover have "ValidateTransactionTypeAgainstPolicy demo_type (Some demo_policy) \<noteq> []"
    using demo_durations by (simp add: ValidateTransactionTypeAgainstPolicy_def lifetime_violations_def demo_type_def demo_policy_def)
  ultimately show ?thesis
    using reconcile_conditions [OF 1 found(1) 2 found(2) conds] 1 by simp
qed

theorem failed_reconcile_publishes_nothing_witness:
  "snd (snd (TransactionType_Reconcile id 0 (demo_ttr\<lparr>ttr_Client := (demo_kube demo_type)\<lparr>kube_StatusUpdate := \<lambda>_. Some (LibError ''conflict'')\<rparr>\<rparr>)
     (''shop'', ''buy'') [])) = []"
proof -
  let ?r = "demo_ttr\<lparr>ttr_Client := (demo_kube demo_type)\<lparr>kube_StatusUpdate := \<lambda>_. Some (LibError ''conflict'')\<rparr>\<rparr>"
  obtain o1 s' where run: "TransactionType_Reconcile id 0 ?r (''shop'', ''buy'') [] = (Some (LibError ''conflict''), o1, s')"
    by (simp add: TransactionType_Reconcile_def demo_ttr_def demo_kube_def)
  then have "s' = []" using failed_reconcile_publishes_nothing [of id 0 ?r "(''shop'', ''buy'')" "[]"] by blast
  with run show ?thesis by simp
qed

end
