(* ===== verification/JsonRoundtrip.thy ===== *)
theory JsonRoundtrip
  imports Json
begin

text \<open>
  Correctness of the JSON model: every string literal, number and value that \<open>json_Marshal\<close> prints is read
  back by the scanner, and the scanner's fuel is never the reason for a refusal.
\<close>

subsection \<open>Values that survive a round trip\<close>

lemma utf8_width_le: "utf8_width s \<le> length s"
  by (auto simp: utf8_width_def split: list.splits)

function utf8_valid :: "string \<Rightarrow> bool" where
  "utf8_valid s =
     (if s = [] then True
      else if utf8_width s = 0 then False
      else utf8_valid (drop (utf8_width s) s))"
  by pat_completeness auto
termination
  by (relation "measure length") auto

declare utf8_valid.simps [simp del]

text \<open>
  \<open>json_clean\<close>: text made of UTF-8 and whole numbers below \<open>2\<^sup>5\<^sup>3\<close>. \<open>json_sorted\<close>: every object is a
  map, that is sorted by key, as the values decoded into \<open>any\<close> are.
\<close>

fun json_clean :: "json \<Rightarrow> bool" where
  "json_clean (JNum q) \<longleftrightarrow> of_int \<lfloor>q\<rfloor> = q \<and> \<bar>q\<bar> < 2 ^ 53"
| "json_clean (JStr s) \<longleftrightarrow> utf8_valid s"
| "json_clean (JArr vs) \<longleftrightarrow> list_all json_clean vs"
| "json_clean (JObj ms) \<longleftrightarrow> list_all (\<lambda>(k, v). utf8_valid k \<and> json_clean v) ms"
| "json_clean _ \<longleftrightarrow> True"

fun json_sorted :: "json \<Rightarrow> bool" where
  "json_sorted (JArr vs) \<longleftrightarrow> list_all json_sorted vs"
| "json_sorted (JObj ms) \<longleftrightarrow> mwf ms \<and> list_all (\<lambda>(k, v). json_sorted v) ms"
| "json_sorted _ \<longleftrightarrow> True"

subsection \<open>Strings\<close>

lemma utf8_width_ascii: "code c < 128 \<Longrightarrow> utf8_width (c # s) = 1"
  by (simp add: utf8_width_def)

lemma utf8_valid_ascii: "code c < 128 \<Longrightarrow> utf8_valid (c # s) \<longleftrightarrow> utf8_valid s"
  by (subst utf8_valid.simps) (simp add: utf8_width_ascii)

lemma utf8_valid_Nil [simp]: "utf8_valid []"
  by (subst utf8_valid.simps) simp

lemma ascii_utf8_valid: "\<forall>c\<in>set s. code c < 128 \<Longrightarrow> utf8_valid s"
  by (induction s) (auto simp: utf8_valid_ascii)

lemma utf8_width_take_eq:
  assumes "utf8_width s = w" "w \<noteq> 0"
  shows "utf8_width (take w s @ t) = w"
proof (cases s)
  case (Cons a s1)
  show ?thesis
  proof (cases "code a < 0x80 \<or> s1 = []")
    case True
    then show ?thesis using assms Cons by (auto simp: utf8_width_def split: if_split_asm)
  next
    case False
    then obtain b s2 where s1: "s1 = b # s2" by (cases s1) auto
    show ?thesis
    proof (cases "between 0xC2 0xDF a \<and> cont b \<or> s2 = []")
      case True
      then show ?thesis
        using assms Cons s1 False by (auto simp: utf8_width_def split: if_split_asm)
    next
      case no2: False
      then obtain c s3 where "s2 = c # s3" by (cases s2) auto
      then show ?thesis
        using assms Cons s1 False no2
        by (cases s3) (simp_all add: utf8_width_def split: if_split_asm)
    qed
  qed
qed (use assms in \<open>simp add: utf8_width_def\<close>)

lemma utf8_width_take:
  "utf8_width s \<noteq> 0 \<Longrightarrow> utf8_width (take (utf8_width s) s @ t) = utf8_width s"
  by (simp add: utf8_width_take_eq)

lemma unhex_hex_digit [simp]: "n < 16 \<Longrightarrow> unhex (hex_digit n) = Some n"
  by (auto simp: unhex_def hex_digit_def code_def)

lemma hex4_u_escape:
  "u < 65536 \<Longrightarrow> hex4 (drop 2 (u_escape u) @ t) = Some (u, t)"
proof -
  assume u: "u < 65536"
  have "u div 256 div 16 = u div 4096" "u div 16 div 16 = u div 256"
    by (simp_all flip: div_mult2_eq)
  then have "u div 4096 * 16 + u div 256 mod 16 = u div 256" "u div 256 * 16 + u div 16 mod 16 = u div 16"
    using div_mult_mod_eq [of "u div 256" 16] div_mult_mod_eq [of "u div 16" 16] by simp_all
  then have "((u div 4096 * 16 + u div 256 mod 16) * 16 + u div 16 mod 16) * 16 + u mod 16 = u"
    by simp
  moreover have "u div 4096 < 16" using u by (simp add: less_mult_imp_div_less)
  ultimately show ?thesis by (simp add: hex4_def u_escape_def)
qed

lemma string_item_u_escape:
  assumes "u < 0xD800 \<or> 0xE000 \<le> u" "u < 65536"
  shows "string_item (u_escape u @ t) = Some (utf8_encode u, t)"
proof -
  have "u_escape u @ t = CHR 0x5C # CHR ''u'' # (drop 2 (u_escape u) @ t)"
    by (simp add: u_escape_def)
  moreover have "unicode_escape (drop 2 (u_escape u) @ t) = Some (utf8_encode u, t)"
    using assms by (auto simp: unicode_escape_def hex4_u_escape)
  ultimately show ?thesis by (simp only:) (simp add: string_item_def)
qed

lemma string_item_quote_ascii:
  assumes "code c < 128"
  shows "string_item (quote_ascii c @ t) = Some ([c], t)"
proof (cases "code c < 0x20 \<or> c = CHR ''<'' \<or> c = CHR ''>'' \<or> c = CHR ''&''")
  case True
  then have "string_item (u_escape (code c) @ t) = Some ([c], t)"
    using assms string_item_u_escape [of "code c" t] by (auto simp: utf8_encode_def)
  moreover have "string_item ([CHR 0x5C, CHR ''b''] @ t) = Some ([CHR 0x08], t)"
    "string_item ([CHR 0x5C, CHR ''f''] @ t) = Some ([CHR 0x0C], t)"
    "string_item ([CHR 0x5C, CHR ''n''] @ t) = Some ([CHR 0x0A], t)"
    "string_item ([CHR 0x5C, CHR ''r''] @ t) = Some ([CHR 0x0D], t)"
    "string_item ([CHR 0x5C, CHR ''t''] @ t) = Some ([CHR 0x09], t)"
    by (simp_all add: string_item_def simple_escape_def)
  moreover have "c \<noteq> CHR 0x22" "c \<noteq> CHR 0x5C" using True by (auto simp: code_def)
  moreover have "code c = 8 \<Longrightarrow> c = CHR 0x08" "code c = 12 \<Longrightarrow> c = CHR 0x0C" "code c = 10 \<Longrightarrow> c = CHR 0x0A"
    "code c = 13 \<Longrightarrow> c = CHR 0x0D" "code c = 9 \<Longrightarrow> c = CHR 0x09"
    by (simp_all add: code_def flip: code_inj)
  ultimately show ?thesis using True by (auto simp: quote_ascii_def)
next
  case False
  then show ?thesis
    using assms by (auto simp: quote_ascii_def string_item_def simple_escape_def utf8_width_ascii)
qed

lemma quote_ascii_head: "\<exists>x r. quote_ascii c = x # r \<and> x \<noteq> CHR 0x22"
  by (auto simp: quote_ascii_def u_escape_def)

lemma string_rest_item:
  "string_item s = Some (x, r) \<Longrightarrow> s \<noteq> [] \<Longrightarrow> hd s \<noteq> CHR 0x22 \<Longrightarrow>
     string_rest s = map_option (\<lambda>(y, r'). (x @ y, r')) (string_rest r)"
  by (subst string_rest.simps) (auto split: list.splits)

lemma string_item_multi:
  assumes "utf8_width s \<noteq> 0" "s = c # s'" "code c \<ge> 128"
  shows "string_item (take (utf8_width s) s @ t) = Some (take (utf8_width s) s, t)"
proof -
  obtain r where r: "take (utf8_width s) s = c # r" using assms(1,2) by (cases "utf8_width s") auto
  have "utf8_width (c # r @ t) = utf8_width s" using utf8_width_take [OF assms(1), of t] r by simp
  moreover have "utf8_width s = Suc (length r)"
    using arg_cong [OF r, of length] utf8_width_le [of s] by simp
  moreover have "c \<noteq> CHR 0x5C" using assms(3) by (auto simp: code_def)
  ultimately show ?thesis using assms(3) r by (simp add: string_item_def)
qed

lemma take3_Cons: "take 3 s = [a, b, c] \<Longrightarrow> \<exists>r. s = a # b # c # r"
  by (metis append_Cons append_Nil append_take_drop_id)

lemma separators:
  "utf8_encode 0x2028 = [char_of (0xE2::nat), char_of (0x80::nat), char_of (0xA8::nat)]"
  "utf8_encode 0x2029 = [char_of (0xE2::nat), char_of (0x80::nat), char_of (0xA9::nat)]"
  by (simp_all add: utf8_encode_def)

lemma take3_width:
  assumes "take 3 s = utf8_encode 0x2028 \<or> take 3 s = utf8_encode 0x2029"
  shows "utf8_width s = 3"
proof -
  have "utf8_width (char_of (0xE2::nat) # char_of (0x80::nat) # char_of x # r) = 3"
    if "x = 0xA8 \<or> x = (0xA9::nat)" for x r
    using that by (auto simp: utf8_width_def between_def cont_def)
  then show ?thesis using assms take3_Cons [of s] unfolding separators by metis
qed

lemma utf8_valid_step:
  "s \<noteq> [] \<Longrightarrow> utf8_valid s \<longleftrightarrow> utf8_width s \<noteq> 0 \<and> utf8_valid (drop (utf8_width s) s)"
  by (subst utf8_valid.simps) simp

lemma string_rest_quote:
  "utf8_valid s \<Longrightarrow> string_rest (quote_body s @ CHR 0x22 # r) = Some (s, r)"
proof (induction s rule: quote_body.induct)
  case (1 s)
  show ?case
  proof (cases s)
    case Nil
    then show ?thesis by (subst quote_body.simps, subst string_rest.simps) simp
  next
    case (Cons c s')
    note IH = "1.IH"
    show ?thesis
    proof (cases "code c < 0x80")
      case True
      have "string_rest (quote_body s' @ CHR 0x22 # r) = Some (s', r)"
        using IH(1) [OF Cons True] "1.prems" Cons True by (simp add: utf8_valid_ascii)
      moreover obtain x q where "quote_ascii c = x # q" "x \<noteq> CHR 0x22"
        using quote_ascii_head by blast
      ultimately show ?thesis
        using string_rest_item [OF string_item_quote_ascii [OF True]] Cons True
        by (subst quote_body.simps) simp
    next
      case False
      have w: "utf8_width s \<noteq> 0" and v: "utf8_valid (drop (utf8_width s) s)"
        using "1.prems" Cons utf8_valid_step [of s] by auto
      let ?e = "if take 3 s = utf8_encode 0x2028 then u_escape 0x2028
                else if take 3 s = utf8_encode 0x2029 then u_escape 0x2029
                else take (utf8_width s) s"
      have q: "quote_body s = ?e @ quote_body (drop (utf8_width s) s)"
        using Cons False w take3_width by (subst quote_body.simps) auto
      have rest: "string_rest (quote_body (drop (utf8_width s) s) @ CHR 0x22 # r)
                    = Some (drop (utf8_width s) s, r)"
      proof (cases "take 3 s = utf8_encode 0x2028 \<or> take 3 s = utf8_encode 0x2029")
        case True
        then have "utf8_width s = 3" by (rule take3_width)
        then show ?thesis
          using IH(3,4) [OF Cons False w] v True
          by (cases "take 3 s = utf8_encode 0x2028") simp_all
      next
        case other: False
        then show ?thesis using IH(5) [OF Cons False w] v by auto
      qed
      have e: "string_item (?e @ t) = Some (take (utf8_width s) s, t)" for t
        using string_item_u_escape [of "0x2028"] string_item_u_escape [of "0x2029"] take3_width [of s]
          string_item_multi [OF w Cons] False by (simp add: separators split: if_split)
      have "c \<noteq> CHR 0x22" using False by (auto simp: code_def)
      then have hd: "?e \<noteq> []" "hd ?e \<noteq> CHR 0x22"
        using w Cons by (cases "utf8_width s"; simp add: u_escape_def split: if_split)+
      show ?thesis
        unfolding q append_assoc using string_rest_item [OF e] hd rest by (simp add: hd_append)
    qed
  qed
qed

subsection \<open>Numbers\<close>

lemma round_half_even_int [simp]: "round_half_even (of_int i) = i"
  by (simp add: round_half_even_def)

lemma pow2_nonpos: "e \<le> 0 \<Longrightarrow> pow2 e = 1 / 2 ^ nat (- e)"
  by (cases "e = 0") (auto simp: pow2_def)

lemma bit_exponent_nat:
  assumes "0 < n"
  shows "bit_exponent (of_nat n) = int (floorlog 2 n) - 1"
proof -
  have "quotient_of (of_nat n) = (int n, 1)"
    using quotient_of_int [of "int n"] by (simp add: Rat.of_int_def)
  moreover have "floorlog 2 1 = 1" by (simp add: floorlog_def)
  moreover have "pow2 (int (floorlog 2 n) - 1) \<le> of_nat n"
  proof -
    have b: "2 ^ (floorlog 2 n - 1) \<le> n" using floorlog_bounds [of n 2] assms by simp
    have "0 < floorlog 2 n" using assms by (simp add: floorlog_def)
    then have "pow2 (int (floorlog 2 n) - 1) = of_nat (2 ^ (floorlog 2 n - 1))"
      by (simp add: pow2_def nat_diff_distrib)
    also have "\<dots> \<le> of_nat n" using b by (simp only: of_nat_le_iff)
    finally show ?thesis .
  qed
  ultimately show ?thesis by (simp add: bit_exponent_def)
qed

lemma float64_of_int:
  assumes "\<bar>i\<bar> < 2 ^ 53"
  shows "float64_of (of_int i) = Some (of_int i)"
proof (cases "i = 0")
  case False
  define n where "n = nat \<bar>i\<bar>"
  have n: "0 < n" "n < 2 ^ 53" and abs: "\<bar>of_int i :: rat\<bar> = of_nat n"
    using assms False by (auto simp: n_def nat_less_iff)
  have "floorlog 2 n \<le> 53" using n(2) by (simp add: floorlog_le_iff)
  moreover have "0 < floorlog 2 n" using n(1) by (simp add: floorlog_def)
  ultimately obtain e where e: "e \<le> 0" "max (bit_exponent (of_nat n) - 52) (- 1074) = e"
    using bit_exponent_nat [OF n(1)] by auto
  let ?k = "nat (- e)"
  have "of_nat n / pow2 e = of_int (int n * 2 ^ ?k)" using e(1) by (simp add: pow2_nonpos)
  then have "round_half_even (of_nat n / pow2 e) = int n * 2 ^ ?k" by (simp only: round_half_even_int)
  then have v: "of_int (round_half_even (of_nat n / pow2 e)) * pow2 e = of_nat n"
    using e(1) by (simp add: pow2_nonpos)
  have "(of_nat n :: rat) < 2 ^ 53"
    using n(2) by (metis of_nat_less_iff of_nat_numeral of_nat_power)
  also have "(2 :: rat) ^ 53 \<le> 2 ^ 1024" by (rule power_increasing) auto
  finally have "\<not> (of_nat n :: rat) \<ge> 2 ^ 1024" by simp
  moreover have "sgn (of_int i :: rat) * of_nat n = of_int i"
    using abs by (metis mult_sgn_abs mult.commute)
  ultimately show ?thesis
    using False abs e(2) v by (simp add: float64_of_def Let_def)
qed (simp add: float64_of_def)

lemma string_of_nat_digits: "c \<in> set (string_of_nat n) \<Longrightarrow> is_digit c"
proof (induction n rule: string_of_nat.induct)
  case (1 n)
  then show ?case
    by (subst (asm) string_of_nat.simps) (auto simp: is_digit_def split: if_splits)
qed

lemma digits_val_snoc: "digits_val (ds @ [c]) = digits_val ds * 10 + (code c - 48)"
  by (simp add: digits_val_def)

lemma digits_val_string_of_nat [simp]: "digits_val (string_of_nat n) = n"
proof (induction n rule: string_of_nat.induct)
  case (1 n)
  show ?case
  proof (cases "n < 10")
    case True
    then show ?thesis by (subst string_of_nat.simps) (simp add: digits_val_def)
  next
    case False
    then show ?thesis
      using "1" by (subst string_of_nat.simps) (simp add: digits_val_snoc)
  qed
qed

lemma string_of_nat_nonempty [simp]: "string_of_nat n \<noteq> []"
  by (subst string_of_nat.simps) simp

lemma string_of_nat_hd: "0 < n \<Longrightarrow> hd (string_of_nat n) \<noteq> CHR ''0''"
proof (induction n rule: string_of_nat.induct)
  case (1 n)
  show ?case
  proof (cases "n < 10")
    case True
    then show ?thesis
      using "1.prems" by (subst string_of_nat.simps) (simp add: code_def flip: code_inj)
  next
    case False
    then show ?thesis
      using "1.IH" by (subst string_of_nat.simps) (simp add: hd_append)
  qed
qed

lemma string_of_nat_0: "string_of_nat 0 = ''0''"
  by (subst string_of_nat.simps) (simp flip: code_inj add: code_def)

text \<open>What may follow a number: nothing, or a character that cannot continue it.\<close>

definition ends_number :: "string \<Rightarrow> bool" where
  "ends_number r \<longleftrightarrow>
     r = [] \<or> \<not> is_digit (hd r) \<and> hd r \<noteq> CHR ''.'' \<and> hd r \<noteq> CHR ''e'' \<and> hd r \<noteq> CHR ''E''"

lemma take_digits_string_of_nat:
  "ends_number r \<Longrightarrow> take_digits (string_of_nat n @ r) = (string_of_nat n, r)"
proof -
  assume r: "ends_number r"
  have "takeWhile is_digit (string_of_nat n @ r) = string_of_nat n @ takeWhile is_digit r"
    "dropWhile is_digit (string_of_nat n @ r) = dropWhile is_digit r"
    using string_of_nat_digits by (auto simp: takeWhile_append2 dropWhile_append2)
  then show ?thesis using r by (cases r) (auto simp: take_digits_def ends_number_def)
qed

lemma scan_int_string_of_nat: "ends_number r \<Longrightarrow> scan_int (string_of_nat n @ r) = Some (n, r)"
proof -
  assume r: "ends_number r"
  obtain d ds where d: "string_of_nat n = d # ds" by (meson string_of_nat_nonempty list.exhaust)
  show ?thesis
  proof (cases "n = 0")
    case True
    then show ?thesis using take_digits_string_of_nat [OF r, of n] by (simp add: scan_int_def string_of_nat_0)
  next
    case False
    then have "d \<noteq> CHR ''0''" using string_of_nat_hd [of n] d by simp
    moreover have "digits_val (d # ds) = n" using digits_val_string_of_nat [of n] d by simp
    ultimately show ?thesis
      using take_digits_string_of_nat [OF r, of n] d by (simp add: scan_int_def)
  qed
qed

lemma scan_number_int:
  assumes "\<bar>i\<bar> < 2 ^ 53" "ends_number r"
  shows "scan_number (string_of_int i @ r) = Some (of_int i, r)"
proof -
  have tail: "scan_frac r = Some (0, r)" "scan_exp r = Some (0, r)"
    using assms(2) by (auto simp: scan_frac_def scan_exp_def ends_number_def split: list.splits)
  obtain d ds where d: "string_of_nat (nat i) = d # ds" by (meson string_of_nat_nonempty list.exhaust)
  then have "is_digit d" using string_of_nat_digits [of d "nat i"] by simp
  then have "d \<noteq> CHR ''-''" by (auto simp: is_digit_def code_def)
  moreover have "scan_int (d # ds @ r) = Some (nat i, r)"
    using scan_int_string_of_nat [OF assms(2), of "nat i"] d by simp
  ultimately show ?thesis
    using scan_int_string_of_nat [OF assms(2)] tail float64_of_int [OF assms(1)] d
    by (auto simp: scan_number_def string_of_int_def Let_def pow10_def)
qed

subsection \<open>Fuel\<close>

lemma string_rest_shorter: "string_rest s = Some (x, r) \<Longrightarrow> length r < length s"
proof (induction s arbitrary: x rule: string_rest.induct)
  case (1 s)
  then show ?case
    by (subst (asm) (2) string_rest.simps)
      (fastforce split: list.splits if_splits option.splits dest: string_item_shorter)
qed

lemma scan_number_shorter: "scan_number s = Some (q, r) \<Longrightarrow> length r < length s"
proof -
  have drop: "length (dropWhile is_digit t) \<le> length t" for t by (rule length_dropWhile_le)
  have drop_tl: "length (dropWhile is_digit (tl t)) \<le> length t" for t
    using drop [of "tl t"] by (cases t) auto
  have i: "scan_int t = Some (n, t') \<Longrightarrow> length t' < length t" for t t' n
    using length_append [of "takeWhile is_digit t" "dropWhile is_digit t"]
    by (auto simp: scan_int_def take_digits_def split: list.splits if_splits)
  have f: "scan_frac t = Some (n, t') \<Longrightarrow> length t' \<le> length t" for t t' n
    using drop by (auto simp: scan_frac_def take_digits_def split: list.splits if_splits intro: le_SucI)
  have e: "scan_exp t = Some (n, t') \<Longrightarrow> length t' \<le> length t" for t t' n
    using drop drop_tl
    by (auto simp: scan_exp_def take_digits_def Let_def split: list.splits if_splits intro: le_SucI)
  assume "scan_number s = Some (q, r)"
  then show ?thesis
    by (auto simp: scan_number_def Let_def split: option.splits prod.splits if_splits
        dest!: i f e)
qed

lemma skip_ws_le: "length (skip_ws s) \<le> length s"
  by (simp add: skip_ws_def length_dropWhile_le)

lemma skip_ws_Cons_le: "skip_ws s = c # r \<Longrightarrow> length r < length s"
  using skip_ws_le [of s] by simp

declare json_value.simps(2) [simp del] json_elements.simps(2) [simp del] json_members.simps(2) [simp del]

lemma json_shorter_all:
  "(\<forall>s v r. json_value n s = Some (v, r) \<longrightarrow> length r < length s) \<and>
   (\<forall>s vs r. json_elements n s = Some (vs, r) \<longrightarrow> length r < length s) \<and>
   (\<forall>s ms r. json_members n s = Some (ms, r) \<longrightarrow> length r < length s)"
proof (induction n)
  case (Suc n)
  have ws: "length (skip_ws t) - Suc 0 < Suc (length t)" for t
    using skip_ws_le [of t] by simp
  have v: "json_value n t = Some (v, r) \<Longrightarrow> length r < length t" for t v r using Suc by blast
  have e: "json_elements n (skip_ws t) = Some (vs, r) \<Longrightarrow> length r < Suc (length t)" for t vs r
    using Suc skip_ws_le [of t] by (meson less_SucI order.strict_trans2)
  have m: "json_members n (skip_ws t) = Some (ms, r) \<Longrightarrow> length r < Suc (length t)" for t ms r
    using Suc skip_ws_le [of t] by (meson less_SucI order.strict_trans2)
  have "json_value (Suc n) s = Some (v, r) \<Longrightarrow> length r < length s" for s v r
    unfolding json_value.simps(2)
    by (cases s) (auto simp: literal_def Let_def ws split: if_splits
        dest!: e m string_rest_shorter scan_number_shorter)
  moreover have "json_elements (Suc n) s = Some (vs, r) \<Longrightarrow> length r < length s" for s vs r
    unfolding json_elements.simps(2)
    by (fastforce split: option.splits prod.splits list.splits if_splits
        dest!: e v skip_ws_Cons_le)
  moreover have "json_members (Suc n) s = Some (ms, r) \<Longrightarrow> length r < length s" for s ms r
    unfolding json_members.simps(2)
    by (fastforce split: option.splits prod.splits list.splits if_splits
        dest!: m v skip_ws_Cons_le string_rest_shorter
        dest: order.strict_trans2 [OF _ skip_ws_le])
  ultimately show ?case by blast
qed simp

lemmas json_value_shorter = json_shorter_all [THEN conjunct1, rule_format]

lemma json_fuel_all:
  "(\<forall>s. 2 * length s \<le> n \<longrightarrow> json_value (Suc n) s = json_value n s) \<and>
   (\<forall>s. 2 * length s < n \<longrightarrow> json_elements (Suc n) s = json_elements n s) \<and>
   (\<forall>s. 2 * length s < n \<longrightarrow> json_members (Suc n) s = json_members n s)"
proof (induction n)
  case (Suc n)
  have v: "2 * length t \<le> n \<Longrightarrow> json_value (Suc n) t = json_value n t" for t using Suc by blast
  have e: "2 * length t < n \<Longrightarrow> json_elements (Suc n) (skip_ws t) = json_elements n (skip_ws t)" for t
    using Suc skip_ws_le [of t] by (meson mult_le_mono2 order.strict_trans1)
  have m: "2 * length t < n \<Longrightarrow> json_members (Suc n) (skip_ws t) = json_members n (skip_ws t)" for t
    using Suc skip_ws_le [of t] by (meson mult_le_mono2 order.strict_trans1)
  have "json_value (Suc (Suc n)) s = json_value (Suc n) s" if "2 * length s \<le> Suc n" for s
  proof (cases s)
    case (Cons c t)
    then have "2 * length t < n" using that by simp
    note eqs = e [OF this] m [OF this]
    show ?thesis unfolding json_value.simps(2) Cons by (simp only: list.case Let_def eqs)
  qed (simp add: json_value.simps(2))
  moreover have "json_elements (Suc (Suc n)) s = json_elements (Suc n) s" if "2 * length s < Suc n" for s
  proof -
    have "json_elements (Suc n) (skip_ws r') = json_elements n (skip_ws r')"
      if "json_value n s = Some (x, r)" "skip_ws r = d # r'" for x r d r'
      using json_value_shorter [OF that(1)] skip_ws_Cons_le [OF that(2)] \<open>2 * length s < Suc n\<close>
      by (intro e) linarith
    then show ?thesis
      using that v [of s] unfolding json_elements.simps(2)
      by (auto split: option.splits prod.splits list.splits)
  qed
  moreover have "json_members (Suc (Suc n)) s = json_members (Suc n) s" if "2 * length s < Suc n" for s
  proof (cases s)
    case (Cons q s')
    have "json_value (Suc n) (skip_ws r1) = json_value n (skip_ws r1)"
      and "json_value n (skip_ws r1) = Some (x, r2) \<Longrightarrow> skip_ws r2 = d' # r3 \<Longrightarrow>
        json_members (Suc n) (skip_ws r3) = json_members n (skip_ws r3)"
      if a: "string_rest s' = Some (k, r)" "skip_ws r = d # r1" for k r d r1 x r2 d' r3
    proof -
      have l: "2 * length r1 < n"
        using string_rest_shorter [OF a(1)] skip_ws_Cons_le [OF a(2)] Cons \<open>2 * length s < Suc n\<close> by simp
      then show "json_value (Suc n) (skip_ws r1) = json_value n (skip_ws r1)"
        using skip_ws_le [of r1] by (intro v) linarith
      assume "json_value n (skip_ws r1) = Some (x, r2)" "skip_ws r2 = d' # r3"
      then show "json_members (Suc n) (skip_ws r3) = json_members n (skip_ws r3)"
        using json_value_shorter skip_ws_Cons_le skip_ws_le [of r1] l by (intro m) fastforce
    qed
    then show ?thesis
      using Cons unfolding json_members.simps(2)
      by (auto split: option.splits prod.splits list.splits)
  qed (simp add: json_members.simps(2))
  ultimately show ?case by blast
qed (simp add: json_value.simps(2))

text \<open>More fuel than \<open>json_fuel\<close> gives the same result.\<close>

lemma json_fuel_enough: "json_fuel s \<le> n \<Longrightarrow> json_value n (skip_ws s) = json_value (json_fuel s) (skip_ws s)"
proof (induction n rule: dec_induct)
  case (step n)
  have "2 * length (skip_ws s) \<le> n" using step(1) skip_ws_le [of s] by (simp add: json_fuel_def)
  then show ?case using json_fuel_all [of n] step(3) by simp
qed simp

subsection \<open>Values\<close>

definition reads_back :: "json \<Rightarrow> bool" where
  "reads_back v \<longleftrightarrow>
     (\<forall>n r. 2 * length (json_Marshal v) \<le> n \<longrightarrow> ends_number r \<longrightarrow>
        json_value n (json_Marshal v @ r) = Some (v, r))"

lemma reads_backI:
  assumes "\<And>n r. ends_number r \<Longrightarrow> json_value (Suc n) (json_Marshal v @ r) = Some (v, r)"
    "json_Marshal v \<noteq> []"
  shows "reads_back v"
  unfolding reads_back_def
proof (intro allI impI)
  fix n r
  assume "2 * length (json_Marshal v) \<le> n" "ends_number r"
  then show "json_value n (json_Marshal v @ r) = Some (v, r)" using assms by (cases n) auto
qed

lemma skip_ws_Cons [simp]: "\<not> is_ws c \<Longrightarrow> skip_ws (c # s) = c # s"
  by (simp add: skip_ws_def)

lemma punctuation [simp]:
  "\<not> is_ws CHR '',''" "\<not> is_ws CHR '']''" "\<not> is_ws CHR ''}''" "\<not> is_ws CHR '':''" "\<not> is_ws CHR 0x22"
  "ends_number (CHR '','' # s)" "ends_number (CHR '']'' # s)" "ends_number (CHR ''}'' # s)"
  by (simp_all add: is_ws_def ends_number_def is_digit_def code_def)

lemma is_digit_not_ws: "is_digit c \<Longrightarrow> \<not> is_ws c \<and> c \<noteq> CHR '']'' \<and> c \<noteq> CHR ''}''"
  by (auto simp: is_digit_def is_ws_def code_def)

lemma format_float_clean:
  "json_clean (JNum q) \<Longrightarrow> \<exists>i. q = of_int i \<and> \<bar>i\<bar> < 2 ^ 53 \<and> format_float q = string_of_int i"
proof -
  assume "json_clean (JNum q)"
  then have q: "of_int \<lfloor>q\<rfloor> = q" "\<bar>q\<bar> < 2 ^ 53" by simp_all
  have "of_int \<bar>\<lfloor>q\<rfloor>\<bar> < (of_int (2 ^ 53) :: rat)" using q(2) arg_cong [OF q(1), of abs] by simp
  then have "\<bar>\<lfloor>q\<rfloor>\<bar> < 2 ^ 53" by (simp only: of_int_less_iff)
  moreover have "format_float q = string_of_int \<lfloor>q\<rfloor>" using q by (simp add: format_float_def)
  ultimately show ?thesis using q(1) by metis
qed

lemma string_of_int_head:
  "\<exists>c t. string_of_int i = c # t \<and> (c = CHR ''-'' \<or> is_digit c)"
proof (cases "string_of_nat (nat i)")
  case (Cons d ds)
  then have "is_digit d" using string_of_nat_digits [of d "nat i"] by simp
  with Cons show ?thesis by (auto simp: string_of_int_def)
qed simp

lemma json_Marshal_head:
  "json_clean v \<Longrightarrow> \<exists>c t. json_Marshal v = c # t \<and> \<not> is_ws c \<and> c \<noteq> CHR '']''"
proof (cases v)
  case (JNum q)
  assume "json_clean v"
  then obtain i where "json_Marshal v = string_of_int i" using format_float_clean JNum by fastforce
  then show ?thesis
    using string_of_int_head [of i] is_digit_not_ws by (auto simp: is_ws_def code_def)
qed (auto simp: json_quote_def is_ws_def code_def)

lemma reads_back_JNum:
  assumes "json_clean (JNum q)"
  shows "reads_back (JNum q)"
proof -
  obtain i where i: "q = of_int i" "\<bar>i\<bar> < 2 ^ 53" "format_float q = string_of_int i"
    using format_float_clean [OF assms] by blast
  obtain c t where c: "string_of_int i = c # t" "c = CHR ''-'' \<or> is_digit c"
    using string_of_int_head by blast
  have "c \<noteq> CHR 0x22 \<and> c \<noteq> CHR ''['' \<and> c \<noteq> CHR ''{'' \<and> c \<noteq> CHR ''t'' \<and> c \<noteq> CHR ''f'' \<and> c \<noteq> CHR ''n''"
    using c(2) by (auto simp: is_digit_def code_def)
  then show ?thesis
    using scan_number_int [OF i(2)] i(1,3) c(1)
    by (intro reads_backI) (auto simp: json_value.simps(2))
qed

lemma reads_back_JStr: "utf8_valid s \<Longrightarrow> reads_back (JStr s)"
  by (rule reads_backI) (auto simp: json_quote_def json_value.simps(2) string_rest_quote)

lemma reads_back_literals: "reads_back JNull" "reads_back (JBool b)"
  by (rule reads_backI; simp add: json_value.simps(2) literal_def HasPrefix_def)+

lemma json_elements_Join:
  assumes "vs \<noteq> []" "\<forall>v\<in>set vs. json_clean v \<and> reads_back v"
    "2 * length (Join (map json_Marshal vs) CHR '','') < n"
  shows "json_elements n (Join (map json_Marshal vs) CHR '','' @ CHR '']'' # r) = Some (vs, r)"
  using assms
proof (induction vs arbitrary: n)
  case (Cons v vs)
  obtain m where m: "n = Suc m" using Cons.prems(3) by (cases n) auto
  show ?case
  proof (cases "vs = []")
    case True
    then have "json_value m (json_Marshal v @ CHR '']'' # r) = Some (v, CHR '']'' # r)"
      using Cons.prems m by (simp add: reads_back_def)
    then show ?thesis using True m by (simp add: json_elements.simps(2))
  next
    case False
    let ?J = "Join (map json_Marshal vs) CHR '',''"
    have J: "Join (map json_Marshal (v # vs)) CHR '','' = json_Marshal v @ CHR '','' # ?J"
      using False by (simp add: Join_Cons)
    have "json_value m (json_Marshal v @ CHR '','' # ?J @ CHR '']'' # r) =
        Some (v, CHR '','' # ?J @ CHR '']'' # r)"
      using Cons.prems m unfolding J by (simp add: reads_back_def)
    moreover have "json_elements m (?J @ CHR '']'' # r) = Some (vs, r)"
      using Cons.IH [OF False] Cons.prems(2,3) m unfolding J by simp
    moreover obtain c t where "?J = c # t" "\<not> is_ws c"
      using False Cons.prems(2) json_Marshal_head by (cases vs; cases "tl vs") fastforce+
    ultimately show ?thesis unfolding J m by (simp add: json_elements.simps(2))
  qed
qed simp

abbreviation member_text :: "string \<times> json \<Rightarrow> string" where
  "member_text \<equiv> (\<lambda>(k, v). json_quote k @ CHR '':'' # json_Marshal v)"

lemma json_members_Join:
  assumes "ms \<noteq> []" "\<forall>(k, v)\<in>set ms. utf8_valid k \<and> json_clean v \<and> reads_back v"
    "2 * length (Join (map member_text ms) CHR '','') < n"
  shows "json_members n (Join (map member_text ms) CHR '','' @ CHR ''}'' # r) = Some (ms, r)"
  using assms
proof (induction ms arbitrary: n)
  case (Cons kv ms)
  obtain k v where kv: "kv = (k, v)" by (cases kv)
  obtain m where m: "n = Suc m" using Cons.prems(3) by (cases n) auto
  obtain c t where c: "json_Marshal v = c # t" "\<not> is_ws c"
    using Cons.prems(2) kv json_Marshal_head by fastforce
  have q: "string_rest (quote_body k @ CHR 0x22 # x) = Some (k, x)" for x
    using Cons.prems(2) kv by (simp add: string_rest_quote)
  have v: "json_value m (c # t @ x) = Some (v, x)" if "ends_number x" for x
    using Cons.prems m kv c that
    by (cases "ms = []") (auto simp: reads_back_def json_quote_def Join_Cons)
  show ?case
  proof (cases "ms = []")
    case True
    then show ?thesis
      using q v c kv m by (simp add: json_members.simps(2) json_quote_def)
  next
    case False
    let ?J = "Join (map member_text ms) CHR '',''"
    have J: "Join (map member_text (kv # ms)) CHR '','' = member_text kv @ CHR '','' # ?J"
      using False by (simp add: Join_Cons)
    have "json_members m (?J @ CHR ''}'' # r) = Some (ms, r)"
      using Cons.IH [OF False] Cons.prems(2,3) m unfolding J by simp
    moreover obtain t' where "?J = CHR 0x22 # t'"
      using False by (cases ms; cases "tl ms") (auto simp: json_quote_def)
    ultimately show ?thesis
      unfolding J m using q v c kv by (simp add: json_members.simps(2) json_quote_def)
  qed
qed simp

lemma reads_back_clean: "json_clean v \<Longrightarrow> reads_back v"
proof (induction v rule: json_Marshal.induct)
  case (5 vs)
  then have vs: "\<forall>v\<in>set vs. json_clean v \<and> reads_back v" by (auto simp: list_all_iff)
  show ?case
    unfolding reads_back_def
  proof (intro allI impI)
    fix n r
    assume n: "2 * length (json_Marshal (JArr vs)) \<le> n"
    then obtain m where m: "n = Suc m" by (cases n) auto
    show "json_value n (json_Marshal (JArr vs) @ r) = Some (JArr vs, r)"
    proof (cases "vs = []")
      case False
      obtain c t where "Join (map json_Marshal vs) CHR '','' = c # t" "\<not> is_ws c" "c \<noteq> CHR '']''"
        using False vs json_Marshal_head by (cases vs; cases "tl vs") fastforce+
      then show ?thesis
        using json_elements_Join [OF False vs, of m r] n m by (simp add: json_value.simps(2))
    qed (simp add: m json_value.simps(2))
  qed
next
  case (6 ms)
  then have ms: "\<forall>(k, v)\<in>set ms. utf8_valid k \<and> json_clean v \<and> reads_back v"
    by (fastforce simp: list_all_iff)
  show ?case
    unfolding reads_back_def
  proof (intro allI impI)
    fix n r
    assume n: "2 * length (json_Marshal (JObj ms)) \<le> n"
    then obtain m where m: "n = Suc m" by (cases n) auto
    show "json_value n (json_Marshal (JObj ms) @ r) = Some (JObj ms, r)"
    proof (cases "ms = []")
      case False
      obtain t where "Join (map member_text ms) CHR '','' = CHR 0x22 # t"
        using False by (cases ms; cases "tl ms") (auto simp: json_quote_def)
      then show ?thesis
        using json_members_Join [OF False ms, of m r] n m by (simp add: json_value.simps(2))
    qed (simp add: m json_value.simps(2))
  qed
qed (auto intro: reads_back_JNum reads_back_JStr reads_back_literals)

lemma json_value_Marshal:
  assumes "json_clean v" "ends_number r" "2 * length (json_Marshal v) \<le> n"
  shows "json_value n (skip_ws (json_Marshal v @ r)) = Some (v, r)"
proof -
  obtain c t where c: "json_Marshal v = c # t" "\<not> is_ws c" using json_Marshal_head [OF assms(1)] by blast
  then have "skip_ws (json_Marshal v @ r) = json_Marshal v @ r" by simp
  then show ?thesis using reads_back_clean [OF assms(1)] assms(2,3) by (simp add: reads_back_def)
qed

lemma json_parse_Marshal: "json_clean v \<Longrightarrow> json_parse (json_Marshal v) = Inr v"
  using json_value_Marshal [of v "[]" "json_fuel (json_Marshal v)"]
  by (simp add: json_parse_def json_fuel_def ends_number_def) (simp add: skip_ws_def)

text \<open>A streaming decoder reads the first value; an encoder writes a value and a line feed.\<close>

lemma json_Decode_Encode: "json_clean v \<Longrightarrow> json_Decode (json_Encode v) = Inr v"
  using json_value_Marshal [of v "[CHR 0x0A]" "json_fuel (json_Encode v)"]
  by (simp add: json_Decode_def json_Encode_def json_fuel_def ends_number_def is_digit_def code_def)

lemma json_parse_Encode: "json_clean v \<Longrightarrow> json_parse (json_Encode v) = Inr v"
  using json_value_Marshal [of v "[CHR 0x0A]" "json_fuel (json_Encode v)"]
  by (simp add: json_parse_def json_Encode_def json_fuel_def ends_number_def is_digit_def code_def)
    (simp add: skip_ws_def is_ws_def code_def)

lemma map_of_rev_distinct: "distinct (map fst m) \<Longrightarrow> map_of (rev m) = map_of m"
proof (induction m)
  case (Cons kv m)
  then have "map_of m (fst kv) = None" by (simp add: map_of_eq_None_iff)
  with Cons show ?case by (auto simp: map_add_def fun_eq_iff split: option.splits)
qed simp

lemma mput_all_mwf: "mwf m \<Longrightarrow> mput_all m [] = m"
  by (rule mwf_ext) (auto simp: map_of_mput_all mwf_distinct map_of_rev_distinct)

lemma norm_sorted: "json_sorted v \<Longrightarrow> norm v = v"
proof (induction v rule: norm.induct)
  case (2 ms)
  have "map (\<lambda>(k, v). (k, norm v)) ms = ms"
    using "2" by (fastforce simp: list_all_iff intro: map_idI)
  then show ?case using "2.prems" by (simp add: mput_all_mwf)
qed (auto simp: list_all_iff map_idI)

lemma json_Unmarshal_map_Marshal:
  "json_clean (JObj m) \<Longrightarrow> json_sorted (JObj m) \<Longrightarrow>
     json_Unmarshal_map (json_Marshal (JObj m)) = Inr (Some m)"
  using json_parse_Marshal [of "JObj m"] norm_sorted [of "JObj m"]
  by (simp add: json_Unmarshal_map_def del: norm.simps json_Marshal.simps)

end
