(* ===== verification/RuleDiscovery.thy ===== *)
theory RuleDiscovery
  imports Controller JsonRoundtrip "HOL-Library.Word"
begin

text \<open>
  The rule discovery server (\<open>internal/controller/ruleserver/server.go\<close>) with the messages it exchanges
  (\<open>gen/kontxt/rules/v1\<close>).

  The server keeps three topics (generation, verification and issuance rules), each with its rules, a 64-bit version and
  one channel of 64 slots per subscriber; a message is put into a channel only if there is a free slot. The functions run
  under the server's lock, so each is one step. A stream call is three kinds of step: registration, which registers a
  channel and builds the first snapshot under the lock, the forwarding of one message from the channel to the stream, and
  removal of the channel.
\<close>

subsection \<open>Messages\<close>

record pb_EndpointSpec =
  pe_Path :: string
  pe_Method :: string

record pb_TctxFieldMapping =
  pf_Source :: string
  pf_Field :: string
  pf_Required :: bool

record pb_TctxEnrichment =
  pn_Field :: string
  pn_Enricher :: string

record pb_GenerationRule =
  pg_Namespace :: string
  pg_Name :: string
  pg_Endpoint :: "pb_EndpointSpec option"
  pg_Purpose :: string
  pg_Scope :: string
  pg_TctxMapping :: "(string \<times> pb_TctxFieldMapping) list"
  pg_TctxEnrichments :: "pb_TctxEnrichment list"
  pg_RctxFields :: "string list"
  pg_TokenLifetime :: string

record pb_CELRule =
  pc_Name :: string
  pc_Cel :: string
  pc_Message :: string

record pb_VerificationRule =
  pv_Namespace :: string
  pv_Name :: string
  pv_ServiceName :: string
  pv_RequiredScope :: string
  pv_RequiredTctxFields :: "string list"
  pv_CelRules :: "pb_CELRule list"
  pv_ExcludedEndpoints :: "pb_EndpointSpec list"
  pv_AutoNarrow :: bool

record pb_IssuanceRule =
  pis_PolicyNamespace :: string
  pis_PolicyName :: string
  pis_RuleName :: string
  pis_Cel :: string
  pis_Message :: string
  pis_TargetNamespaces :: "string list"

record RuleRef =
  ref_Namespace :: string
  ref_Name :: string

datatype 'p rule_update = Snapshot "'p list" | Delta "'p list" "RuleRef list"

record 'p stream_response =
  rs_Update :: "'p rule_update option"
  rs_VersionInfo :: string

subsection \<open>Conversion to messages\<close>

definition endpointToProto :: "EndpointSpec \<Rightarrow> pb_EndpointSpec" where
  "endpointToProto e = \<lparr>pe_Path = ep_Path e, pe_Method = ep_Method e\<rparr>"

definition generationRuleToProto :: "GenerationRule \<Rightarrow> pb_GenerationRule" where
  "generationRuleToProto r =
     \<lparr>pg_Namespace = gr_Namespace r, pg_Name = gr_Name r,
      pg_Endpoint = (if ep_Path (gr_Endpoint r) \<noteq> [] \<or> ep_Method (gr_Endpoint r) \<noteq> []
                     then Some (endpointToProto (gr_Endpoint r)) else None),
      pg_Purpose = gr_Purpose r, pg_Scope = gr_Scope r,
      pg_TctxMapping =
        (if gr_TctxMapping r \<noteq> [] then
           map (\<lambda>(k, v). (k, \<lparr>pf_Source = fm_Source v, pf_Field = fm_Field v, pf_Required = fm_Required v\<rparr>)) (gr_TctxMapping r)
         else []),
      pg_TctxEnrichments =
        (if gr_TctxEnrichments r \<noteq> [] then
           map (\<lambda>e. \<lparr>pn_Field = te_Field e, pn_Enricher = te_Enricher e\<rparr>) (gr_TctxEnrichments r)
         else []),
      pg_RctxFields = gr_RctxFields r, pg_TokenLifetime = gr_TokenLifetime r\<rparr>"

definition generationRulesToProto :: "GenerationRule list \<Rightarrow> pb_GenerationRule list" where
  "generationRulesToProto rules = map generationRuleToProto rules"

definition verificationRuleToProto :: "VerificationRule \<Rightarrow> pb_VerificationRule" where
  "verificationRuleToProto r =
     \<lparr>pv_Namespace = vr_Namespace r, pv_Name = vr_Name r, pv_ServiceName = vr_ServiceName r,
      pv_RequiredScope = vr_RequiredScope r, pv_RequiredTctxFields = vr_RequiredTctxFields r,
      pv_CelRules =
        (if vr_CELRules r \<noteq> [] then
           map (\<lambda>c. \<lparr>pc_Name = cr_Name c, pc_Cel = cr_CEL c, pc_Message = cr_Message c\<rparr>) (vr_CELRules r)
         else []),
      pv_ExcludedEndpoints =
        (if vr_ExcludedEndpoints r \<noteq> [] then map endpointToProto (vr_ExcludedEndpoints r) else []),
      pv_AutoNarrow = vr_AutoNarrow r\<rparr>"

definition verificationRulesToProto :: "VerificationRule list \<Rightarrow> pb_VerificationRule list" where
  "verificationRulesToProto rules = map verificationRuleToProto rules"

definition issuanceRuleToProto :: "PublishedIssuanceRule \<Rightarrow> pb_IssuanceRule" where
  "issuanceRuleToProto r =
     \<lparr>pis_PolicyNamespace = pi_PolicyNamespace r, pis_PolicyName = pi_PolicyName r, pis_RuleName = pi_RuleName r,
      pis_Cel = pi_CEL r, pis_Message = pi_Message r, pis_TargetNamespaces = [] @ pi_TargetNamespaces r\<rparr>"

definition issuanceRulesToProto :: "PublishedIssuanceRule list \<Rightarrow> pb_IssuanceRule list" where
  "issuanceRulesToProto rules = map issuanceRuleToProto rules"

subsection \<open>Channels and topics\<close>

definition channel_slots :: nat where "channel_slots = 64"

text \<open>\<open>select { case ch <- resp: default: }\<close>\<close>

definition channel_send :: "'m \<Rightarrow> 'm list \<Rightarrow> 'm list" where
  "channel_send resp ch = (if length ch < channel_slots then ch @ [resp] else ch)"

record ('r, 'p) topic =
  topic_rules :: "'r list"
  topic_version :: "64 word"
  topic_subscribers :: "(string \<times> 'p stream_response list) list"

definition broadcast :: "'p rule_update \<Rightarrow> ('r, 'p) topic \<Rightarrow> ('r, 'p) topic" where
  "broadcast u t =
     (let v = topic_version t + 1;
          resp = \<lparr>rs_Update = Some u, rs_VersionInfo = string_of_nat (unat v)\<rparr>
      in t\<lparr>topic_version := v, topic_subscribers := map (\<lambda>(sid, ch). (sid, channel_send resp ch)) (topic_subscribers t)\<rparr>)"

text \<open>The loop of the upserts: replace the first rule with the same key, or append.\<close>

fun upsert_rule :: "('r \<Rightarrow> 'r \<Rightarrow> bool) \<Rightarrow> 'r \<Rightarrow> 'r list \<Rightarrow> 'r list" where
  "upsert_rule same rule [] = [rule]"
| "upsert_rule same rule (r # rs) = (if same r rule then rule # rs else r # upsert_rule same rule rs)"

text \<open>The loop of the removals of generation and verification rules: drop the first match.\<close>

fun remove_rule :: "('r \<Rightarrow> bool) \<Rightarrow> 'r list \<Rightarrow> 'r list" where
  "remove_rule P [] = []"
| "remove_rule P (r # rs) = (if P r then rs else r # remove_rule P rs)"

text \<open>\<open>fmt.Sprintf\<close> of the prefix of a topic and the counter.\<close>

definition subscriber_id :: "string \<Rightarrow> 64 word \<Rightarrow> string" where
  "subscriber_id prefix n = prefix @ string_of_nat (unat n)"

record RuleServer =
  generation_topic :: "(GenerationRule, pb_GenerationRule) topic"
  verification_topic :: "(VerificationRule, pb_VerificationRule) topic"
  issuance_topic :: "(PublishedIssuanceRule, pb_IssuanceRule) topic"
  subIDCounter :: "64 word"

definition NewRuleServer :: RuleServer where
  "NewRuleServer =
     \<lparr>generation_topic = \<lparr>topic_rules = [], topic_version = 0, topic_subscribers = []\<rparr>,
      verification_topic = \<lparr>topic_rules = [], topic_version = 0, topic_subscribers = []\<rparr>,
      issuance_topic = \<lparr>topic_rules = [], topic_version = 0, topic_subscribers = []\<rparr>,
      subIDCounter = 0\<rparr>"

subsection \<open>Generation rules\<close>

definition UpdateGenerationRules :: "GenerationRule list \<Rightarrow> RuleServer \<Rightarrow> RuleServer" where
  "UpdateGenerationRules rules s =
     s\<lparr>generation_topic := broadcast (Snapshot (generationRulesToProto rules)) ((generation_topic s)\<lparr>topic_rules := rules\<rparr>)\<rparr>"

definition UpsertGenerationRule :: "GenerationRule \<Rightarrow> RuleServer \<Rightarrow> RuleServer" where
  "UpsertGenerationRule rule s =
     (let rules = upsert_rule (\<lambda>r rule. gr_Namespace r = gr_Namespace rule \<and> gr_Name r = gr_Name rule) rule
                    (topic_rules (generation_topic s))
      in s\<lparr>generation_topic := broadcast (Delta (generationRulesToProto [rule]) []) ((generation_topic s)\<lparr>topic_rules := rules\<rparr>)\<rparr>)"

definition RemoveGenerationRule :: "string \<Rightarrow> string \<Rightarrow> RuleServer \<Rightarrow> RuleServer" where
  "RemoveGenerationRule namespace name s =
     (let rules = remove_rule (\<lambda>r. gr_Namespace r = namespace \<and> gr_Name r = name) (topic_rules (generation_topic s))
      in s\<lparr>generation_topic :=
             broadcast (Delta [] [\<lparr>ref_Namespace = namespace, ref_Name = name\<rparr>]) ((generation_topic s)\<lparr>topic_rules := rules\<rparr>)\<rparr>)"

definition buildGenSnapshot :: "RuleServer \<Rightarrow> pb_GenerationRule stream_response" where
  "buildGenSnapshot s =
     \<lparr>rs_Update = Some (Snapshot (generationRulesToProto (topic_rules (generation_topic s)))),
      rs_VersionInfo = string_of_nat (unat (topic_version (generation_topic s)))\<rparr>"

definition StreamGenerationRules :: "RuleServer \<Rightarrow> string \<times> pb_GenerationRule stream_response \<times> RuleServer" where
  "StreamGenerationRules s =
     (let n = subIDCounter s + 1;
          sid = subscriber_id ''gen-'' n;
          t = generation_topic s;
          s' = s\<lparr>subIDCounter := n, generation_topic := t\<lparr>topic_subscribers := mput sid [] (topic_subscribers t)\<rparr>\<rparr>
      in (sid, buildGenSnapshot s', s'))"

subsection \<open>Verification rules\<close>

definition UpdateVerificationRules :: "VerificationRule list \<Rightarrow> RuleServer \<Rightarrow> RuleServer" where
  "UpdateVerificationRules rules s =
     s\<lparr>verification_topic := broadcast (Snapshot (verificationRulesToProto rules)) ((verification_topic s)\<lparr>topic_rules := rules\<rparr>)\<rparr>"

definition UpsertVerificationRule :: "VerificationRule \<Rightarrow> RuleServer \<Rightarrow> RuleServer" where
  "UpsertVerificationRule rule s =
     (let rules = upsert_rule (\<lambda>r rule. vr_Namespace r = vr_Namespace rule \<and> vr_Name r = vr_Name rule) rule
                    (topic_rules (verification_topic s))
      in s\<lparr>verification_topic := broadcast (Delta (verificationRulesToProto [rule]) []) ((verification_topic s)\<lparr>topic_rules := rules\<rparr>)\<rparr>)"

definition RemoveVerificationRule :: "string \<Rightarrow> string \<Rightarrow> RuleServer \<Rightarrow> RuleServer" where
  "RemoveVerificationRule namespace name s =
     (let rules = remove_rule (\<lambda>r. vr_Namespace r = namespace \<and> vr_Name r = name) (topic_rules (verification_topic s))
      in s\<lparr>verification_topic :=
             broadcast (Delta [] [\<lparr>ref_Namespace = namespace, ref_Name = name\<rparr>]) ((verification_topic s)\<lparr>topic_rules := rules\<rparr>)\<rparr>)"

definition buildVerSnapshot :: "RuleServer \<Rightarrow> pb_VerificationRule stream_response" where
  "buildVerSnapshot s =
     \<lparr>rs_Update = Some (Snapshot (verificationRulesToProto (topic_rules (verification_topic s)))),
      rs_VersionInfo = string_of_nat (unat (topic_version (verification_topic s)))\<rparr>"

definition StreamVerificationRules :: "RuleServer \<Rightarrow> string \<times> pb_VerificationRule stream_response \<times> RuleServer" where
  "StreamVerificationRules s =
     (let n = subIDCounter s + 1;
          sid = subscriber_id ''ver-'' n;
          t = verification_topic s;
          s' = s\<lparr>subIDCounter := n, verification_topic := t\<lparr>topic_subscribers := mput sid [] (topic_subscribers t)\<rparr>\<rparr>
      in (sid, buildVerSnapshot s', s'))"

subsection \<open>Issuance rules\<close>

definition UpdateIssuanceRules :: "PublishedIssuanceRule list \<Rightarrow> RuleServer \<Rightarrow> RuleServer" where
  "UpdateIssuanceRules rules s =
     s\<lparr>issuance_topic := broadcast (Snapshot (issuanceRulesToProto rules)) ((issuance_topic s)\<lparr>topic_rules := rules\<rparr>)\<rparr>"

definition UpsertIssuanceRule :: "PublishedIssuanceRule \<Rightarrow> RuleServer \<Rightarrow> RuleServer" where
  "UpsertIssuanceRule rule s =
     (let rules = upsert_rule (\<lambda>r rule. pi_PolicyNamespace r = pi_PolicyNamespace rule \<and>
                      pi_PolicyName r = pi_PolicyName rule \<and> pi_RuleName r = pi_RuleName rule) rule
                    (topic_rules (issuance_topic s))
      in s\<lparr>issuance_topic := broadcast (Delta (issuanceRulesToProto [rule]) []) ((issuance_topic s)\<lparr>topic_rules := rules\<rparr>)\<rparr>)"

definition RemoveIssuanceRule :: "string \<Rightarrow> string \<Rightarrow> RuleServer \<Rightarrow> RuleServer" where
  "RemoveIssuanceRule policyNamespace policyName s =
     (let rules = filter (\<lambda>r. \<not> (pi_PolicyNamespace r = policyNamespace \<and> pi_PolicyName r = policyName))
                    (topic_rules (issuance_topic s))
      in s\<lparr>issuance_topic :=
             broadcast (Delta [] [\<lparr>ref_Namespace = policyNamespace, ref_Name = policyName\<rparr>])
               ((issuance_topic s)\<lparr>topic_rules := rules\<rparr>)\<rparr>)"

definition buildIssSnapshot :: "RuleServer \<Rightarrow> pb_IssuanceRule stream_response" where
  "buildIssSnapshot s =
     \<lparr>rs_Update = Some (Snapshot (issuanceRulesToProto (topic_rules (issuance_topic s)))),
      rs_VersionInfo = string_of_nat (unat (topic_version (issuance_topic s)))\<rparr>"

definition StreamIssuanceRules :: "RuleServer \<Rightarrow> string \<times> pb_IssuanceRule stream_response \<times> RuleServer" where
  "StreamIssuanceRules s =
     (let n = subIDCounter s + 1;
          sid = subscriber_id ''iss-'' n;
          t = issuance_topic s;
          s' = s\<lparr>subIDCounter := n, issuance_topic := t\<lparr>topic_subscribers := mput sid [] (topic_subscribers t)\<rparr>\<rparr>
      in (sid, buildIssSnapshot s', s'))"

subsection \<open>The rest of a stream\<close>

text \<open>One turn of a stream's loop takes the oldest message of its channel; its end removes the channel.\<close>

definition stream_next :: "string \<Rightarrow> ('r, 'p) topic \<Rightarrow> ('p stream_response \<times> ('r, 'p) topic) option" where
  "stream_next sid t =
     (case map_of (topic_subscribers t) sid of
        Some (resp # ch) \<Rightarrow> Some (resp, t\<lparr>topic_subscribers := mput sid ch (topic_subscribers t)\<rparr>)
      | _ \<Rightarrow> None)"

definition stream_end :: "string \<Rightarrow> ('r, 'p) topic \<Rightarrow> ('r, 'p) topic" where
  "stream_end sid t = t\<lparr>topic_subscribers := mdel sid (topic_subscribers t)\<rparr>"

subsection \<open>Lemmas\<close>

lemma broadcast_simps [simp]:
  "topic_rules (broadcast u t) = topic_rules t"
  "map fst (topic_subscribers (broadcast u t)) = map fst (topic_subscribers t)"
  by (auto simp: broadcast_def Let_def)

lemma map_of_broadcast:
  "map_of (topic_subscribers (broadcast u t)) sid =
     map_option (channel_send \<lparr>rs_Update = Some u, rs_VersionInfo = string_of_nat (unat (topic_version t + 1))\<rparr>)
       (map_of (topic_subscribers t) sid)"
  by (simp add: broadcast_def Let_def map_of_map)

lemma length_channel_send: "length ch \<le> channel_slots \<Longrightarrow> length (channel_send resp ch) \<le> channel_slots"
  by (simp add: channel_send_def)

text \<open>Decimal text determines the number, so subscriber names are fresh until the counter wraps.\<close>

lemma string_of_nat_inj: "string_of_nat m = string_of_nat n \<longleftrightarrow> m = n"
  by (metis digits_val_string_of_nat)

definition channel_ok :: "string \<Rightarrow> nat \<Rightarrow> string \<times> 'm list \<Rightarrow> bool" where
  "channel_ok prefix n c \<longleftrightarrow> length (snd c) \<le> channel_slots \<and> (\<exists>i. 0 < i \<and> i \<le> n \<and> fst c = prefix @ string_of_nat i)"

definition topic_ok :: "string \<Rightarrow> nat \<Rightarrow> ('r, 'p) topic \<Rightarrow> bool" where
  "topic_ok prefix n t \<longleftrightarrow> mwf (topic_subscribers t) \<and> (\<forall>c\<in>set (topic_subscribers t). channel_ok prefix n c)"

lemma channel_ok_send: "channel_ok pre n (sid, ch) \<Longrightarrow> channel_ok pre n (sid, channel_send resp ch)"
  by (simp add: channel_ok_def length_channel_send)

lemma topic_ok_broadcast: "topic_ok pre n t \<Longrightarrow> topic_ok pre n (broadcast u (t\<lparr>topic_rules := rs\<rparr>))"
  unfolding topic_ok_def mwf_def broadcast_simps
  by (auto simp: broadcast_def Let_def intro: channel_ok_send)

lemma channel_ok_mono: "channel_ok pre n c \<Longrightarrow> n \<le> n' \<Longrightarrow> channel_ok pre n' c"
  unfolding channel_ok_def by (meson le_trans)

lemma topic_ok_mono: "topic_ok pre n t \<Longrightarrow> n \<le> n' \<Longrightarrow> topic_ok pre n' t"
  unfolding topic_ok_def using channel_ok_mono by blast

lemma topic_ok_mput:
  assumes "topic_ok pre n t" "channel_ok pre n (sid, ch)"
  shows "topic_ok pre n (t\<lparr>topic_subscribers := mput sid ch (topic_subscribers t)\<rparr>)"
  using assms set_mput [of sid ch "topic_subscribers t"] unfolding topic_ok_def by auto

lemma topic_ok_subscribe:
  assumes "topic_ok pre (unat n) t" "unat (n + 1) = Suc (unat n)"
  shows "topic_ok pre (unat (n + 1)) (t\<lparr>topic_subscribers := mput (subscriber_id pre (n + 1)) [] (topic_subscribers t)\<rparr>)"
proof (rule topic_ok_mput)
  show "topic_ok pre (unat (n + 1)) t" using assms by (auto intro: topic_ok_mono)
  show "channel_ok pre (unat (n + 1)) (subscriber_id pre (n + 1), [])"
    using assms(2) by (auto simp: channel_ok_def subscriber_id_def)
qed

lemma topic_ok_length: "topic_ok pre n t \<Longrightarrow> (sid, ch) \<in> set (topic_subscribers t) \<Longrightarrow> length ch \<le> 64"
  by (auto simp: topic_ok_def channel_ok_def channel_slots_def)

lemma topic_ok_next:
  assumes ok: "topic_ok pre n t" and nxt: "stream_next sid t = Some (resp, t')"
  shows "topic_ok pre n t'"
proof -
  from nxt obtain ch where ch: "map_of (topic_subscribers t) sid = Some (resp # ch)"
    and t': "t' = t\<lparr>topic_subscribers := mput sid ch (topic_subscribers t)\<rparr>"
    by (auto simp: stream_next_def split: option.splits list.splits)
  from map_of_SomeD [OF ch] ok have "channel_ok pre n (sid, resp # ch)" by (auto simp: topic_ok_def)
  then have "channel_ok pre n (sid, ch)" by (simp add: channel_ok_def)
  with ok show ?thesis unfolding t' by (rule topic_ok_mput)
qed

lemma topic_ok_end: "topic_ok pre n t \<Longrightarrow> topic_ok pre n (stream_end sid t)"
  by (auto simp: topic_ok_def stream_end_def) (simp add: mdel_def)

lemma topic_ok_fresh:
  assumes "topic_ok pre (unat n) t" "unat (n + 1) = Suc (unat n)"
  shows "map_of (topic_subscribers t) (subscriber_id pre (n + 1)) = None"
proof (rule ccontr)
  assume "map_of (topic_subscribers t) (subscriber_id pre (n + 1)) \<noteq> None"
  then obtain ch where "(subscriber_id pre (n + 1), ch) \<in> set (topic_subscribers t)" by (auto dest: map_of_SomeD)
  with assms show False by (auto simp: topic_ok_def channel_ok_def subscriber_id_def string_of_nat_inj)
qed

subsection \<open>The server as a transition system\<close>

inductive server_step :: "RuleServer \<Rightarrow> RuleServer \<Rightarrow> bool" where
  update_gen: "server_step s (UpdateGenerationRules rules s)"
| upsert_gen: "server_step s (UpsertGenerationRule rule s)"
| remove_gen: "server_step s (RemoveGenerationRule ns n s)"
| update_ver: "server_step s (UpdateVerificationRules vrules s)"
| upsert_ver: "server_step s (UpsertVerificationRule vrule s)"
| remove_ver: "server_step s (RemoveVerificationRule ns n s)"
| update_iss: "server_step s (UpdateIssuanceRules irules s)"
| upsert_iss: "server_step s (UpsertIssuanceRule irule s)"
| remove_iss: "server_step s (RemoveIssuanceRule ns n s)"
| stream_gen: "subIDCounter s + 1 \<noteq> 0 \<Longrightarrow> server_step s (snd (snd (StreamGenerationRules s)))"
| stream_ver: "subIDCounter s + 1 \<noteq> 0 \<Longrightarrow> server_step s (snd (snd (StreamVerificationRules s)))"
| stream_iss: "subIDCounter s + 1 \<noteq> 0 \<Longrightarrow> server_step s (snd (snd (StreamIssuanceRules s)))"
| next_gen: "stream_next sid (generation_topic s) = Some (gresp, gt) \<Longrightarrow> server_step s (s\<lparr>generation_topic := gt\<rparr>)"
| next_ver: "stream_next sid (verification_topic s) = Some (vresp, vt) \<Longrightarrow> server_step s (s\<lparr>verification_topic := vt\<rparr>)"
| next_iss: "stream_next sid (issuance_topic s) = Some (iresp, it) \<Longrightarrow> server_step s (s\<lparr>issuance_topic := it\<rparr>)"
| end_gen: "server_step s (s\<lparr>generation_topic := stream_end sid (generation_topic s)\<rparr>)"
| end_ver: "server_step s (s\<lparr>verification_topic := stream_end sid (verification_topic s)\<rparr>)"
| end_iss: "server_step s (s\<lparr>issuance_topic := stream_end sid (issuance_topic s)\<rparr>)"

definition server_ok :: "RuleServer \<Rightarrow> bool" where
  "server_ok s \<longleftrightarrow>
     topic_ok ''gen-'' (unat (subIDCounter s)) (generation_topic s) \<and>
     topic_ok ''ver-'' (unat (subIDCounter s)) (verification_topic s) \<and>
     topic_ok ''iss-'' (unat (subIDCounter s)) (issuance_topic s)"

lemma unat_Suc_counter: "(n :: 64 word) + 1 \<noteq> 0 \<Longrightarrow> unat (n + 1) = Suc (unat n)"
  by (metis unatSuc add.commute)

lemma server_ok_stream:
  assumes "server_ok s" "subIDCounter s + 1 \<noteq> 0"
  shows "server_ok (snd (snd (StreamGenerationRules s)))" "server_ok (snd (snd (StreamVerificationRules s)))"
    "server_ok (snd (snd (StreamIssuanceRules s)))"
proof -
  note eq = unat_Suc_counter [OF assms(2)]
  then have le: "unat (subIDCounter s) \<le> unat (subIDCounter s + 1)" by simp
  show "server_ok (snd (snd (StreamGenerationRules s)))" "server_ok (snd (snd (StreamVerificationRules s)))"
    "server_ok (snd (snd (StreamIssuanceRules s)))"
    using assms(1)
    by (simp_all add: server_ok_def StreamGenerationRules_def StreamVerificationRules_def StreamIssuanceRules_def Let_def
        topic_ok_subscribe [OF _ eq] topic_ok_mono [OF _ le])
qed

lemma server_ok_step: "server_step s s' \<Longrightarrow> server_ok s \<Longrightarrow> server_ok s'"
proof (induction rule: server_step.induct)
  case (stream_gen s) then show ?case by (simp add: server_ok_stream)
next
  case (stream_ver s) then show ?case by (simp add: server_ok_stream)
next
  case (stream_iss s) then show ?case by (simp add: server_ok_stream)
qed (auto simp: server_ok_def UpdateGenerationRules_def UpsertGenerationRule_def RemoveGenerationRule_def
    UpdateVerificationRules_def UpsertVerificationRule_def RemoveVerificationRule_def UpdateIssuanceRules_def
    UpsertIssuanceRule_def RemoveIssuanceRule_def Let_def intro: topic_ok_broadcast topic_ok_next topic_ok_end)

lemma server_ok_reachable: "server_step\<^sup>*\<^sup>* NewRuleServer s \<Longrightarrow> server_ok s"
proof (induction rule: rtranclp_induct)
  case base show ?case by (simp add: server_ok_def NewRuleServer_def topic_ok_def)
qed (rule server_ok_step)

text \<open>
  C25. In every state the server reaches from its start, every channel holds at most 64 messages, and a new subscriber gets
  a name no current subscriber of its topic has, so it never takes over the channel of another, as long as the 64-bit
  counter has not wrapped around.
\<close>

theorem subscribers_isolated:
  assumes "server_step\<^sup>*\<^sup>* NewRuleServer s" "subIDCounter s + 1 \<noteq> 0"
  shows "(\<forall>ch\<in>snd ` set (topic_subscribers (generation_topic s)). length ch \<le> 64) \<and>
     (\<forall>ch\<in>snd ` set (topic_subscribers (verification_topic s)). length ch \<le> 64) \<and>
     (\<forall>ch\<in>snd ` set (topic_subscribers (issuance_topic s)). length ch \<le> 64) \<and>
     map_of (topic_subscribers (generation_topic s)) (fst (StreamGenerationRules s)) = None \<and>
     map_of (topic_subscribers (verification_topic s)) (fst (StreamVerificationRules s)) = None \<and>
     map_of (topic_subscribers (issuance_topic s)) (fst (StreamIssuanceRules s)) = None"
proof -
  have ok: "server_ok s" using assms(1) by (rule server_ok_reachable)
  then show ?thesis
    by (auto simp: server_ok_def StreamGenerationRules_def StreamVerificationRules_def StreamIssuanceRules_def Let_def
        topic_ok_fresh [OF _ unat_Suc_counter [OF assms(2)]] intro: topic_ok_length)
qed

theorem subscribers_isolated_witness:
  "map_of (topic_subscribers (generation_topic (snd (snd (StreamGenerationRules NewRuleServer))))) ''gen-1'' = Some [] \<and>
   map_of (topic_subscribers (generation_topic (snd (snd (StreamGenerationRules NewRuleServer)))))
     (fst (StreamGenerationRules (snd (snd (StreamGenerationRules NewRuleServer))))) = None"
proof -
  have start: "subIDCounter NewRuleServer + 1 \<noteq> 0" by (simp add: NewRuleServer_def)
  have "server_step\<^sup>*\<^sup>* NewRuleServer (snd (snd (StreamGenerationRules NewRuleServer)))"
    using server_step.stream_gen [OF start] by (rule r_into_rtranclp)
  moreover have "subIDCounter (snd (snd (StreamGenerationRules NewRuleServer))) + 1 \<noteq> 0"
    by (simp add: NewRuleServer_def StreamGenerationRules_def Let_def)
  ultimately have "map_of (topic_subscribers (generation_topic (snd (snd (StreamGenerationRules NewRuleServer)))))
     (fst (StreamGenerationRules (snd (snd (StreamGenerationRules NewRuleServer))))) = None"
    using subscribers_isolated by blast
  moreover have "map_of (topic_subscribers (generation_topic (snd (snd (StreamGenerationRules NewRuleServer))))) ''gen-1'' = Some []"
    by (simp add: NewRuleServer_def StreamGenerationRules_def Let_def subscriber_id_def string_of_nat.simps) code_simp
  ultimately show ?thesis by blast
qed

end
