(* ===== verification/Token.thy ===== *)
theory Token
  imports JsonRoundtrip
begin

text \<open>
  Package \<open>pkg/token\<close>: the claims of a transaction token and \<open>New\<close>, which builds and signs one; and the
  interface of the JWT library (golang-jwt v5), which is not part of the repository.

  \<^item> Time is a count of nanoseconds since the epoch; \<open>Unix\<close> is its second, rounded down.
  \<^item> The library is a parameter. Signing (\<open>Token.SignedString\<close>) is a function \<open>jwt_token \<Rightarrow> rsa_private \<Rightarrow> string res\<close>.
    Parsing (\<open>jwt.Parse\<close>) is a function of the token string, the key callback, the options, the time and
    the caller's state, which the callback may change (a key cache). \<open>jwt_Parse_spec\<close> states the documented
    behaviour of \<open>Parse\<close>: it decodes the string, asks the callback for a key, verifies the signature with it and validates
    the registered claims (\<open>claims_valid\<close>). \<open>ref_Parse\<close> is a function that meets it.
\<close>

subsection \<open>Constants and claims\<close>

definition HeaderName :: string where "HeaderName = ''Txn-Token''"
definition TypeHeader :: string where "TypeHeader = ''txntoken+jwt''"
definition GrantType :: string where
  "GrantType = ''urn:ietf:params:oauth:grant-type:token-exchange''"
definition RequestedTokenType :: string where
  "RequestedTokenType = ''urn:ietf:params:oauth:token-type:txn_token''"
definition SubjectTokenTypeAccessToken :: string where
  "SubjectTokenTypeAccessToken = ''urn:ietf:params:oauth:token-type:access_token''"
definition SubjectTokenTypeIDToken :: string where
  "SubjectTokenTypeIDToken = ''urn:ietf:params:oauth:token-type:id_token''"
definition SubjectTokenTypeTxnToken :: string where
  "SubjectTokenTypeTxnToken = ''urn:ietf:params:oauth:token-type:txn_token''"

record Claims =
  Issuer :: string
  IssuedAt :: int
  ExpiresAt :: int
  Audience :: string
  TransactionID :: string
  Subject :: string
  Scope :: string
  RequestingWorkload :: string
  TransactionContext :: "gomap option"
  RequesterContext :: "gomap option"

definition empty_claims :: Claims where
  "empty_claims = \<lparr>Issuer = [], IssuedAt = 0, ExpiresAt = 0, Audience = [], TransactionID = [],
     Subject = [], Scope = [], RequestingWorkload = [], TransactionContext = None, RequesterContext = None\<rparr>"

subsection \<open>The JWT library\<close>

record rsa_public =
  rsa_N :: nat
  rsa_E :: int

record rsa_private =
  rsa_PublicKey :: rsa_public
  rsa_D :: nat

datatype signing_method = SigningMethodRSA string | OtherMethod string

record jwt_token =
  jwt_Method :: signing_method
  jwt_Header :: gomap
  jwt_Claims :: gomap

type_synonym jwt_signer = "jwt_token \<Rightarrow> rsa_private \<Rightarrow> string res"

datatype parser_option = WithAudience string | WithIssuer string

type_synonym 's jwt_keyfunc = "jwt_token \<Rightarrow> 's \<Rightarrow> rsa_public res \<times> 's"
type_synonym 's jwt_parse =
  "string \<Rightarrow> 's jwt_keyfunc \<Rightarrow> parser_option list \<Rightarrow> int \<Rightarrow> 's \<Rightarrow> jwt_token res \<times> 's"

definition nanos :: int where "nanos = 1000000000"

definition Unix :: "int \<Rightarrow> int" where
  "Unix t = t div nanos"

text \<open>Registered claims of a decoded token: a missing or zero date is no date.\<close>

definition numeric_date :: "gomap \<Rightarrow> string \<Rightarrow> int option res" where
  "numeric_date m k =
     (case map_of m k of
        None \<Rightarrow> Ok None
      | Some (JNum q) \<Rightarrow> Ok (if q = 0 then None else Some \<lfloor>q\<rfloor>)
      | Some _ \<Rightarrow> Err (LibError ''invalid type for claim''))"

fun json_strings :: "json list \<Rightarrow> string list res" where
  "json_strings [] = Ok []"
| "json_strings (v # vs) =
     (case v of
        JStr s \<Rightarrow> bindr (json_strings vs) id (\<lambda>ss. Ok (s # ss))
      | _ \<Rightarrow> Err (LibError ''invalid type for claim''))"

definition GetAudience :: "gomap \<Rightarrow> string list res" where
  "GetAudience m =
     (case map_of m ''aud'' of
        Some (JStr s) \<Rightarrow> Ok [s]
      | Some (JArr vs) \<Rightarrow> json_strings vs
      | _ \<Rightarrow> Ok [])"

definition not_expired :: "int \<Rightarrow> gomap \<Rightarrow> bool" where
  "not_expired now m =
     (case numeric_date m ''exp'' of
        Inl _ \<Rightarrow> False
      | Inr None \<Rightarrow> True
      | Inr (Some t) \<Rightarrow> now < t * nanos)"

definition already_valid :: "int \<Rightarrow> gomap \<Rightarrow> bool" where
  "already_valid now m =
     (case numeric_date m ''nbf'' of
        Inl _ \<Rightarrow> False
      | Inr None \<Rightarrow> True
      | Inr (Some t) \<Rightarrow> t * nanos \<le> now)"

fun option_holds :: "parser_option \<Rightarrow> gomap \<Rightarrow> bool" where
  "option_holds (WithAudience a) m =
     (case GetAudience m of Inl _ \<Rightarrow> False | Inr as \<Rightarrow> as \<noteq> [[]] \<and> a \<in> set as)"
| "option_holds (WithIssuer i) m = (i = [] \<or> map_of m ''iss'' = Some (JStr i))"

definition claims_valid :: "parser_option list \<Rightarrow> int \<Rightarrow> gomap \<Rightarrow> bool" where
  "claims_valid opts now m \<longleftrightarrow>
     not_expired now m \<and> already_valid now m \<and> (\<forall>p\<in>set opts. option_holds p m)"

text \<open>
  Documented behaviour of \<open>jwt.Parse\<close>, for a decoder \<open>decode\<close> and a signature check \<open>sig_ok\<close>: it succeeds
  exactly when the string decodes, the callback yields a key, the signature verifies under that key and the claims
  are valid; the caller's state is the one the callback leaves, or unchanged if the callback is not reached.
\<close>

definition jwt_Parse_spec ::
  "'s jwt_parse \<Rightarrow> (string \<Rightarrow> jwt_token option) \<Rightarrow> (string \<Rightarrow> rsa_public \<Rightarrow> bool) \<Rightarrow> bool" where
  "jwt_Parse_spec Parse decode sig_ok \<longleftrightarrow>
     (\<forall>tok kf opts now s t s'.
        Parse tok kf opts now s = (Inr t, s') \<longleftrightarrow>
        decode tok = Some t \<and> claims_valid opts now (jwt_Claims t) \<and>
        (\<exists>k. kf t s = (Inr k, s') \<and> sig_ok tok k)) \<and>
     (\<forall>tok kf opts now s.
        snd (Parse tok kf opts now s) =
          (case decode tok of None \<Rightarrow> s | Some t \<Rightarrow> snd (kf t s)))"

definition ref_Parse ::
  "(string \<Rightarrow> jwt_token option) \<Rightarrow> (string \<Rightarrow> rsa_public \<Rightarrow> bool) \<Rightarrow> 's jwt_parse" where
  "ref_Parse decode sig_ok tok kf opts now s =
     (case decode tok of
        None \<Rightarrow> (Err (LibError ''token is malformed''), s)
      | Some t \<Rightarrow>
          (case kf t s of
             (Inl e, s') \<Rightarrow> (Err (Wrapf ''token is unverifiable: %w'' [] e), s')
           | (Inr k, s') \<Rightarrow>
               if \<not> sig_ok tok k then (Err (LibError ''token signature is invalid''), s')
               else if \<not> claims_valid opts now (jwt_Claims t)
                 then (Err (LibError ''token has invalid claims''), s')
               else (Ok t, s')))"

text \<open>
  Documented behaviour of \<open>SignedString\<close> and the decoder: a signed token decodes to itself and its signature verifies
  under the public half of the signing key, when its header and claims are maps that survive JSON
  (\<open>jwt_wf\<close>).
\<close>

definition jwt_wf :: "jwt_token \<Rightarrow> bool" where
  "jwt_wf t \<longleftrightarrow>
     jwt_Method t = SigningMethodRSA ''RS256'' \<and> map_of (jwt_Header t) ''alg'' = Some (JStr ''RS256'') \<and>
     json_clean (JObj (jwt_Header t)) \<and> json_sorted (JObj (jwt_Header t)) \<and>
     json_clean (JObj (jwt_Claims t)) \<and> json_sorted (JObj (jwt_Claims t))"

definition jwt_Sign_spec ::
  "jwt_signer \<Rightarrow> (string \<Rightarrow> jwt_token option) \<Rightarrow> (string \<Rightarrow> rsa_public \<Rightarrow> bool) \<Rightarrow> bool" where
  "jwt_Sign_spec sign decode sig_ok \<longleftrightarrow>
     (\<forall>t key s. sign t key = Inr s \<longrightarrow> jwt_wf t \<longrightarrow>
        s \<noteq> [] \<and> decode s = Some t \<and> sig_ok s (rsa_PublicKey key))"

text \<open>
  Functions that meet the specifications: the compact serialisation of RFC 7515, with the signature replaced by
  the modulus of the key.
\<close>

definition ref_decode :: "string \<Rightarrow> jwt_token option" where
  "ref_decode s =
     (case Split s CHR ''.'' of
        [h, c, g] \<Rightarrow>
          (case (bindr (base64_DecodeString h) id json_Unmarshal_map,
                 bindr (base64_DecodeString c) id json_Unmarshal_map) of
             (Inr (Some hm), Inr (Some cm)) \<Rightarrow>
               (case map_of hm ''alg'' of
                  Some (JStr a) \<Rightarrow>
                    Some \<lparr>jwt_Method = (if HasPrefix a ''RS'' then SigningMethodRSA a else OtherMethod a),
                          jwt_Header = hm, jwt_Claims = cm\<rparr>
                | _ \<Rightarrow> None)
           | _ \<Rightarrow> None)
      | _ \<Rightarrow> None)"

definition ref_sign :: jwt_signer where
  "ref_sign t key =
     Ok (Join
       [base64_EncodeToString (json_Marshal (JObj (jwt_Header t))),
        base64_EncodeToString (json_Marshal (JObj (jwt_Claims t))),
        base64_EncodeToString (big_Bytes (rsa_N (rsa_PublicKey key)))] CHR ''.'')"

definition ref_sig_ok :: "string \<Rightarrow> rsa_public \<Rightarrow> bool" where
  "ref_sig_ok s k = (last (Split s CHR ''.'') = base64_EncodeToString (big_Bytes (rsa_N k)))"

subsection \<open>Creating a token\<close>

definition validateRequired :: "Claims \<Rightarrow> error option" where
  "validateRequired c =
     (if Issuer c = [] then Some (Errorf ''issuer (iss) is required'' [])
      else if Audience c = [] then Some (Errorf ''audience (aud) is required'' [])
      else if Subject c = [] then Some (Errorf ''subject (sub) is required'' [])
      else if Scope c = [] then Some (Errorf ''scope is required'' [])
      else if RequestingWorkload c = [] then Some (Errorf ''requesting workload (req_wl) is required'' [])
      else None)"

definition put_context :: "string \<Rightarrow> gomap option \<Rightarrow> gomap \<Rightarrow> gomap" where
  "put_context k ctx m = (case ctx of None \<Rightarrow> m | Some c \<Rightarrow> mput k (JObj c) m)"

definition jwt_claims_of :: "Claims \<Rightarrow> string \<Rightarrow> int \<Rightarrow> int \<Rightarrow> gomap" where
  "jwt_claims_of c txn now lifetime =
     put_context ''rctx'' (RequesterContext c) (put_context ''tctx'' (TransactionContext c)
       (mput_all
         [(''iss'', JStr (Issuer c)),
          (''iat'', JNum (of_int (Unix now))),
          (''exp'', JNum (of_int (Unix (now + lifetime)))),
          (''aud'', JStr (Audience c)),
          (''txn'', JStr txn),
          (''sub'', JStr (Subject c)),
          (''scope'', JStr (Scope c)),
          (''req_wl'', JStr (RequestingWorkload c))] []))"

definition txn_of :: "string \<Rightarrow> Claims \<Rightarrow> string" where
  "txn_of uuid c = (if TransactionID c = [] then uuid else TransactionID c)"

definition jwt_of :: "string \<Rightarrow> int \<Rightarrow> Claims \<Rightarrow> string \<Rightarrow> int \<Rightarrow> jwt_token" where
  "jwt_of uuid now c kid lifetime =
     \<lparr>jwt_Method = SigningMethodRSA ''RS256'',
      jwt_Header = mput ''kid'' (JStr kid) (mput ''typ'' (JStr TypeHeader)
        (mput_all [(''typ'', JStr ''JWT''), (''alg'', JStr ''RS256'')] [])),
      jwt_Claims = jwt_claims_of c (txn_of uuid c) now lifetime\<rparr>"

text \<open>\<open>New\<close>, with the fresh UUID and the clock reading as arguments.\<close>

definition token_New ::
  "jwt_signer \<Rightarrow> string \<Rightarrow> int \<Rightarrow> Claims \<Rightarrow> rsa_private \<Rightarrow> string \<Rightarrow> int \<Rightarrow> string res" where
  "token_New sign uuid now c key kid lifetime =
     (case validateRequired c of
        Some e \<Rightarrow> Err e
      | None \<Rightarrow> sign (jwt_of uuid now c kid lifetime) key)"

subsection \<open>Lemmas\<close>

lemma ref_Parse_spec: "jwt_Parse_spec (ref_Parse decode sig_ok) decode sig_ok"
  unfolding jwt_Parse_spec_def ref_Parse_def
  by (auto split: option.splits sum.splits prod.splits if_splits)

lemma ref_sign_split:
  "ref_sign t key = Inr s \<Longrightarrow>
     Split s CHR ''.'' =
       [base64_EncodeToString (json_Marshal (JObj (jwt_Header t))),
        base64_EncodeToString (json_Marshal (JObj (jwt_Claims t))),
        base64_EncodeToString (big_Bytes (rsa_N (rsa_PublicKey key)))]"
  by (simp only: ref_sign_def sum.inject) (erule subst, rule Split_Join, simp_all add: base64_no_dot)

lemma ref_sign_spec: "jwt_Sign_spec ref_sign ref_decode ref_sig_ok"
  unfolding jwt_Sign_spec_def
proof (intro allI impI)
  fix t key s assume s: "ref_sign t key = Inr s" and wf: "jwt_wf t"
  have "json_Unmarshal_map (json_Marshal (JObj (jwt_Header t))) = Inr (Some (jwt_Header t))"
    "json_Unmarshal_map (json_Marshal (JObj (jwt_Claims t))) = Inr (Some (jwt_Claims t))"
    using wf by (simp_all add: jwt_wf_def json_Unmarshal_map_Marshal del: json_Marshal.simps)
  then have "ref_decode s = Some t"
    using wf by (simp add: ref_decode_def ref_sign_split [OF s] jwt_wf_def HasPrefix_def del: json_Marshal.simps)
  moreover have "s \<noteq> []" using ref_sign_split [OF s] by (auto simp del: json_Marshal.simps)
  ultimately show "s \<noteq> [] \<and> ref_decode s = Some t \<and> ref_sig_ok s (rsa_PublicKey key)"
    by (simp add: ref_sig_ok_def ref_sign_split [OF s] del: json_Marshal.simps)
qed

lemma jwt_Parse_OkD:
  assumes "jwt_Parse_spec Parse decode sig_ok" "Parse tok kf opts now s = (Inr t, s')"
  shows "decode tok = Some t" "claims_valid opts now (jwt_Claims t)"
    "\<exists>k. kf t s = (Inr k, s') \<and> sig_ok tok k"
  using assms unfolding jwt_Parse_spec_def by blast+

lemma jwt_Parse_OkI:
  assumes "jwt_Parse_spec Parse decode sig_ok" "decode tok = Some t"
    "claims_valid opts now (jwt_Claims t)" "kf t s = (Inr k, s')" "sig_ok tok k"
  shows "Parse tok kf opts now s = (Inr t, s')"
  using assms unfolding jwt_Parse_spec_def by blast

lemma jwt_Parse_ErrI:
  assumes "jwt_Parse_spec Parse decode sig_ok" "decode tok = Some t" "kf t s = (Inl e, s')"
  shows "\<exists>e'. Parse tok kf opts now s = (Inl e', s')"
proof -
  obtain r s'' where p: "Parse tok kf opts now s = (r, s'')" by fastforce
  moreover have "s'' = s'"
    using assms p unfolding jwt_Parse_spec_def by (metis option.simps(5) snd_conv)
  moreover have "r \<noteq> Inr t'" for t'
    using jwt_Parse_OkD [OF assms(1), of tok kf opts now s t' s''] assms(2,3) p by auto
  ultimately show ?thesis by (cases r) auto
qed

lemma jwt_claims_of_lookup [simp]:
  "map_of (jwt_claims_of c txn now l) ''iss'' = Some (JStr (Issuer c))"
  "map_of (jwt_claims_of c txn now l) ''iat'' = Some (JNum (of_int (Unix now)))"
  "map_of (jwt_claims_of c txn now l) ''exp'' = Some (JNum (of_int (Unix (now + l))))"
  "map_of (jwt_claims_of c txn now l) ''aud'' = Some (JStr (Audience c))"
  "map_of (jwt_claims_of c txn now l) ''txn'' = Some (JStr txn)"
  "map_of (jwt_claims_of c txn now l) ''sub'' = Some (JStr (Subject c))"
  "map_of (jwt_claims_of c txn now l) ''scope'' = Some (JStr (Scope c))"
  "map_of (jwt_claims_of c txn now l) ''req_wl'' = Some (JStr (RequestingWorkload c))"
  "map_of (jwt_claims_of c txn now l) ''tctx'' = map_option JObj (TransactionContext c)"
  "map_of (jwt_claims_of c txn now l) ''rctx'' = map_option JObj (RequesterContext c)"
  "map_of (jwt_claims_of c txn now l) ''nbf'' = None"
  by (cases "TransactionContext c"; cases "RequesterContext c";
      simp add: jwt_claims_of_def put_context_def map_of_mput_all del: mput_all_simps)+

lemma jwt_of_header [simp]:
  "map_of (jwt_Header (jwt_of uuid now c kid l)) ''typ'' = Some (JStr TypeHeader)"
  "map_of (jwt_Header (jwt_of uuid now c kid l)) ''kid'' = Some (JStr kid)"
  "jwt_Method (jwt_of uuid now c kid l) = SigningMethodRSA ''RS256''"
  "jwt_Claims (jwt_of uuid now c kid l) = jwt_claims_of c (txn_of uuid c) now l"
  by (simp_all add: jwt_of_def)

lemma mwf_put_context: "mwf m \<Longrightarrow> mwf (put_context k ctx m)"
  by (simp add: put_context_def split: option.splits)

lemma mwf_jwt_claims_of: "mwf (jwt_claims_of c txn now l)"
  unfolding jwt_claims_of_def by (intro mwf_put_context mwf_mput_all mwf_Nil)

lemma token_New_Ok_iff:
  "token_New sign uuid now c key kid l = Inr s \<longleftrightarrow>
     validateRequired c = None \<and> sign (jwt_of uuid now c kid l) key = Inr s"
  by (auto simp: token_New_def split: option.splits)

lemma validateRequired_None_iff:
  "validateRequired c = None \<longleftrightarrow>
     Issuer c \<noteq> [] \<and> Audience c \<noteq> [] \<and> Subject c \<noteq> [] \<and> Scope c \<noteq> [] \<and> RequestingWorkload c \<noteq> []"
  by (simp add: validateRequired_def)

text \<open>
  A built token survives the wire when its texts are UTF-8 and its times are below \<open>2\<^sup>5\<^sup>3\<close> seconds.
\<close>

definition context_clean :: "gomap option \<Rightarrow> bool" where
  "context_clean ctx \<longleftrightarrow> (case ctx of None \<Rightarrow> True | Some m \<Rightarrow> json_clean (JObj m) \<and> json_sorted (JObj m))"

definition claims_clean :: "Claims \<Rightarrow> bool" where
  "claims_clean c \<longleftrightarrow>
     utf8_valid (Issuer c) \<and> utf8_valid (Audience c) \<and> utf8_valid (Subject c) \<and> utf8_valid (Scope c) \<and>
     utf8_valid (RequestingWorkload c) \<and> context_clean (TransactionContext c) \<and> context_clean (RequesterContext c)"

definition time_clean :: "int \<Rightarrow> bool" where
  "time_clean t \<longleftrightarrow> \<bar>Unix t\<bar> < 2 ^ 53"

lemma list_all_mput: "list_all P m \<Longrightarrow> P (k, v) \<Longrightarrow> list_all P (mput k v m)"
  by (induction m) auto

lemma list_all_mput_all: "list_all P m \<Longrightarrow> list_all P kvs \<Longrightarrow> list_all P (mput_all kvs m)"
  by (induction kvs arbitrary: m) (auto simp: list_all_mput)

lemma list_all_put_context:
  "list_all P m \<Longrightarrow> (\<And>c. ctx = Some c \<Longrightarrow> P (k, JObj c)) \<Longrightarrow> list_all P (put_context k ctx m)"
  by (simp add: put_context_def list_all_mput split: option.splits)

lemma jwt_wf_jwt_of:
  assumes "claims_clean c" "utf8_valid kid" "utf8_valid (txn_of uuid c)" "time_clean now" "time_clean (now + l)"
  shows "jwt_wf (jwt_of uuid now c kid l)"
proof -
  have ascii: "utf8_valid s" if "\<forall>c\<in>set s. code c < 128" for s using that by (rule ascii_utf8_valid)
  have keys: "utf8_valid ''iss''" "utf8_valid ''iat''" "utf8_valid ''exp''" "utf8_valid ''aud''" "utf8_valid ''txn''"
    "utf8_valid ''sub''" "utf8_valid ''scope''" "utf8_valid ''req_wl''" "utf8_valid ''tctx''" "utf8_valid ''rctx''"
    "utf8_valid ''typ''" "utf8_valid ''alg''" "utf8_valid ''kid''" "utf8_valid ''JWT''" "utf8_valid ''RS256''"
    "utf8_valid TypeHeader"
    by (rule ascii, simp add: code_def TypeHeader_def)+
  have nums: "\<bar>rat_of_int (Unix now)\<bar> < 2 ^ 53" "\<bar>rat_of_int (Unix (now + l))\<bar> < 2 ^ 53"
    using assms(4,5) unfolding time_clean_def by (metis of_int_abs of_int_less_iff of_int_numeral of_int_power)+
  let ?ok = "\<lambda>(k, v). utf8_valid k \<and> json_clean v" and ?so = "\<lambda>(k::string, v). json_sorted v"
  have "list_all ?ok (jwt_claims_of c (txn_of uuid c) now l)"
    unfolding jwt_claims_of_def using assms keys nums
    by (intro list_all_put_context list_all_mput_all) (auto simp: claims_clean_def context_clean_def)
  moreover have "list_all ?so (jwt_claims_of c (txn_of uuid c) now l)"
    unfolding jwt_claims_of_def using assms
    by (intro list_all_put_context list_all_mput_all) (auto simp: claims_clean_def context_clean_def)
  moreover have "list_all ?ok (jwt_Header (jwt_of uuid now c kid l))"
    "list_all ?so (jwt_Header (jwt_of uuid now c kid l))"
    using keys assms(2) by (simp_all add: jwt_of_def)
  moreover have "mwf (jwt_Header (jwt_of uuid now c kid l))"
    by (simp add: jwt_of_def del: mput_all_simps mput.simps)
  moreover have "map_of (jwt_Header (jwt_of uuid now c kid l)) ''alg'' = Some (JStr ''RS256'')"
    by (simp add: jwt_of_def)
  ultimately show ?thesis by (simp add: jwt_wf_def mwf_jwt_claims_of)
qed

text \<open>A token of this service is accepted by the library's claim check until the second it expires.\<close>

lemma claims_valid_issued:
  assumes "now' < Unix (now + l) * nanos" "Unix (now + l) \<noteq> 0" "Audience c \<noteq> []"
  shows "claims_valid [WithAudience (Audience c)] now' (jwt_claims_of c txn now l)"
  using assms
  by (simp add: claims_valid_def not_expired_def already_valid_def numeric_date_def GetAudience_def)

end
