(* ===== verification/GoHttp.thy ===== *)
theory GoHttp
  imports JsonRoundtrip
begin

text \<open>
  The part of \<open>net/http\<close> and \<open>mime\<close> the services use: requests, responses, form parsing
  (\<open>Request.ParseForm\<close>, \<open>FormValue\<close>), \<open>http.Error\<close> and the method and path patterns of \<open>ServeMux\<close>.

  A response body is bytes, or the text an error is formatted to: error values are symbolic
  (\<open>Prelude\<close>), and \<open>body_bytes\<close> takes the formatter as its argument. Header maps hold canonical
  names.
\<close>

record request =
  rq_Method :: string
  rq_Path :: string
  rq_RawQuery :: string
  rq_Header :: Values
  rq_Body :: string

datatype http_body =
    Bytes string
  | ErrorLine error
  | OAuthError string error
  | MessageError string error

record response =
  rs_Status :: nat
  rs_Header :: Values
  rs_Body :: http_body

definition StatusOK :: nat where "StatusOK = 200"
definition StatusMovedPermanently :: nat where "StatusMovedPermanently = 301"
definition StatusBadRequest :: nat where "StatusBadRequest = 400"
definition StatusUnauthorized :: nat where "StatusUnauthorized = 401"
definition StatusForbidden :: nat where "StatusForbidden = 403"
definition StatusNotFound :: nat where "StatusNotFound = 404"
definition StatusMethodNotAllowed :: nat where "StatusMethodNotAllowed = 405"
definition StatusInternalServerError :: nat where "StatusInternalServerError = 500"
definition StatusServiceUnavailable :: nat where "StatusServiceUnavailable = 503"

lemmas status_defs = StatusOK_def StatusMovedPermanently_def StatusBadRequest_def
  StatusUnauthorized_def StatusForbidden_def StatusNotFound_def StatusMethodNotAllowed_def
  StatusInternalServerError_def StatusServiceUnavailable_def

text \<open>
  The bytes of a body, for a formatter of errors. An OAuth error is a JSON object whose description is
  left out when empty.
\<close>

fun body_bytes :: "(error \<Rightarrow> string) \<Rightarrow> http_body \<Rightarrow> string" where
  "body_bytes fmt (Bytes s) = s"
| "body_bytes fmt (ErrorLine e) = fmt e @ [CHR 0x0A]"
| "body_bytes fmt (OAuthError c e) =
     json_Encode (JObj ((''error'', JStr c) #
       (if fmt e = [] then [] else [(''error_description'', JStr (fmt e))])))"
| "body_bytes fmt (MessageError c e) = json_Encode (JObj [(''error'', JStr c), (''message'', JStr (fmt e))])"

definition error_headers :: Values where
  "error_headers = [(''Content-Type'', [''text/plain; charset=utf-8'']), (''X-Content-Type-Options'', [''nosniff''])]"

definition http_Error :: "error \<Rightarrow> nat \<Rightarrow> response" where
  "http_Error e status = \<lparr>rs_Status = status, rs_Header = error_headers, rs_Body = ErrorLine e\<rparr>"

subsection \<open>Media types\<close>

definition token_char :: "char \<Rightarrow> bool" where
  "token_char c \<longleftrightarrow> 0x20 < code c \<and> code c < 0x7F \<and> c \<notin> set (''()<>@,;:/[]?='' @ [CHR 0x22, CHR 0x5C])"

definition consumeToken :: "string \<Rightarrow> string \<times> string" where
  "consumeToken s = (takeWhile token_char s, dropWhile token_char s)"

lemma space_width_pos: "0 < space_width s \<Longrightarrow> 0 < length s"
  by (cases s) auto

function trim_left :: "string \<Rightarrow> string" where
  "trim_left s = (if space_width s = 0 then s else trim_left (drop (space_width s) s))"
  by pat_completeness auto
termination
  by (relation "measure length") (auto intro: diff_less space_width_pos)

declare trim_left.simps [simp del]

fun quoted_value :: "string \<Rightarrow> string \<Rightarrow> (string \<times> string) option" where
  "quoted_value acc [] = None"
| "quoted_value acc (c # s) =
     (if c = CHR 0x22 then Some (rev acc, s)
      else if c = CHR 0x5C \<and> s \<noteq> [] \<and> \<not> token_char (hd s) \<and> 0x20 < code (hd s) \<and> code (hd s) < 0x7F
        then quoted_value (hd s # acc) (tl s)
      else if code c = 13 \<or> code c = 10 then None
      else quoted_value (c # acc) s)"

definition consumeValue :: "string \<Rightarrow> (string \<times> string) option" where
  "consumeValue s =
     (case s of
        [] \<Rightarrow> None
      | c # r \<Rightarrow>
          if c = CHR 0x22 then quoted_value [] r
          else if fst (consumeToken s) = [] then None
          else Some (consumeToken s))"

definition consumeMediaParam :: "string \<Rightarrow> (string \<times> string \<times> string) option" where
  "consumeMediaParam v =
     (case trim_left v of
        c # r \<Rightarrow>
          if c \<noteq> CHR '';'' then None
          else
            let (param, r1) = consumeToken (trim_left r) in
            if param = [] then None
            else
              (case trim_left r1 of
                 c2 # r2 \<Rightarrow>
                   if c2 \<noteq> CHR ''='' then None
                   else map_option (\<lambda>(val, rest). (ToLower param, val, rest)) (consumeValue (trim_left r2))
               | [] \<Rightarrow> None)
      | [] \<Rightarrow> None)"

text \<open>Result of the parameter scan: \<open>Some None\<close> is success, \<open>Some (Some e)\<close> an error that keeps the media type.\<close>

fun media_params :: "nat \<Rightarrow> (string \<times> string) list \<Rightarrow> string \<Rightarrow> error option option" where
  "media_params 0 seen v = Some None"
| "media_params (Suc n) seen v =
     (if trim_left v = [] then Some None
      else
        (case consumeMediaParam v of
           None \<Rightarrow>
             if trim_left (rev (trim_left (rev (trim_left v)))) = '';'' then Some None
             else Some (Some (LibError ''mime: invalid media parameter''))
         | Some (k, val, rest) \<Rightarrow>
             if map_of seen k \<noteq> None \<and> map_of seen k \<noteq> Some val then None
             else media_params n ((k, val) # seen) rest))"

definition media_type_ok :: "string \<Rightarrow> bool" where
  "media_type_ok s =
     (let (typ, rest) = consumeToken s in
      typ \<noteq> [] \<and>
      (case rest of
         [] \<Rightarrow> True
       | c # r \<Rightarrow> c = CHR ''/'' \<and> r \<noteq> [] \<and> snd (consumeToken r) = []))"

definition ParseMediaType :: "string \<Rightarrow> string \<times> error option" where
  "ParseMediaType v =
     (let base = fst (Cut v CHR '';''); rest = drop (length base) v;
          typ = rev (trim_left (rev (trim_left (ToLower base))))
      in if \<not> media_type_ok typ then ([], Some (LibError ''mime: no media type''))
         else
           (case media_params (Suc (length rest)) [] rest of
              None \<Rightarrow> ([], Some (LibError ''mime: duplicate parameter name''))
            | Some e \<Rightarrow> (typ, e)))"

text \<open>Every parameter consumes text, so the number of bytes bounds the number of turns.\<close>

lemma trim_left_length: "length (trim_left s) \<le> length s"
proof (induction s rule: trim_left.induct)
  case (1 s)
  then show ?case by (subst trim_left.simps) (cases "space_width s = 0", auto intro: order_trans)
qed

lemma quoted_value_length: "quoted_value acc s = Some (val, rest) \<Longrightarrow> length rest < length s"
proof (induction acc s rule: quoted_value.induct)
  case (2 acc c s)
  then show ?case by (cases s) (auto split: if_splits intro: less_SucI)
qed simp

lemma consumeValue_length: "consumeValue s = Some (val, rest) \<Longrightarrow> length rest \<le> length s"
  using quoted_value_length [of "[]" "tl s" val rest] length_dropWhile_le [of token_char s]
  by (auto simp: consumeValue_def consumeToken_def split: list.splits if_splits)

lemma consumeMediaParam_shorter:
  assumes "consumeMediaParam v = Some (k, val, rest)"
  shows "length rest < length v"
proof -
  obtain r r2 where r: "trim_left v = CHR '';'' # r" "trim_left (dropWhile token_char (trim_left r)) = CHR ''='' # r2"
    "consumeValue (trim_left r2) = Some (val, rest)"
    using assms by (auto simp: consumeMediaParam_def consumeToken_def Let_def split: list.splits if_splits)
  have "length rest \<le> length r2" using consumeValue_length [OF r(3)] trim_left_length [of r2] by simp
  moreover have "Suc (length r2) \<le> length r"
    using arg_cong [OF r(2), of length] trim_left_length [of "dropWhile token_char (trim_left r)"]
      length_dropWhile_le [of token_char "trim_left r"] trim_left_length [of r] by simp
  moreover have "Suc (length r) \<le> length v" using arg_cong [OF r(1), of length] trim_left_length [of v] by simp
  ultimately show ?thesis by simp
qed

lemma media_params_fuel: "length v < n \<Longrightarrow> media_params (Suc n) seen v = media_params n seen v"
proof (induction n arbitrary: seen v)
  case (Suc n)
  show ?case
  proof (cases "consumeMediaParam v")
    case (Some p)
    obtain k val rest where p: "p = (k, val, rest)" by (cases p) auto
    then have "length rest < n" using consumeMediaParam_shorter [of v k val rest] Some Suc.prems by simp
    then have "media_params (Suc n) seen' rest = media_params n seen' rest" for seen' using Suc.IH by blast
    with Some p show ?thesis
      by (simp del: media_params.simps add: media_params.simps(2) [of "Suc n" seen v] media_params.simps(2) [of n seen v])
  qed simp
qed simp

subsection \<open>Forms\<close>

definition maxFormSize :: nat where "maxFormSize = 10 * 1024 * 1024"

definition parsePostForm :: "request \<Rightarrow> Values \<times> error option" where
  "parsePostForm r =
     (let ct = Values_Get (rq_Header r) ''Content-Type'';
          (typ, e) = ParseMediaType (if ct = [] then ''application/octet-stream'' else ct)
      in if typ = ''application/x-www-form-urlencoded'' then
           if maxFormSize < length (rq_Body r) then ([], Some (LibError ''http: POST too large''))
           else
             let (vs, e') = ParseQuery (rq_Body r)
             in (vs, if e = None then e' else e)
         else ([], e))"

fun copyValues :: "Values \<Rightarrow> Values \<Rightarrow> Values" where
  "copyValues dst [] = dst"
| "copyValues dst ((k, vs) # src) =
     copyValues (mput k ((case map_of dst k of None \<Rightarrow> [] | Some ws \<Rightarrow> ws) @ vs) dst) src"

definition ParseForm :: "request \<Rightarrow> Values res" where
  "ParseForm r =
     (let (post, e1) = (if rq_Method r \<in> {''POST'', ''PUT'', ''PATCH''} then parsePostForm r else ([], None));
          (qs, e2) = ParseQuery (rq_RawQuery r)
      in case e1 of
           Some e \<Rightarrow> Err e
         | None \<Rightarrow> (case e2 of Some e \<Rightarrow> Err e | None \<Rightarrow> Ok (copyValues post qs)))"

definition FormValue :: "Values \<Rightarrow> string \<Rightarrow> string" where
  "FormValue f k = Values_Get f k"

subsection \<open>Routing\<close>

fun clean_segments :: "string list \<Rightarrow> string list \<Rightarrow> string list" where
  "clean_segments acc [] = rev acc"
| "clean_segments acc (s # ss) =
     (if s = [] \<or> s = ''.'' then clean_segments acc ss
      else if s = ''..'' then clean_segments (tl acc) ss
      else clean_segments (s # acc) ss)"

definition cleanPath :: "string \<Rightarrow> string" where
  "cleanPath p =
     (let p' = (if HasPrefix p ''/'' then p else CHR ''/'' # p);
          np = CHR ''/'' # Join (clean_segments [] (Split p' CHR ''/'')) CHR ''/''
      in if HasSuffix p' ''/'' \<and> np \<noteq> ''/'' then np @ ''/'' else np)"

datatype 'h route_result = Routed 'h | Redirect string | NotAllowed | NotFound

definition method_matches :: "string \<Rightarrow> string \<Rightarrow> bool" where
  "method_matches pat m \<longleftrightarrow> pat = [] \<or> m = pat \<or> (pat = ''GET'' \<and> m = ''HEAD'')"

definition mux_route :: "(string \<times> string \<times> 'h) list \<Rightarrow> request \<Rightarrow> 'h route_result" where
  "mux_route routes r =
     (if cleanPath (rq_Path r) \<noteq> rq_Path r then Redirect (cleanPath (rq_Path r))
      else
        (case filter (\<lambda>(_, p, _). p = rq_Path r) routes of
           [] \<Rightarrow> NotFound
         | rs \<Rightarrow>
             (case filter (\<lambda>(m, _, _). method_matches m (rq_Method r)) rs of
                [] \<Rightarrow> NotAllowed
              | (_, _, h) # _ \<Rightarrow> Routed h)))"


subsection \<open>Lemmas\<close>

lemma ParseMediaType_form [simp]:
  "ParseMediaType ''application/x-www-form-urlencoded'' = (''application/x-www-form-urlencoded'', None)"
  by code_simp

lemma copyValues_Nil [simp]: "copyValues [] [] = []" by simp

text \<open>A form posted with an encoded body and no query is the map that was encoded.\<close>

lemma ParseForm_Encode:
  assumes "rq_Method r = ''POST''" "Values_Get (rq_Header r) ''Content-Type'' = ''application/x-www-form-urlencoded''"
    "rq_RawQuery r = []" "rq_Body r = Values_Encode m" "length (Values_Encode m) \<le> maxFormSize"
    "mwf m" "\<forall>(k, vs)\<in>set m. vs \<noteq> []"
  shows "ParseForm r = Inr m"
proof -
  have "ParseQuery [] = ([], None)" by (simp add: ParseQuery_def parse_segment_def Contains_def)
  moreover have "parsePostForm r = (m, None)"
    using assms ParseQuery_Encode [of m] by (simp add: parsePostForm_def)
  ultimately show ?thesis using assms(1,3) by (simp add: ParseForm_def)
qed

end
