(* ===== verification/GoSha256.thy ===== *)
theory GoSha256
  imports Prelude "HOL-Library.Word"
begin

text \<open>
  The standard library's SHA-256 (\<open>crypto/sha256.Sum256\<close>, FIPS 180-4) on byte strings: padding, the message
  schedule and the 64 rounds of the compression function over 32-bit words.
\<close>

unbundle bit_operations_syntax

type_synonym w32 = "32 word"

text \<open>
  The constants as the standard defines them: the first 32 bits of the fractional parts of the cube roots of the
  first 64 primes, and of the square roots of the first eight. \<open>root_bits k b n a\<close> extends \<open>a\<close> bit by bit to the integer
  \<open>k\<close>-th root of \<open>n\<close>.
\<close>

fun root_bits :: "nat \<Rightarrow> nat \<Rightarrow> nat \<Rightarrow> nat \<Rightarrow> nat" where
  "root_bits k 0 n a = a"
| "root_bits k (Suc b) n a = root_bits k b n (if (a + 2 ^ b) ^ k \<le> n then a + 2 ^ b else a)"

definition small_primes :: "nat list" where
  "small_primes =
     [2, 3, 5, 7, 11, 13, 17, 19, 23, 29, 31, 37, 41, 43, 47, 53,
      59, 61, 67, 71, 73, 79, 83, 89, 97, 101, 103, 107, 109, 113, 127, 131,
      137, 139, 149, 151, 157, 163, 167, 173, 179, 181, 191, 193, 197, 199, 211, 223,
      227, 229, 233, 239, 241, 251, 257, 263, 269, 271, 277, 281, 283, 293, 307, 311]"

definition sha_K :: "w32 list" where
  "sha_K = map (\<lambda>p. of_nat (root_bits 3 36 (p * 2 ^ 96) 0)) small_primes"

definition sha_init :: "w32 list" where
  "sha_init = map (\<lambda>p. of_nat (root_bits 2 36 (p * 2 ^ 64) 0)) (take 8 small_primes)"

definition rotr :: "nat \<Rightarrow> w32 \<Rightarrow> w32" where
  "rotr n x = drop_bit n x OR push_bit (32 - n) x"

definition byte_of :: "nat \<Rightarrow> char" where
  "byte_of n = char_of (n mod 256)"

fun be_bytes :: "nat \<Rightarrow> nat \<Rightarrow> string" where
  "be_bytes 0 n = []"
| "be_bytes (Suc k) n = byte_of (n div 256 ^ k) # be_bytes k n"

definition sha_pad :: "string \<Rightarrow> string" where
  "sha_pad s =
     s @ byte_of 128 # replicate ((119 - length s mod 64) mod 64) (byte_of 0) @ be_bytes 8 (8 * length s)"

fun sha_words :: "string \<Rightarrow> w32 list" where
  "sha_words (a # b # c # d # s) =
     of_nat (((of_char a * 256 + of_char b) * 256 + of_char c) * 256 + of_char d) # sha_words s"
| "sha_words _ = []"

text \<open>The message schedule, kept reversed: the last word first.\<close>

definition sched_next :: "w32 list \<Rightarrow> w32" where
  "sched_next ws =
     (let x = ws ! 14; y = ws ! 1;
          s0 = rotr 7 x XOR rotr 18 x XOR drop_bit 3 x;
          s1 = rotr 17 y XOR rotr 19 y XOR drop_bit 10 y
      in ws ! 15 + s0 + ws ! 6 + s1)"

fun sched_extend :: "nat \<Rightarrow> w32 list \<Rightarrow> w32 list" where
  "sched_extend 0 ws = ws"
| "sched_extend (Suc n) ws = sched_extend n (sched_next ws # ws)"

definition schedule :: "w32 list \<Rightarrow> w32 list" where
  "schedule block = rev (sched_extend 48 (rev block))"

fun sha_round :: "w32 list \<Rightarrow> w32 \<times> w32 \<Rightarrow> w32 list" where
  "sha_round [a, b, c, d, e, f, g, h] (k, w) =
     (let S1 = rotr 6 e XOR rotr 11 e XOR rotr 25 e;
          ch = (e AND f) XOR ((NOT e) AND g);
          t1 = h + S1 + ch + k + w;
          S0 = rotr 2 a XOR rotr 13 a XOR rotr 22 a;
          maj = (a AND b) XOR (a AND c) XOR (b AND c);
          t2 = S0 + maj
      in [t1 + t2, a, b, c, d + t1, e, f, g])"
| "sha_round st _ = st"

definition sha_block :: "w32 list \<Rightarrow> w32 list \<Rightarrow> w32 list" where
  "sha_block st block = map2 (+) st (foldl sha_round st (zip sha_K (schedule block)))"

fun sha_blocks :: "nat \<Rightarrow> w32 list \<Rightarrow> w32 list \<Rightarrow> w32 list" where
  "sha_blocks 0 st ws = st"
| "sha_blocks (Suc n) st ws = sha_blocks n (sha_block st (take 16 ws)) (drop 16 ws)"

definition sha256_Sum256 :: "string \<Rightarrow> string" where
  "sha256_Sum256 s =
     (let ws = sha_words (sha_pad s)
      in concat (map (\<lambda>w. be_bytes 4 (unat w)) (sha_blocks (length ws div 16) sha_init ws)))"

subsection \<open>Lemmas\<close>

lemma length_be_bytes [simp]: "length (be_bytes k n) = k"
  by (induction k) auto

lemma sha_pad_length: "64 dvd length (sha_pad s)"
proof -
  define r where "r = length s mod 64"
  define q where "q = length s div 64"
  have len: "length s = 64 * q + r" and r: "r < 64" by (simp_all add: r_def q_def)
  have "(119 - r) mod 64 = (if r < 56 then 55 - r else 119 - r)"
  proof (cases "r < 56")
    case True
    then have "119 - r = 64 + (55 - r)" by simp
    then show ?thesis using True by (simp add: mod_if)
  qed simp
  then have "length (sha_pad s) = 64 * (q + (if r < 56 then 1 else 2))"
    using len r by (simp add: sha_pad_def flip: r_def)
  then show ?thesis by simp
qed

lemma length_sha_round [simp]: "length (sha_round st kw) = length st"
  by (induction st kw rule: sha_round.induct) (auto simp: Let_def)

lemma length_sha_fold [simp]: "length (foldl sha_round st kws) = length st"
  by (induction kws arbitrary: st) auto

lemma length_sha_blocks [simp]: "length (sha_blocks n st ws) = length st"
  by (induction n arbitrary: st ws) (auto simp: sha_block_def)

lemma length_sha256 [simp]: "length (sha256_Sum256 s) = 32"
proof -
  have "length (sha_blocks n sha_init ws) = 8" for n ws by (simp add: sha_init_def small_primes_def)
  then show ?thesis by (simp add: sha256_Sum256_def Let_def length_concat comp_def sum_list_triv)
qed

end
