(* ===== verification/Keys.thy ===== *)
theory Keys
  imports Token GoHttp GoSha256
begin

text \<open>
  Package \<open>pkg/keys\<close>: the key manager of the token service (\<open>manager.go\<close>). Key generation is a parameter
  that threads the entropy source: \<open>GenerateKey rand bits\<close> gives a key or an error and the source after it.
\<close>

subsection \<open>Data\<close>

record keyEntry =
  privateKey :: rsa_private
  kid :: string

record Manager =
  current :: keyEntry
  previous :: "keyEntry option"
  keySize :: int
  lifetime :: int

record PublicKey =
  Kty :: string
  Use :: string
  Alg :: string
  Kid :: string
  N :: string
  E :: string

type_synonym 'r key_generator = "'r \<Rightarrow> int \<Rightarrow> rsa_private res \<times> 'r"

subsection \<open>Operations\<close>

definition computeKid :: "rsa_public \<Rightarrow> string" where
  "computeKid pub = hex_string (take 8 (sha256_Sum256 (big_Bytes (rsa_N pub))))"

definition sha256Sum :: "string \<Rightarrow> string" where
  "sha256Sum data = sha256_Sum256 data"

definition generateKey :: "'r key_generator \<Rightarrow> int \<Rightarrow> 'r \<Rightarrow> keyEntry res \<times> 'r" where
  "generateKey GenerateKey bits rand =
     (case GenerateKey rand bits of
        (Inl e, rand') \<Rightarrow> (Err e, rand')
      | (Inr key, rand') \<Rightarrow> (Ok \<lparr>privateKey = key, kid = computeKid (rsa_PublicKey key)\<rparr>, rand'))"

definition NewManager :: "'r key_generator \<Rightarrow> int \<Rightarrow> int \<Rightarrow> 'r \<Rightarrow> Manager res \<times> 'r" where
  "NewManager GenerateKey bits rotationInterval rand =
     (case generateKey GenerateKey bits rand of
        (Inl e, rand') \<Rightarrow> (Err (Wrapf ''generating initial key: %w'' [] e), rand')
      | (Inr entry, rand') \<Rightarrow>
          (Ok \<lparr>current = entry, previous = None, keySize = bits, lifetime = rotationInterval\<rparr>, rand'))"

definition SigningKey :: "Manager \<Rightarrow> rsa_private \<times> string" where
  "SigningKey m = (privateKey (current m), kid (current m))"

definition Rotate :: "'r key_generator \<Rightarrow> Manager \<Rightarrow> 'r \<Rightarrow> error option \<times> Manager \<times> 'r" where
  "Rotate GenerateKey m rand =
     (case generateKey GenerateKey (keySize m) rand of
        (Inl e, rand') \<Rightarrow> (Some (Wrapf ''generating new key: %w'' [] e), m, rand')
      | (Inr entry, rand') \<Rightarrow> (None, m\<lparr>previous := Some (current m), current := entry\<rparr>, rand'))"

definition newPublicKey :: "keyEntry \<Rightarrow> PublicKey" where
  "newPublicKey entry =
     (let pub = rsa_PublicKey (privateKey entry)
      in \<lparr>Kty = ''RSA'', Use = ''sig'', Alg = ''RS256'', Kid = kid entry,
          N = base64_EncodeToString (big_Bytes (rsa_N pub)),
          E = base64_EncodeToString (big_Bytes (nat \<bar>rsa_E pub\<bar>))\<rparr>)"

definition RSAPublicKey :: "PublicKey \<Rightarrow> rsa_public res" where
  "RSAPublicKey pk =
     bindr (base64_DecodeString (N pk)) (Wrapf ''decoding modulus: %w'' []) (\<lambda>nBytes.
     bindr (base64_DecodeString (E pk)) (Wrapf ''decoding exponent: %w'' []) (\<lambda>eBytes.
     Ok \<lparr>rsa_N = big_SetBytes nBytes, rsa_E = big_Int64 (big_SetBytes eBytes)\<rparr>))"

definition PublicKeys :: "Manager \<Rightarrow> PublicKey list" where
  "PublicKeys m =
     newPublicKey (current m) # (case previous m of None \<Rightarrow> [] | Some e \<Rightarrow> [newPublicKey e])"

definition jwk_json :: "PublicKey \<Rightarrow> json" where
  "jwk_json pk =
     JObj [(''kty'', JStr (Kty pk)), (''use'', JStr (Use pk)), (''alg'', JStr (Alg pk)),
           (''kid'', JStr (Kid pk)), (''n'', JStr (N pk)), (''e'', JStr (E pk))]"

definition JWKSet :: "PublicKey list \<Rightarrow> json" where
  "JWKSet ks = JObj [(''keys'', JArr (map jwk_json ks))]"

definition JWKSHandler :: "Manager \<Rightarrow> request \<Rightarrow> response" where
  "JWKSHandler m r =
     (if rq_Method r \<noteq> ''GET'' then http_Error (Errorf ''method not allowed'' []) StatusMethodNotAllowed
      else
        \<lparr>rs_Status = StatusOK,
         rs_Header = [(''Cache-Control'', [''public, max-age=300'']), (''Content-Type'', [''application/json''])],
         rs_Body = Bytes (json_Encode (JWKSet (PublicKeys m)))\<rparr>)"

subsection \<open>Invariant\<close>

text \<open>
  What \<open>crypto/rsa\<close> gives: an exponent that fits 63 bits (it generates 65537). The key id of an entry is a
  non-empty text; the ids the manager computes are sixteen hexadecimal digits.
\<close>

definition rsa_key_ok :: "rsa_private \<Rightarrow> bool" where
  "rsa_key_ok k \<longleftrightarrow> 0 \<le> rsa_E (rsa_PublicKey k) \<and> rsa_E (rsa_PublicKey k) < 2 ^ 63"

definition generator_ok :: "'r key_generator \<Rightarrow> bool" where
  "generator_ok G \<longleftrightarrow> (\<forall>rand bits k rand'. G rand bits = (Inr k, rand') \<longrightarrow> rsa_key_ok k)"

definition entry_ok :: "keyEntry \<Rightarrow> bool" where
  "entry_ok e \<longleftrightarrow> rsa_key_ok (privateKey e) \<and> kid e \<noteq> [] \<and> utf8_valid (kid e)"

definition entries :: "Manager \<Rightarrow> keyEntry list" where
  "entries m = current m # (case previous m of None \<Rightarrow> [] | Some e \<Rightarrow> [e])"

definition manager_ok :: "Manager \<Rightarrow> bool" where
  "manager_ok m \<longleftrightarrow> (\<forall>e\<in>set (entries m). entry_ok e)"

lemma PublicKeys_entries: "PublicKeys m = map newPublicKey (entries m)"
  by (simp add: PublicKeys_def entries_def split: option.splits)

lemma length_computeKid: "length (computeKid pub) = 16"
  by (simp add: computeKid_def length_hex_string)

lemma computeKid_nonempty [simp]: "computeKid pub \<noteq> []"
  using length_computeKid [of pub] by auto

lemma base64_ascii_chars: "\<forall>c\<in>set (base64_EncodeToString s). code c < 128"
proof -
  have "code (b64_char n) < 128" if "n < 64" for n using that by (auto simp: b64_char_def code_def)
  then show ?thesis using b64_sextets_bound [of "map code s"] by (auto simp: base64_EncodeToString_def)
qed

lemma base64_ascii: "utf8_valid (base64_EncodeToString s)"
  by (rule ascii_utf8_valid [OF base64_ascii_chars])

lemma hex_string_ascii: "utf8_valid (hex_string s)"
proof (rule ascii_utf8_valid)
  have "code (hex_digit n) < 128" if "n < 16" for n using that by (auto simp: hex_digit_def code_def)
  then show "\<forall>c\<in>set (hex_string s). code c < 128" by (auto simp: hex_string_def code_div_16)
qed

lemma utf8_kid: "utf8_valid (computeKid pub)"
  by (simp add: computeKid_def hex_string_ascii)

lemma generateKey_ok:
  "generator_ok G \<Longrightarrow> generateKey G bits rand = (Inr e, rand') \<Longrightarrow> entry_ok e"
  by (auto simp: generateKey_def generator_ok_def entry_ok_def utf8_kid split: prod.splits sum.splits) blast

lemma generateKey_kid:
  "generateKey G bits rand = (Inr e, rand') \<Longrightarrow> kid e = computeKid (rsa_PublicKey (privateKey e))"
  by (auto simp: generateKey_def split: prod.splits sum.splits)

lemma NewManager_ok:
  "generator_ok G \<Longrightarrow> NewManager G bits l rand = (Inr m, rand') \<Longrightarrow>
     manager_ok m \<and> previous m = None \<and> keySize m = bits"
  by (auto simp: NewManager_def manager_ok_def entries_def dest: generateKey_ok split: prod.splits sum.splits)

lemma Rotate_cases:
  assumes "Rotate G m rand = (r, m', rand')"
  obtains e where "r = Some e" "m' = m"
  | entry where "r = None" "generateKey G (keySize m) rand = (Inr entry, rand')"
      "m' = m\<lparr>previous := Some (current m), current := entry\<rparr>"
  using assms by (auto simp: Rotate_def split: prod.splits sum.splits)

lemma Rotate_ok:
  assumes "generator_ok G" "manager_ok m" "Rotate G m rand = (r, m', rand')"
  shows "manager_ok m'"
  using assms(3)
proof (cases rule: Rotate_cases)
  case (2 entry)
  then show ?thesis using assms(1,2) generateKey_ok by (auto simp: manager_ok_def entries_def)
qed (use assms(2) in simp)

text \<open>The JWK form of a key gives the key back.\<close>

lemma RSAPublicKey_newPublicKey:
  assumes "rsa_key_ok (privateKey e)"
  shows "RSAPublicKey (newPublicKey e) = Inr (rsa_PublicKey (privateKey e))"
  using assms big_Int64_small [of "nat (rsa_E (rsa_PublicKey (privateKey e)))"]
  by (simp add: RSAPublicKey_def newPublicKey_def rsa_key_ok_def Let_def nat_less_iff)

lemma newPublicKey_simps [simp]:
  "Kid (newPublicKey e) = kid e" "Kty (newPublicKey e) = ''RSA''" "Use (newPublicKey e) = ''sig''"
  by (simp_all add: newPublicKey_def Let_def)

end
