(* ===== verification/Verify.thy ===== *)
theory Verify
  imports Keys
begin

text \<open>
  The two verifiers of transaction tokens: \<open>localVerifier\<close> of the token service (\<open>pkg/tts/local_verifier.go\<close>),
  which reads the live key manager, and \<open>Verifier\<close> of the SDK (\<open>sdk/verify/verifier.go\<close>), which fetches the
  JWKS document and caches its keys.

  Both are instances of the locale \<open>token_verifier\<close>, the contract of the Go interface \<open>TokenVerifier\<close>: a token is
  accepted exactly when it decodes, its key resolves, its signature and registered claims are valid and its
  type header is the one of transaction tokens. The consequences are proved once, in the locale.
\<close>

subsection \<open>Claims of a decoded token\<close>

text \<open>The type assertions of the source: \<open>v, _ := m[k].(string)\<close> gives the zero value when it fails.\<close>

definition as_string :: "gomap \<Rightarrow> string \<Rightarrow> string" where
  "as_string m k = (case map_of m k of Some (JStr s) \<Rightarrow> s | _ \<Rightarrow> [])"

definition trunc :: "rat \<Rightarrow> int" where
  "trunc q = (if 0 \<le> q then \<lfloor>q\<rfloor> else \<lceil>q\<rceil>)"

definition int64_of_float :: "rat \<Rightarrow> int" where
  "int64_of_float q = (let i = trunc q in if - (2 ^ 63) \<le> i \<and> i < 2 ^ 63 then i else - (2 ^ 63))"

definition as_int64 :: "gomap \<Rightarrow> string \<Rightarrow> int" where
  "as_int64 m k = (case map_of m k of Some (JNum q) \<Rightarrow> int64_of_float q | _ \<Rightarrow> 0)"

definition as_map :: "gomap \<Rightarrow> string \<Rightarrow> gomap option" where
  "as_map m k = (case map_of m k of Some (JObj c) \<Rightarrow> Some c | _ \<Rightarrow> None)"

definition extractClaims :: "gomap \<Rightarrow> Claims" where
  "extractClaims mc =
     \<lparr>Issuer = as_string mc ''iss'', IssuedAt = as_int64 mc ''iat'', ExpiresAt = as_int64 mc ''exp'',
      Audience = as_string mc ''aud'', TransactionID = as_string mc ''txn'', Subject = as_string mc ''sub'',
      Scope = as_string mc ''scope'', RequestingWorkload = as_string mc ''req_wl'',
      TransactionContext = as_map mc ''tctx'', RequesterContext = as_map mc ''rctx''\<rparr>"

definition fmt_alg :: "jwt_token \<Rightarrow> string" where
  "fmt_alg t = (case map_of (jwt_Header t) ''alg'' of Some (JStr a) \<Rightarrow> a | _ \<Rightarrow> ''<nil>'')"

fun is_rsa :: "signing_method \<Rightarrow> bool" where
  "is_rsa (SigningMethodRSA _) = True"
| "is_rsa (OtherMethod _) = False"

subsection \<open>The verifier of the token service\<close>

record localVerifier =
  lv_keyManager :: Manager
  lv_audience :: string

definition newLocalVerifier :: "Manager \<Rightarrow> string \<Rightarrow> localVerifier" where
  "newLocalVerifier km aud = \<lparr>lv_keyManager = km, lv_audience = aud\<rparr>"

fun find_public_key :: "PublicKey list \<Rightarrow> string \<Rightarrow> rsa_public res" where
  "find_public_key [] kid' = Err (Errorf ''unknown kid %q'' [kid'])"
| "find_public_key (pk # pks) kid' =
     (if Kid pk \<noteq> kid' then find_public_key pks kid'
      else bindr (RSAPublicKey pk) (Wrapf ''decoding key %q: %w'' [kid']) Ok)"

definition local_keyFunc :: "localVerifier \<Rightarrow> jwt_token \<Rightarrow> rsa_public res" where
  "local_keyFunc v t =
     (if \<not> is_rsa (jwt_Method t) then Err (Errorf ''unexpected signing method: %v'' [fmt_alg t])
      else if as_string (jwt_Header t) ''kid'' = [] then Err (Errorf ''missing kid in token header'' [])
      else find_public_key (PublicKeys (lv_keyManager v)) (as_string (jwt_Header t) ''kid''))"

definition local_Verify :: "unit jwt_parse \<Rightarrow> localVerifier \<Rightarrow> int \<Rightarrow> string \<Rightarrow> Claims res" where
  "local_Verify Parse v now tok =
     (if tok = [] then Err (Errorf ''empty token'' [])
      else
        (case Parse tok (\<lambda>t s. (local_keyFunc v t, s)) [WithAudience (lv_audience v)] now () of
           (Inl e, _) \<Rightarrow> Err (Wrapf ''token verification failed: %w'' [] e)
         | (Inr parsed, _) \<Rightarrow>
             let typ = as_string (jwt_Header parsed) ''typ'' in
             if typ \<noteq> TypeHeader then Err (Errorf ''invalid typ header: expected %q, got %q'' [TypeHeader, typ])
             else Ok (extractClaims (jwt_Claims parsed))))"

subsection \<open>The verifier of the SDK\<close>

record Verifier =
  vr_jwksURL :: string
  vr_audience :: string
  vr_keys :: "(string \<times> rsa_public) list"

type_synonym http_get = "string \<Rightarrow> response res"

definition verify_New :: "string \<Rightarrow> string \<Rightarrow> Verifier" where
  "verify_New jwksURL aud = \<lparr>vr_jwksURL = jwksURL, vr_audience = aud, vr_keys = []\<rparr>"

record jwk =
  jwk_Kty :: string
  jwk_Use :: string
  jwk_Kid :: string
  jwk_N :: string
  jwk_E :: string

definition decode_jwk :: "json \<Rightarrow> jwk res" where
  "decode_jwk v =
     bindr (struct_members v) id (\<lambda>ms.
     bindr (string_field ''kty'' ms) id (\<lambda>kty.
     bindr (string_field ''use'' ms) id (\<lambda>use.
     bindr (string_field ''kid'' ms) id (\<lambda>k.
     bindr (string_field ''n'' ms) id (\<lambda>n.
     bindr (string_field ''e'' ms) id (\<lambda>e.
     Ok \<lparr>jwk_Kty = kty, jwk_Use = use, jwk_Kid = k, jwk_N = n, jwk_E = e\<rparr>))))))"

fun decode_jwks :: "json list \<Rightarrow> jwk list res" where
  "decode_jwks [] = Ok []"
| "decode_jwks (v # vs) =
     bindr (decode_jwk v) id (\<lambda>k. bindr (decode_jwks vs) id (\<lambda>ks. Ok (k # ks)))"

definition decode_jwk_set :: "string \<Rightarrow> jwk list res" where
  "decode_jwk_set body =
     bindr (json_Decode body) id (\<lambda>v.
     bindr (struct_members v) id (\<lambda>ms.
     bindr (array_field ''keys'' ms) id decode_jwks))"

text \<open>The key of one entry: entries for other uses and entries that do not decode are skipped.\<close>

definition jwk_key :: "jwk \<Rightarrow> rsa_public option" where
  "jwk_key k =
     (if jwk_Kty k \<noteq> ''RSA'' \<or> jwk_Use k \<noteq> ''sig'' then None
      else
        (case (base64_DecodeString (jwk_N k), base64_DecodeString (jwk_E k)) of
           (Inr n, Inr e) \<Rightarrow> Some \<lparr>rsa_N = big_SetBytes n, rsa_E = big_Int64 (big_SetBytes e)\<rparr>
         | _ \<Rightarrow> None))"

fun cache_jwks :: "jwk list \<Rightarrow> (string \<times> rsa_public) list \<Rightarrow> (string \<times> rsa_public) list" where
  "cache_jwks [] keys = keys"
| "cache_jwks (k # ks) keys =
     (case jwk_key k of
        None \<Rightarrow> cache_jwks ks keys
      | Some pub \<Rightarrow> cache_jwks ks (mput (jwk_Kid k) pub keys))"

definition fetchJWKS :: "http_get \<Rightarrow> Verifier \<Rightarrow> error option \<times> Verifier" where
  "fetchJWKS Get v =
     (case Get (vr_jwksURL v) of
        Inl e \<Rightarrow> (Some (Wrapf ''fetching JWKS from %s: %w'' [vr_jwksURL v] e), v)
      | Inr resp \<Rightarrow>
          if rs_Status resp \<noteq> StatusOK
            then (Some (Errorf ''JWKS endpoint returned status %d'' [string_of_nat (rs_Status resp)]), v)
          else
            (case decode_jwk_set (body_bytes (\<lambda>_. []) (rs_Body resp)) of
               Inl e \<Rightarrow> (Some (Wrapf ''decoding JWKS: %w'' [] e), v)
             | Inr ks \<Rightarrow> (None, v\<lparr>vr_keys := cache_jwks ks []\<rparr>)))"

definition verify_keyFunc :: "http_get \<Rightarrow> Verifier jwt_keyfunc" where
  "verify_keyFunc Get t v =
     (if \<not> is_rsa (jwt_Method t) then (Err (Errorf ''unexpected signing method: %v'' [fmt_alg t]), v)
      else
        let k = as_string (jwt_Header t) ''kid'' in
        if k = [] then (Err (Errorf ''missing kid in token header'' []), v)
        else
          (case map_of (vr_keys v) k of
             Some key \<Rightarrow> (Ok key, v)
           | None \<Rightarrow>
               (case fetchJWKS Get v of
                  (Some e, v') \<Rightarrow> (Err (Wrapf ''fetching JWKS: %w'' [] e), v')
                | (None, v') \<Rightarrow>
                    (case map_of (vr_keys v') k of
                       None \<Rightarrow> (Err (Errorf ''key %q not found in JWKS at %s'' [k, vr_jwksURL v']), v')
                     | Some key \<Rightarrow> (Ok key, v')))))"

definition verify_extractClaims :: "gomap \<Rightarrow> Claims res" where
  "verify_extractClaims mc =
     Ok \<lparr>Issuer = as_string mc ''iss'', IssuedAt = as_int64 mc ''iat'', ExpiresAt = as_int64 mc ''exp'',
      Audience = as_string mc ''aud'', TransactionID = as_string mc ''txn'', Subject = as_string mc ''sub'',
      Scope = as_string mc ''scope'', RequestingWorkload = as_string mc ''req_wl'',
      TransactionContext = as_map mc ''tctx'', RequesterContext = as_map mc ''rctx''\<rparr>"

definition verify_Verify ::
  "Verifier jwt_parse \<Rightarrow> http_get \<Rightarrow> int \<Rightarrow> string \<Rightarrow> Verifier \<Rightarrow> Claims res \<times> Verifier" where
  "verify_Verify Parse Get now tok v =
     (if tok = [] then (Err (Errorf ''empty token'' []), v)
      else
        (case Parse tok (verify_keyFunc Get) [WithAudience (vr_audience v)] now v of
           (Inl e, v') \<Rightarrow> (Err (Wrapf ''token verification failed: %w'' [] e), v')
         | (Inr parsed, v') \<Rightarrow>
             let typ = as_string (jwt_Header parsed) ''typ'' in
             if typ \<noteq> TypeHeader
               then (Err (Errorf ''invalid typ header: expected %q, got %q'' [TypeHeader, typ]), v')
             else (bindr (verify_extractClaims (jwt_Claims parsed)) (Wrapf ''extracting claims: %w'' []) Ok, v')))"

text \<open>A signed token without the type of a transaction token, for tests of the verifier; a failure to sign panics.\<close>

definition regular_jwt :: "string \<Rightarrow> gomap \<Rightarrow> jwt_token" where
  "regular_jwt k claims =
     \<lparr>jwt_Method = SigningMethodRSA ''RS256'',
      jwt_Header = mput ''kid'' (JStr k) (mput_all [(''typ'', JStr ''JWT''), (''alg'', JStr ''RS256'')] []),
      jwt_Claims = claims\<rparr>"

definition createRegularJWT :: "jwt_signer \<Rightarrow> rsa_private \<Rightarrow> string \<Rightarrow> gomap \<Rightarrow> string option" where
  "createRegularJWT sign key k claims =
     (case sign (regular_jwt k claims) key of
        Inl err \<Rightarrow> None
      | Inr tokenString \<Rightarrow> Some tokenString)"

subsection \<open>The contract of a verifier\<close>

text \<open>
  \<open>resolve s kid\<close> is the key the verifier uses for a key id in state \<open>s\<close>.
\<close>

locale token_verifier =
  fixes Vfy :: "int \<Rightarrow> string \<Rightarrow> 's \<Rightarrow> Claims res \<times> 's"
    and resolve :: "'s \<Rightarrow> string \<Rightarrow> rsa_public option"
    and aud :: "'s \<Rightarrow> string"
    and decode :: "string \<Rightarrow> jwt_token option"
    and sig_ok :: "string \<Rightarrow> rsa_public \<Rightarrow> bool"
  assumes accept_iff: "fst (Vfy now tok s) = Inr c \<longleftrightarrow>
      tok \<noteq> [] \<and>
      (\<exists>t k. decode tok = Some t \<and> is_rsa (jwt_Method t) \<and> as_string (jwt_Header t) ''kid'' \<noteq> [] \<and>
        resolve s (as_string (jwt_Header t) ''kid'') = Some k \<and> sig_ok tok k \<and>
        as_string (jwt_Header t) ''typ'' = TypeHeader \<and>
        claims_valid [WithAudience (aud s)] now (jwt_Claims t) \<and> c = extractClaims (jwt_Claims t))"
begin

lemma empty_rejected: "fst (Vfy now [] s) \<noteq> Inr c"
  by (simp add: accept_iff)

lemma accept_typ:
  "fst (Vfy now tok s) = Inr c \<Longrightarrow> decode tok = Some t \<Longrightarrow>
     as_string (jwt_Header t) ''typ'' = TypeHeader \<and> c = extractClaims (jwt_Claims t)"
  by (auto simp: accept_iff)

lemma accept_signed:
  "fst (Vfy now tok s) = Inr c \<Longrightarrow> decode tok = Some t \<Longrightarrow>
     \<exists>k. resolve s (as_string (jwt_Header t) ''kid'') = Some k \<and> sig_ok tok k"
  by (auto simp: accept_iff)

lemma unknown_kid_rejected:
  "decode tok = Some t \<Longrightarrow> resolve s (as_string (jwt_Header t) ''kid'') = None \<Longrightarrow> fst (Vfy now tok s) \<noteq> Inr c"
  by (auto simp: accept_iff)

lemma expired_rejected:
  "decode tok = Some t \<Longrightarrow> map_of (jwt_Claims t) ''exp'' = Some (JNum (of_int e)) \<Longrightarrow> e \<noteq> 0 \<Longrightarrow>
     e * nanos \<le> now \<Longrightarrow> fst (Vfy now tok s) \<noteq> Inr c"
  by (auto simp: accept_iff claims_valid_def not_expired_def numeric_date_def)

lemma accept_audience:
  assumes "fst (Vfy now tok s) = Inr c" "Audience c \<noteq> []"
  shows "Audience c = aud s"
proof -
  obtain t :: jwt_token where t: "claims_valid [WithAudience (aud s)] now (jwt_Claims t)" "c = extractClaims (jwt_Claims t)"
    using assms(1) by (auto simp: accept_iff)
  then obtain a where "map_of (jwt_Claims t) ''aud'' = Some (JStr a)"
    using assms(2) by (auto simp: extractClaims_def as_string_def split: option.splits json.splits)
  with t show ?thesis
    by (simp add: claims_valid_def GetAudience_def extractClaims_def as_string_def)
qed

end

subsection \<open>Both verifiers meet the contract\<close>

definition local_resolve :: "localVerifier \<Rightarrow> string \<Rightarrow> rsa_public option" where
  "local_resolve v k = (case find_public_key (PublicKeys (lv_keyManager v)) k of Inr p \<Rightarrow> Some p | Inl _ \<Rightarrow> None)"

definition verify_resolve :: "http_get \<Rightarrow> Verifier \<Rightarrow> string \<Rightarrow> rsa_public option" where
  "verify_resolve Get v k =
     (case map_of (vr_keys v) k of
        Some key \<Rightarrow> Some key
      | None \<Rightarrow> (case fetchJWKS Get v of (None, v') \<Rightarrow> map_of (vr_keys v') k | _ \<Rightarrow> None))"

lemma local_keyFunc_Ok_iff:
  "local_keyFunc v t = Inr k \<longleftrightarrow>
     is_rsa (jwt_Method t) \<and> as_string (jwt_Header t) ''kid'' \<noteq> [] \<and>
     local_resolve v (as_string (jwt_Header t) ''kid'') = Some k"
  by (auto simp: local_keyFunc_def local_resolve_def split: sum.splits)

lemma verify_keyFunc_Ok_iff:
  "fst (verify_keyFunc Get t v) = Inr k \<longleftrightarrow>
     is_rsa (jwt_Method t) \<and> as_string (jwt_Header t) ''kid'' \<noteq> [] \<and>
     verify_resolve Get v (as_string (jwt_Header t) ''kid'') = Some k"
  by (auto simp: verify_keyFunc_def verify_resolve_def Let_def split: option.splits prod.splits)

lemma verify_extractClaims_eq [simp]: "verify_extractClaims mc = Inr (extractClaims mc)"
  by (simp add: verify_extractClaims_def extractClaims_def)

lemma local_accept_iff:
  assumes "jwt_Parse_spec Parse decode sig_ok"
  shows "local_Verify Parse v now tok = Inr c \<longleftrightarrow>
      tok \<noteq> [] \<and>
      (\<exists>t k. decode tok = Some t \<and> is_rsa (jwt_Method t) \<and> as_string (jwt_Header t) ''kid'' \<noteq> [] \<and>
        local_resolve v (as_string (jwt_Header t) ''kid'') = Some k \<and> sig_ok tok k \<and>
        as_string (jwt_Header t) ''typ'' = TypeHeader \<and>
        claims_valid [WithAudience (lv_audience v)] now (jwt_Claims t) \<and> c = extractClaims (jwt_Claims t))"
    (is "?l \<longleftrightarrow> ?r")
proof
  let ?kf = "\<lambda>t s. (local_keyFunc v t, s :: unit)"
  {
    assume ?l
    then obtain t where "tok \<noteq> []" and p: "Parse tok ?kf [WithAudience (lv_audience v)] now () = (Inr t, ())"
      and "as_string (jwt_Header t) ''typ'' = TypeHeader" "c = extractClaims (jwt_Claims t)"
      by (auto simp: local_Verify_def Let_def split: if_splits prod.splits sum.splits)
    then show ?r using jwt_Parse_OkD [OF assms p] by (auto simp: local_keyFunc_Ok_iff)
  next
    assume ?r
    then obtain t k where "tok \<noteq> []" and d: "decode tok = Some t"
      and cv: "claims_valid [WithAudience (lv_audience v)] now (jwt_Claims t)"
      and kf: "?kf t () = (Inr k, ())" and so: "sig_ok tok k"
      and "as_string (jwt_Header t) ''typ'' = TypeHeader" "c = extractClaims (jwt_Claims t)"
      by (auto simp: local_keyFunc_Ok_iff)
    then show ?l using jwt_Parse_OkI [OF assms d cv, of ?kf, OF kf so] by (simp add: local_Verify_def)
  }
qed

lemma verify_accept_iff:
  assumes "jwt_Parse_spec Parse decode sig_ok"
  shows "fst (verify_Verify Parse Get now tok v) = Inr c \<longleftrightarrow>
      tok \<noteq> [] \<and>
      (\<exists>t k. decode tok = Some t \<and> is_rsa (jwt_Method t) \<and> as_string (jwt_Header t) ''kid'' \<noteq> [] \<and>
        verify_resolve Get v (as_string (jwt_Header t) ''kid'') = Some k \<and> sig_ok tok k \<and>
        as_string (jwt_Header t) ''typ'' = TypeHeader \<and>
        claims_valid [WithAudience (vr_audience v)] now (jwt_Claims t) \<and> c = extractClaims (jwt_Claims t))"
    (is "?l \<longleftrightarrow> ?r")
proof
  {
    assume ?l
    then obtain t v' where "tok \<noteq> []"
      and p: "Parse tok (verify_keyFunc Get) [WithAudience (vr_audience v)] now v = (Inr t, v')"
      and "as_string (jwt_Header t) ''typ'' = TypeHeader" "c = extractClaims (jwt_Claims t)"
      by (auto simp: verify_Verify_def Let_def split: if_splits prod.splits sum.splits)
    then show ?r using jwt_Parse_OkD [OF assms p] verify_keyFunc_Ok_iff [of Get t v] by fastforce
  next
    assume ?r
    then obtain t k where "tok \<noteq> []" and d: "decode tok = Some t"
      and cv: "claims_valid [WithAudience (vr_audience v)] now (jwt_Claims t)"
      and kf: "fst (verify_keyFunc Get t v) = Inr k" and so: "sig_ok tok k"
      and "as_string (jwt_Header t) ''typ'' = TypeHeader" "c = extractClaims (jwt_Claims t)"
      by (auto simp: verify_keyFunc_Ok_iff)
    moreover obtain v' where "verify_keyFunc Get t v = (Inr k, v')" using kf by (metis prod.collapse)
    ultimately show ?l using jwt_Parse_OkI [OF assms d cv _ so] by (simp add: verify_Verify_def)
  }
qed

lemma local_token_verifier:
  assumes "jwt_Parse_spec Parse decode sig_ok"
  shows "token_verifier (\<lambda>now tok v. (local_Verify Parse v now tok, v)) local_resolve lv_audience decode sig_ok"
  by unfold_locales (simp add: local_accept_iff [OF assms])

lemma verify_token_verifier:
  assumes "jwt_Parse_spec Parse decode sig_ok"
  shows "token_verifier (verify_Verify Parse Get) (verify_resolve Get) vr_audience decode sig_ok"
  by unfold_locales (simp add: verify_accept_iff [OF assms])

interpretation lv: token_verifier "\<lambda>now tok v. (local_Verify (ref_Parse decode sig_ok) v now tok, v)"
  local_resolve lv_audience decode sig_ok for decode sig_ok
  by (rule local_token_verifier [OF ref_Parse_spec])

interpretation sv: token_verifier "verify_Verify (ref_Parse decode sig_ok) Get" "verify_resolve Get" vr_audience
  decode sig_ok for Get decode sig_ok
  by (rule verify_token_verifier [OF ref_Parse_spec])

subsection \<open>Resolving the keys of a manager\<close>

lemma find_public_key_map:
  "distinct (map kid es) \<Longrightarrow> e \<in> set es \<Longrightarrow> \<forall>e\<in>set es. rsa_key_ok (privateKey e) \<Longrightarrow>
     find_public_key (map newPublicKey es) (kid e) = Inr (rsa_PublicKey (privateKey e))"
  by (induction es) (auto simp: RSAPublicKey_newPublicKey)

lemma find_public_key_None:
  "k \<notin> kid ` set es \<Longrightarrow> find_public_key (map newPublicKey es) k = Inl (Errorf ''unknown kid %q'' [k])"
  by (induction es) auto

lemma local_resolve_entry:
  assumes "manager_ok m" "distinct (map kid (entries m))" "e \<in> set (entries m)"
  shows "local_resolve (newLocalVerifier m a) (kid e) = Some (rsa_PublicKey (privateKey e))"
  using assms find_public_key_map [of "entries m" e]
  by (simp add: local_resolve_def newLocalVerifier_def PublicKeys_entries manager_ok_def entry_ok_def)

lemma local_resolve_None:
  "k \<notin> kid ` set (entries m) \<Longrightarrow> local_resolve (newLocalVerifier m a) k = None"
  by (simp add: local_resolve_def newLocalVerifier_def PublicKeys_entries find_public_key_None)

definition jwk_of :: "PublicKey \<Rightarrow> jwk" where
  "jwk_of pk = \<lparr>jwk_Kty = Kty pk, jwk_Use = Use pk, jwk_Kid = Kid pk, jwk_N = N pk, jwk_E = E pk\<rparr>"

lemma decode_jwk_json: "decode_jwk (jwk_json pk) = Inr (jwk_of pk)"
  by (simp add: decode_jwk_def jwk_json_def struct_members_def jwk_of_def EqualFold_def ToLower_def lower_char_def
      code_def)

lemma jwk_of_Kid [simp]: "jwk_Kid (jwk_of pk) = Kid pk"
  by (simp add: jwk_of_def)

lemma decode_jwks_json: "decode_jwks (map (jwk_json \<circ> f) pks) = Inr (map (jwk_of \<circ> f) pks)"
  by (induction pks) (simp_all add: decode_jwk_json)

lemma jwk_key_of: "rsa_key_ok (privateKey e) \<Longrightarrow> jwk_key (jwk_of (newPublicKey e)) = Some (rsa_PublicKey (privateKey e))"
  using RSAPublicKey_newPublicKey [of e]
  by (auto simp: jwk_key_def jwk_of_def RSAPublicKey_def bindr_Ok_iff split: sum.splits)

lemma json_clean_JWKSet:
  assumes "manager_ok m"
  shows "json_clean (JWKSet (PublicKeys m))"
proof -
  have ascii: "utf8_valid ''keys''" "utf8_valid ''kty''" "utf8_valid ''use''" "utf8_valid ''alg''" "utf8_valid ''kid''"
    "utf8_valid ''n''" "utf8_valid ''e''" "utf8_valid ''RSA''" "utf8_valid ''sig''" "utf8_valid ''RS256''"
    by (rule ascii_utf8_valid, simp add: code_def)+
  then show ?thesis
    using assms
    by (auto simp: JWKSet_def PublicKeys_entries jwk_json_def newPublicKey_def Let_def list_all_iff manager_ok_def
        entry_ok_def base64_ascii)
qed

text \<open>A fetch from the JWKS endpoint of a manager caches exactly the keys of that manager.\<close>

lemma map_of_cache_jwks:
  assumes "distinct (map kid es)" "\<forall>e\<in>set es. rsa_key_ok (privateKey e)"
  shows "map_of (cache_jwks (map (jwk_of \<circ> newPublicKey) es) ks) k =
    (case map_of (map (\<lambda>e. (kid e, rsa_PublicKey (privateKey e))) es) k of Some p \<Rightarrow> Some p | None \<Rightarrow> map_of ks k)"
  using assms
proof (induction es arbitrary: ks)
  case (Cons e es)
  have "map_of (map (\<lambda>e. (kid e, rsa_PublicKey (privateKey e))) es) (kid e) = None"
    using Cons.prems by (auto simp: map_of_eq_None_iff)
  then show ?case using Cons by (auto simp: jwk_key_of split: option.splits)
qed simp

lemma find_public_key_map_of:
  assumes "\<forall>e\<in>set es. rsa_key_ok (privateKey e)"
  shows "(case find_public_key (map newPublicKey es) k of Inr p \<Rightarrow> Some p | Inl _ \<Rightarrow> None) =
    map_of (map (\<lambda>e. (kid e, rsa_PublicKey (privateKey e))) es) k"
  using assms by (induction es) (auto simp: RSAPublicKey_newPublicKey)

lemma decode_jwk_set_manager:
  assumes "manager_ok m"
  shows "decode_jwk_set (json_Encode (JWKSet (PublicKeys m))) = Inr (map (jwk_of \<circ> newPublicKey) (entries m))"
  using json_Decode_Encode [OF json_clean_JWKSet [OF assms]]
  by (simp add: decode_jwk_set_def JWKSet_def struct_members_def EqualFold_refl decode_jwks_json PublicKeys_entries)

lemma fetchJWKS_manager:
  assumes "manager_ok m" "distinct (map kid (entries m))"
    "Get (vr_jwksURL v) = Inr (JWKSHandler m r)" "rq_Method r = ''GET''"
  shows "\<exists>ks. fetchJWKS Get v = (None, v\<lparr>vr_keys := ks\<rparr>) \<and>
    (\<forall>k. map_of ks k = local_resolve (newLocalVerifier m a) k)"
proof -
  have ok: "\<forall>e\<in>set (entries m). rsa_key_ok (privateKey e)" using assms(1) by (simp add: manager_ok_def entry_ok_def)
  let ?ks = "cache_jwks (map (jwk_of \<circ> newPublicKey) (entries m)) []"
  have "fetchJWKS Get v = (None, v\<lparr>vr_keys := ?ks\<rparr>)"
    using assms by (simp add: fetchJWKS_def JWKSHandler_def decode_jwk_set_manager)
  moreover have "map_of ?ks k = local_resolve (newLocalVerifier m a) k" for k
    using map_of_cache_jwks [OF assms(2) ok, of "[]" k] find_public_key_map_of [OF ok, of k]
    by (simp add: local_resolve_def newLocalVerifier_def PublicKeys_entries split: option.splits)
  ultimately show ?thesis by blast
qed

lemma cache_jwks_kids: "fst ` set (cache_jwks ks keys) \<subseteq> jwk_Kid ` set ks \<union> fst ` set keys"
proof (induction ks arbitrary: keys)
  case (Cons k ks)
  show ?case
  proof (cases "jwk_key k")
    case None
    then show ?thesis using Cons [of keys] by auto
  next
    case (Some p)
    then show ?thesis using Cons [of "mput (jwk_Kid k) p keys"] by auto
  qed
qed simp

lemma fetchJWKS_kids:
  assumes "manager_ok m" "Get (vr_jwksURL v) = Inr (JWKSHandler m r)" "rq_Method r = ''GET''"
    "k \<notin> kid ` set (entries m)"
  shows "\<exists>ks. fetchJWKS Get v = (None, v\<lparr>vr_keys := ks\<rparr>) \<and> map_of ks k = None"
proof -
  let ?ks = "cache_jwks (map (jwk_of \<circ> newPublicKey) (entries m)) []"
  have "fst ` set ?ks \<subseteq> kid ` set (entries m)"
    using cache_jwks_kids [of "map (jwk_of \<circ> newPublicKey) (entries m)" "[]"] by (simp add: image_image)
  then have "map_of ?ks k = None" using assms(4) by (auto simp: map_of_eq_None_iff)
  moreover have "fetchJWKS Get v = (None, v\<lparr>vr_keys := ?ks\<rparr>)"
    using assms(1-3) by (simp add: fetchJWKS_def JWKSHandler_def decode_jwk_set_manager)
  ultimately show ?thesis by blast
qed

subsection \<open>Issued tokens\<close>

definition issued_claims :: "Claims \<Rightarrow> string \<Rightarrow> int \<Rightarrow> int \<Rightarrow> Claims" where
  "issued_claims c txn now l = c\<lparr>IssuedAt := Unix now, ExpiresAt := Unix (now + l), TransactionID := txn\<rparr>"

lemma trunc_of_int [simp]: "trunc (of_int i) = i"
  by (simp add: trunc_def)

lemma extractClaims_issued:
  assumes "time_clean now" "time_clean (now + l)"
  shows "extractClaims (jwt_claims_of c txn now l) = issued_claims c txn now l"
proof -
  have "int64_of_float (of_int (Unix t)) = Unix t" if "time_clean t" for t
    using that by (auto simp: int64_of_float_def time_clean_def Let_def abs_less_iff)
  then show ?thesis
    using assms
    by (cases "TransactionContext c"; cases "RequesterContext c")
      (simp_all add: extractClaims_def issued_claims_def as_string_def as_int64_def as_map_def)
qed

text \<open>What makes a request for a token survive the wire, and when a token issued at \<open>now\<close> is alive at \<open>now'\<close>.\<close>

definition issue_clean :: "string \<Rightarrow> int \<Rightarrow> Claims \<Rightarrow> int \<Rightarrow> bool" where
  "issue_clean uuid now c l \<longleftrightarrow>
     claims_clean c \<and> utf8_valid (txn_of uuid c) \<and> time_clean now \<and> time_clean (now + l)"

definition alive :: "int \<Rightarrow> int \<Rightarrow> int \<Rightarrow> bool" where
  "alive now l now' \<longleftrightarrow> now' < Unix (now + l) * nanos \<and> Unix (now + l) \<noteq> 0"

context token_verifier
begin

lemma issued_accepted:
  assumes "jwt_Sign_spec sign decode sig_ok" "token_New sign uuid now c key k l = Inr tok"
    "issue_clean uuid now c l" "utf8_valid k" "k \<noteq> []"
    "resolve s k = Some (rsa_PublicKey key)" "aud s = Audience c" "alive now l now'"
  shows "fst (Vfy now' tok s) = Inr (issued_claims c (txn_of uuid c) now l)"
proof -
  let ?t = "jwt_of uuid now c k l"
  have "jwt_wf ?t" using assms(3,4) by (simp add: issue_clean_def jwt_wf_jwt_of)
  then have "tok \<noteq> []" "decode tok = Some ?t" "sig_ok tok (rsa_PublicKey key)"
    using assms(1,2) by (auto simp: jwt_Sign_spec_def token_New_Ok_iff)
  moreover have "claims_valid [WithAudience (aud s)] now' (jwt_Claims ?t)"
    using assms(2,7,8) claims_valid_issued by (simp add: alive_def token_New_Ok_iff validateRequired_None_iff)
  ultimately show ?thesis
    using assms(3,5,6) extractClaims_issued [of now l c "txn_of uuid c"]
    by (simp add: accept_iff as_string_def issue_clean_def)
qed

lemma issued_unknown_kid:
  assumes "jwt_Sign_spec sign decode sig_ok" "token_New sign uuid now c key k l = Inr tok"
    "issue_clean uuid now c l" "utf8_valid k" "resolve s k = None"
  shows "fst (Vfy now' tok s) \<noteq> Inr c'"
proof -
  let ?t = "jwt_of uuid now c k l"
  have "jwt_wf ?t" using assms(3,4) by (simp add: issue_clean_def jwt_wf_jwt_of)
  then have "decode tok = Some ?t" using assms(1,2) by (auto simp: jwt_Sign_spec_def token_New_Ok_iff)
  then show ?thesis using unknown_kid_rejected [of tok ?t s now' c'] assms(5) by (simp add: as_string_def)
qed

lemma issued_expired:
  assumes "jwt_Sign_spec sign decode sig_ok" "token_New sign uuid now c key k l = Inr tok"
    "issue_clean uuid now c l" "utf8_valid k" "Unix (now + l) \<noteq> 0" "now + l \<le> now'"
  shows "fst (Vfy now' tok s) \<noteq> Inr c'"
proof -
  let ?t = "jwt_of uuid now c k l"
  have "jwt_wf ?t" using assms(3,4) by (simp add: issue_clean_def jwt_wf_jwt_of)
  then have "decode tok = Some ?t" using assms(1,2) by (auto simp: jwt_Sign_spec_def token_New_Ok_iff)
  moreover have "Unix (now + l) * nanos \<le> now'"
    using assms(6) div_mult_mod_eq [of "now + l" nanos] by (simp add: Unix_def nanos_def)
  ultimately show ?thesis using expired_rejected [of tok ?t "Unix (now + l)" now' s c'] assms(5) by simp
qed

end

end
