(* ===== verification/Authn.thy ===== *)
theory Authn
  imports Verify Cel
begin

text \<open>
  Package \<open>pkg/authn\<close>: authentication of subject tokens. \<open>router.go\<close> reads the issuer and picks the first matching
  authenticator; \<open>oidc.go\<close> is the OIDC authenticator, with its key cache as state; \<open>cel.go\<close> holds the claim
  validation rules and claim mappings.

  A call that may panic returns an option: \<open>None\<close> is the panic.
\<close>

subsection \<open>Configuration\<close>

record SubjectInfo =
  si_Subject :: string
  si_Extra :: "(string \<times> string) list"

record IssuerConfig =
  ic_URL :: string
  ic_DiscoveryURL :: string
  ic_Audiences :: "string list"
  ic_AudienceMatchPolicy :: string

record ClaimValidationRule =
  vr_Expression :: string
  vr_Message :: string

record ClaimOrExpression =
  ce_Claim :: string
  ce_Expression :: string

record ExtraMapping =
  em_Key :: string
  em_ValueExpression :: string

record ClaimMappings =
  cm_Subject :: ClaimOrExpression
  cm_Extra :: "ExtraMapping list"

record AuthenticatorConfig =
  ac_Issuer :: IssuerConfig
  ac_ClaimValidationRules :: "ClaimValidationRule list"
  ac_ClaimMappings :: ClaimMappings

subsection \<open>Claim rules and mappings\<close>

record compiledRule =
  cr_program :: cel_program
  cr_message :: string

record compiledMapping =
  cp_program :: cel_program
  cp_key :: string

definition newCELEnv :: "cel_NewEnv \<Rightarrow> cel_env res" where
  "newCELEnv NewEnv = NewEnv [(''claims'', DynType)]"

fun compile_rules_from :: "cel_env \<Rightarrow> nat \<Rightarrow> ClaimValidationRule list \<Rightarrow> compiledRule list res" where
  "compile_rules_from env i [] = Ok []"
| "compile_rules_from env i (rule # rules) =
     bindr (env (vr_Expression rule))
       (Wrapf ''compiling validation rule %d (%q): %w'' [string_of_nat i, vr_Expression rule]) (\<lambda>ast.
     if OutputType ast \<noteq> BoolType
       then Err (Errorf ''validation rule %d (%q): expression must return bool, got %s''
              [string_of_nat i, vr_Expression rule, type_name (OutputType ast)])
     else
       bindr (Program ast) (Wrapf ''creating program for validation rule %d: %w'' [string_of_nat i]) (\<lambda>prg.
       bindr (compile_rules_from env (Suc i) rules) id (\<lambda>rs.
       Ok (\<lparr>cr_program = prg, cr_message = vr_Message rule\<rparr> # rs))))"

definition compileValidationRules :: "cel_env \<Rightarrow> ClaimValidationRule list \<Rightarrow> compiledRule list res" where
  "compileValidationRules env rules = compile_rules_from env 0 rules"

definition claims_activation :: "gomap \<Rightarrow> activation" where
  "claims_activation claims = [(''claims'', AnyMap (Some claims))]"

definition validation_verdict :: "compiledRule \<Rightarrow> gomap \<Rightarrow> error option" where
  "validation_verdict rule claims =
     (case cr_program rule (claims_activation claims) of
        Inl e \<Rightarrow> Some (Wrapf ''evaluating validation rule: %w'' [] e)
      | Inr (CelBool b) \<Rightarrow> if b = False then Some (Errorf ''claim validation failed: %s'' [cr_message rule]) else None
      | Inr out \<Rightarrow> Some (Errorf ''validation rule returned %s, expected bool'' [value_type out]))"

fun evaluateValidationRules :: "compiledRule list \<Rightarrow> gomap \<Rightarrow> error option" where
  "evaluateValidationRules [] claims = None"
| "evaluateValidationRules (rule # rules) claims =
     (case validation_verdict rule claims of
        Some e \<Rightarrow> Some e
      | None \<Rightarrow> evaluateValidationRules rules claims)"

definition compileSubjectMapping :: "cel_env \<Rightarrow> ClaimOrExpression \<Rightarrow> cel_program option res" where
  "compileSubjectMapping env mapping =
     (if ce_Expression mapping = [] then Ok None
      else
        bindr (env (ce_Expression mapping)) (Wrapf ''compiling subject mapping expression %q: %w'' [ce_Expression mapping]) (\<lambda>ast.
        if OutputType ast \<noteq> StringType \<and> OutputType ast \<noteq> DynType
          then Err (Errorf ''subject mapping expression %q must return string, got %s''
                 [ce_Expression mapping, type_name (OutputType ast)])
        else bindr (Program ast) (Wrapf ''creating program for subject mapping: %w'' []) (\<lambda>prg. Ok (Some prg))))"

definition evaluateSubjectMapping :: "ClaimOrExpression \<Rightarrow> cel_program option \<Rightarrow> gomap \<Rightarrow> string res option" where
  "evaluateSubjectMapping mapping program claims =
     (if ce_Claim mapping \<noteq> [] then
        Some (case map_of claims (ce_Claim mapping) of
                None \<Rightarrow> Err (Errorf ''subject claim %q not found in token'' [ce_Claim mapping])
              | Some (JStr s) \<Rightarrow> Ok s
              | Some _ \<Rightarrow> Err (Errorf ''subject claim %q is not a string'' [ce_Claim mapping]))
      else
        (case program of
           None \<Rightarrow> Some (Err (Errorf ''no subject mapping configured'' []))
         | Some prg \<Rightarrow>
             (case prg (claims_activation claims) of
                Inl e \<Rightarrow> Some (Err (Wrapf ''evaluating subject mapping: %w'' [] e))
              | Inr out \<Rightarrow> map_option Ok (go_string out))))"

fun compile_mappings_from :: "cel_env \<Rightarrow> nat \<Rightarrow> ExtraMapping list \<Rightarrow> compiledMapping list res" where
  "compile_mappings_from env i [] = Ok []"
| "compile_mappings_from env i (m # ms) =
     bindr (env (em_ValueExpression m))
       (Wrapf ''compiling extra mapping %d (%q): %w'' [string_of_nat i, em_ValueExpression m]) (\<lambda>ast.
     bindr (Program ast) (Wrapf ''creating program for extra mapping %d: %w'' [string_of_nat i]) (\<lambda>prg.
     bindr (compile_mappings_from env (Suc i) ms) id (\<lambda>cs.
     Ok (\<lparr>cp_program = prg, cp_key = em_Key m\<rparr> # cs))))"

definition compileExtraMappings :: "cel_env \<Rightarrow> ExtraMapping list \<Rightarrow> compiledMapping list res" where
  "compileExtraMappings env mappings = compile_mappings_from env 0 mappings"

definition refValueToString :: "cel_val \<Rightarrow> string" where
  "refValueToString v = (case v of CelString s \<Rightarrow> s | _ \<Rightarrow> value_text v)"

fun extra_mappings_into ::
  "(string \<times> string) list \<Rightarrow> compiledMapping list \<Rightarrow> gomap \<Rightarrow> (string \<times> string) list res" where
  "extra_mappings_into extra [] claims = Ok extra"
| "extra_mappings_into extra (m # ms) claims =
     bindr (cp_program m (claims_activation claims)) (Wrapf ''evaluating extra mapping %q: %w'' [cp_key m]) (\<lambda>out.
     extra_mappings_into (mput (cp_key m) (refValueToString out) extra) ms claims)"

definition evaluateExtraMappings :: "compiledMapping list \<Rightarrow> gomap \<Rightarrow> (string \<times> string) list res" where
  "evaluateExtraMappings mappings claims = extra_mappings_into [] mappings claims"

subsection \<open>The OIDC authenticator\<close>

record OIDCAuthenticator =
  oa_config :: AuthenticatorConfig
  oa_issuerURL :: string
  oa_discoveryURL :: string
  oa_audiences :: "(string \<times> bool) list"
  oa_matchAny :: bool
  oa_validationRules :: "compiledRule list"
  oa_subjectProgram :: "cel_program option"
  oa_extraMappings :: "compiledMapping list"
  oa_jwksURL :: string
  oa_keys :: "(string \<times> rsa_public) list"

definition NewOIDCAuthenticator :: "cel_NewEnv \<Rightarrow> AuthenticatorConfig \<Rightarrow> OIDCAuthenticator res" where
  "NewOIDCAuthenticator NewEnv config =
     bindr (newCELEnv NewEnv) (Wrapf ''creating CEL environment: %w'' []) (\<lambda>env.
     bindr (compileValidationRules env (ac_ClaimValidationRules config)) (Wrapf ''compiling validation rules: %w'' []) (\<lambda>rules.
     bindr (compileSubjectMapping env (cm_Subject (ac_ClaimMappings config))) (Wrapf ''compiling subject mapping: %w'' []) (\<lambda>subj.
     bindr (compileExtraMappings env (cm_Extra (ac_ClaimMappings config))) (Wrapf ''compiling extra mappings: %w'' []) (\<lambda>extra.
     let iss = ac_Issuer config;
         audiences = mput_all (map (\<lambda>a. (a, True)) (ic_Audiences iss)) [];
         discoveryURL = (if ic_DiscoveryURL iss = [] then TrimSuffix (ic_URL iss) ''/'' @ ''/.well-known/openid-configuration''
                         else ic_DiscoveryURL iss)
     in Ok \<lparr>oa_config = config, oa_issuerURL = ic_URL iss, oa_discoveryURL = discoveryURL, oa_audiences = audiences,
            oa_matchAny = (ic_AudienceMatchPolicy iss = ''MatchAny'' \<or> length (ic_Audiences iss) = 1),
            oa_validationRules = rules, oa_subjectProgram = subj, oa_extraMappings = extra,
            oa_jwksURL = [], oa_keys = []\<rparr>))))"

definition oidc_Matches :: "OIDCAuthenticator \<Rightarrow> string \<Rightarrow> bool" where
  "oidc_Matches a iss \<longleftrightarrow> iss = oa_issuerURL a"

definition SetJWKSURL :: "string \<Rightarrow> OIDCAuthenticator \<Rightarrow> OIDCAuthenticator" where
  "SetJWKSURL url a = a\<lparr>oa_jwksURL := url\<rparr>"

definition discoverJWKSURL :: "http_get \<Rightarrow> OIDCAuthenticator \<Rightarrow> string res" where
  "discoverJWKSURL Get a =
     bindr (Get (oa_discoveryURL a)) (Wrapf ''fetching OIDC discovery from %s: %w'' [oa_discoveryURL a]) (\<lambda>resp.
     if rs_Status resp \<noteq> StatusOK
       then Err (Errorf ''OIDC discovery endpoint returned status %d'' [string_of_nat (rs_Status resp)])
     else
       bindr (bindr (json_Decode (body_bytes (\<lambda>_. []) (rs_Body resp))) id (\<lambda>v.
              bindr (struct_members v) id (\<lambda>ms.
              bindr (string_field ''issuer'' ms) id (\<lambda>iss.
              bindr (string_field ''jwks_uri'' ms) id (\<lambda>uri. Ok (iss, uri))))))
         (Wrapf ''decoding OIDC discovery: %w'' []) (\<lambda>(iss, uri).
       if iss \<noteq> oa_issuerURL a
         then Err (Errorf ''OIDC discovery issuer %q does not match configured issuer %q'' [iss, oa_issuerURL a])
       else if uri = [] then Err (Errorf ''OIDC discovery document has no jwks_uri'' [])
       else Ok uri))"

record jwkKey = jwk + jwk_Alg :: string

definition decode_jwkKey :: "json \<Rightarrow> jwkKey res" where
  "decode_jwkKey v =
     bindr (struct_members v) id (\<lambda>ms.
     bindr (string_field ''kty'' ms) id (\<lambda>kty.
     bindr (string_field ''use'' ms) id (\<lambda>use.
     bindr (string_field ''kid'' ms) id (\<lambda>k.
     bindr (string_field ''alg'' ms) id (\<lambda>alg.
     bindr (string_field ''n'' ms) id (\<lambda>n.
     bindr (string_field ''e'' ms) id (\<lambda>e.
     Ok \<lparr>jwk_Kty = kty, jwk_Use = use, jwk_Kid = k, jwk_N = n, jwk_E = e, jwk_Alg = alg\<rparr>)))))))"

fun decode_jwkKeys :: "json list \<Rightarrow> jwkKey list res" where
  "decode_jwkKeys [] = Ok []"
| "decode_jwkKeys (v # vs) =
     bindr (decode_jwkKey v) id (\<lambda>k. bindr (decode_jwkKeys vs) id (\<lambda>ks. Ok (k # ks)))"

definition decode_jwksResponse :: "string \<Rightarrow> jwkKey list res" where
  "decode_jwksResponse body =
     bindr (json_Decode body) id (\<lambda>v.
     bindr (struct_members v) id (\<lambda>ms.
     bindr (array_field ''keys'' ms) id decode_jwkKeys))"

definition jwkToRSAPublicKey :: "jwkKey \<Rightarrow> rsa_public res" where
  "jwkToRSAPublicKey k =
     bindr (base64_DecodeString (jwk_N k)) (Wrapf ''decoding modulus: %w'' []) (\<lambda>nBytes.
     bindr (base64_DecodeString (jwk_E k)) (Wrapf ''decoding exponent: %w'' []) (\<lambda>eBytes.
     Ok \<lparr>rsa_N = big_SetBytes nBytes, rsa_E = big_Int64 (big_SetBytes eBytes)\<rparr>))"

fun oidc_cache :: "jwkKey list \<Rightarrow> (string \<times> rsa_public) list \<Rightarrow> (string \<times> rsa_public) list" where
  "oidc_cache [] keys = keys"
| "oidc_cache (k # ks) keys =
     (if jwk_Kty k \<noteq> ''RSA'' \<or> jwk_Use k \<noteq> ''sig'' then oidc_cache ks keys
      else
        (case jwkToRSAPublicKey k of
           Inl _ \<Rightarrow> oidc_cache ks keys
         | Inr pub \<Rightarrow> oidc_cache ks (mput (jwk_Kid k) pub keys)))"

definition oidc_fetch_from :: "http_get \<Rightarrow> string \<Rightarrow> OIDCAuthenticator \<Rightarrow> error option \<times> OIDCAuthenticator" where
  "oidc_fetch_from Get jwksURL a =
     (case Get jwksURL of
        Inl e \<Rightarrow> (Some (Wrapf ''fetching JWKS from %s: %w'' [jwksURL] e), a)
      | Inr resp \<Rightarrow>
          if rs_Status resp \<noteq> StatusOK
            then (Some (Errorf ''JWKS endpoint returned status %d'' [string_of_nat (rs_Status resp)]), a)
          else
            (case decode_jwksResponse (body_bytes (\<lambda>_. []) (rs_Body resp)) of
               Inl e \<Rightarrow> (Some (Wrapf ''decoding JWKS: %w'' [] e), a)
             | Inr ks \<Rightarrow> (None, a\<lparr>oa_keys := oidc_cache ks (oa_keys a)\<rparr>)))"

definition oidc_fetchJWKS :: "http_get \<Rightarrow> OIDCAuthenticator \<Rightarrow> error option \<times> OIDCAuthenticator" where
  "oidc_fetchJWKS Get a =
     (if oa_jwksURL a = [] then
        (case discoverJWKSURL Get a of
           Inl e \<Rightarrow> (Some e, a)
         | Inr url \<Rightarrow> oidc_fetch_from Get url (a\<lparr>oa_jwksURL := url\<rparr>))
      else oidc_fetch_from Get (oa_jwksURL a) a)"

definition oidc_keyFunc :: "http_get \<Rightarrow> OIDCAuthenticator jwt_keyfunc" where
  "oidc_keyFunc Get t a =
     (if \<not> is_rsa (jwt_Method t) then (Err (Errorf ''unexpected signing method: %v'' [fmt_alg t]), a)
      else
        (case map_of (jwt_Header t) ''kid'' of
           Some (JStr k) \<Rightarrow>
             (case map_of (oa_keys a) k of
                Some key \<Rightarrow> (Ok key, a)
              | None \<Rightarrow>
                  (case oidc_fetchJWKS Get a of
                     (Some e, a') \<Rightarrow> (Err (Wrapf ''fetching JWKS: %w'' [] e), a')
                   | (None, a') \<Rightarrow>
                       (case map_of (oa_keys a') k of
                          None \<Rightarrow> (Err (Errorf ''key %q not found in JWKS'' [k]), a')
                        | Some key \<Rightarrow> (Ok key, a'))))
         | _ \<Rightarrow> (Err (Errorf ''missing kid in token header'' []), a)))"

definition validateAudience :: "OIDCAuthenticator \<Rightarrow> gomap \<Rightarrow> error option" where
  "validateAudience a claims =
     (case GetAudience claims of
        Inl e \<Rightarrow> Some (Wrapf ''getting audience: %w'' [] e)
      | Inr aud \<Rightarrow>
          if list_ex (\<lambda>tokenAud. map_of (oa_audiences a) tokenAud = Some True) aud then None
          else Some (Errorf ''token audience %v does not match any configured audience'' aud))"

definition oidc_subject_info :: "OIDCAuthenticator \<Rightarrow> gomap \<Rightarrow> SubjectInfo res option" where
  "oidc_subject_info a claims =
     (case validateAudience a claims of
        Some e \<Rightarrow> Some (Err e)
      | None \<Rightarrow>
          (case evaluateValidationRules (oa_validationRules a) claims of
             Some e \<Rightarrow> Some (Err e)
           | None \<Rightarrow>
               (case evaluateSubjectMapping (cm_Subject (ac_ClaimMappings (oa_config a))) (oa_subjectProgram a) claims of
                  None \<Rightarrow> None
                | Some r \<Rightarrow> Some (
                    bindr r (Wrapf ''extracting subject: %w'' []) (\<lambda>subject.
                    bindr (evaluateExtraMappings (oa_extraMappings a) claims) (Wrapf ''extracting extra mappings: %w'' []) (\<lambda>extra.
                    Ok \<lparr>si_Subject = subject, si_Extra = extra\<rparr>))))))"

definition oidc_Authenticate ::
  "OIDCAuthenticator jwt_parse \<Rightarrow> http_get \<Rightarrow> int \<Rightarrow> string \<Rightarrow> OIDCAuthenticator \<Rightarrow> SubjectInfo res option \<times> OIDCAuthenticator" where
  "oidc_Authenticate Parse Get now tok a =
     (case Parse tok (oidc_keyFunc Get) [WithIssuer (oa_issuerURL a)] now a of
        (Inl e, a') \<Rightarrow> (Some (Err (Wrapf ''parsing/verifying token: %w'' [] e)), a')
      | (Inr t, a') \<Rightarrow> (oidc_subject_info a' (jwt_Claims t), a'))"

subsection \<open>The router\<close>

definition extractIssuer :: "string \<Rightarrow> string res" where
  "extractIssuer tok =
     (case Split tok CHR ''.'' of
        [_, p, _] \<Rightarrow>
          bindr (base64_DecodeString p) (Wrapf ''decoding JWT payload: %w'' []) (\<lambda>payload.
          bindr (bindr (json_parse payload) id (\<lambda>v. bindr (struct_members v) id (string_field ''iss'')))
            (Wrapf ''parsing JWT payload: %w'' []) (\<lambda>iss.
          if iss = [] then Err (Errorf ''token has no iss claim'' []) else Ok iss))
      | parts \<Rightarrow> Err (Errorf ''invalid JWT: expected 3 parts, got %d'' [string_of_nat (length parts)]))"

fun route ::
  "('a \<Rightarrow> string \<Rightarrow> bool) \<Rightarrow> (string \<Rightarrow> 'a \<Rightarrow> SubjectInfo res option \<times> 'a) \<Rightarrow> string \<Rightarrow> string \<Rightarrow> 'a list \<Rightarrow>
     SubjectInfo res option \<times> 'a list" where
  "route Mat Auth iss tok [] = (Some (Err (Errorf ''no authenticator found for issuer %q'' [iss])), [])"
| "route Mat Auth iss tok (a # as) =
     (if Mat a iss then (let (r, a') = Auth tok a in (r, a' # as))
      else (let (r, as') = route Mat Auth iss tok as in (r, a # as')))"

definition router_Authenticate ::
  "('a \<Rightarrow> string \<Rightarrow> bool) \<Rightarrow> (string \<Rightarrow> 'a \<Rightarrow> SubjectInfo res option \<times> 'a) \<Rightarrow> string \<Rightarrow> 'a list \<Rightarrow>
     SubjectInfo res option \<times> 'a list" where
  "router_Authenticate Mat Auth tok as =
     (case extractIssuer tok of
        Inl e \<Rightarrow> (Some (Err (Wrapf ''extracting issuer from token: %w'' [] e)), as)
      | Inr iss \<Rightarrow> route Mat Auth iss tok as)"

subsection \<open>Lemmas: rules and mappings\<close>

interpretation vr: rule_evaluator evaluateValidationRules validation_verdict
  by unfold_locales simp_all

lemma validation_verdict_None_iff:
  "validation_verdict r claims = None \<longleftrightarrow> cr_program r (claims_activation claims) = Inr (CelBool True)"
  by (auto simp: validation_verdict_def split: sum.splits cel_val.splits)

lemma evaluateValidationRules_None_iff:
  "evaluateValidationRules rs claims = None \<longleftrightarrow>
     (\<forall>r\<in>set rs. cr_program r (claims_activation claims) = Inr (CelBool True))"
  by (simp add: vr.accept_iff validation_verdict_None_iff)

lemma evaluateSubjectMapping_claim:
  "ce_Claim m \<noteq> [] \<Longrightarrow> evaluateSubjectMapping m prg claims = Some (Inr s) \<longleftrightarrow> map_of claims (ce_Claim m) = Some (JStr s)"
  by (auto simp: evaluateSubjectMapping_def split: option.splits json.splits)

lemma evaluateSubjectMapping_panic_iff:
  "evaluateSubjectMapping m prg claims = None \<longleftrightarrow>
     ce_Claim m = [] \<and> (\<exists>p v. prg = Some p \<and> p (claims_activation claims) = Inr v \<and> go_string v = None)"
  by (auto simp: evaluateSubjectMapping_def split: option.splits sum.splits)

lemma map_of_True_list:
  "map_of (mput_all (map (\<lambda>a. (a, True)) as) m) x = (if x \<in> set as then Some True else map_of m x)"
  by (induction as arbitrary: m) auto

subsection \<open>Lemmas: the OIDC authenticator\<close>

text \<open>Fetching keys changes only the key cache and the discovered URL.\<close>

definition same_config :: "OIDCAuthenticator \<Rightarrow> OIDCAuthenticator \<Rightarrow> bool" where
  "same_config a b \<longleftrightarrow>
     oa_config b = oa_config a \<and> oa_issuerURL b = oa_issuerURL a \<and> oa_discoveryURL b = oa_discoveryURL a \<and>
     oa_audiences b = oa_audiences a \<and> oa_matchAny b = oa_matchAny a \<and>
     oa_validationRules b = oa_validationRules a \<and> oa_subjectProgram b = oa_subjectProgram a \<and>
     oa_extraMappings b = oa_extraMappings a"

lemma same_config_refl [simp]: "same_config a a"
  by (simp add: same_config_def)

lemma same_config_update [simp]:
  "same_config a (b\<lparr>oa_keys := ks\<rparr>) \<longleftrightarrow> same_config a b"
  "same_config a (b\<lparr>oa_jwksURL := u\<rparr>) \<longleftrightarrow> same_config a b"
  by (simp_all add: same_config_def)

lemma oidc_fetchJWKS_config: "same_config a (snd (oidc_fetchJWKS Get a))"
  by (auto simp: oidc_fetchJWKS_def oidc_fetch_from_def split: sum.splits)

lemma oidc_keyFunc_config: "same_config a (snd (oidc_keyFunc Get t a))"
  using oidc_fetchJWKS_config [of a Get]
  by (auto simp: oidc_keyFunc_def split: option.splits json.splits prod.splits)

lemma oidc_subject_info_config:
  "same_config a b \<Longrightarrow> oidc_subject_info b claims = oidc_subject_info a claims"
  unfolding oidc_subject_info_def validateAudience_def same_config_def by (elim conjE) (simp only:)

lemma oidc_Authenticate_config:
  assumes "jwt_Parse_spec Parse decode sig_ok"
  shows "same_config a (snd (oidc_Authenticate Parse Get now tok a))"
proof -
  have "snd (Parse tok (oidc_keyFunc Get) [WithIssuer (oa_issuerURL a)] now a) =
      (case decode tok of None \<Rightarrow> a | Some t \<Rightarrow> snd (oidc_keyFunc Get t a))"
    using assms unfolding jwt_Parse_spec_def by blast
  then have "same_config a (snd (Parse tok (oidc_keyFunc Get) [WithIssuer (oa_issuerURL a)] now a))"
    by (simp add: oidc_keyFunc_config split: option.splits)
  then show ?thesis
    by (cases "Parse tok (oidc_keyFunc Get) [WithIssuer (oa_issuerURL a)] now a")
      (simp add: oidc_Authenticate_def split: sum.splits)
qed

text \<open>A known key is never forgotten: a fetch adds keys and replaces those of the same id.\<close>

lemma oidc_cache_dom: "dom (map_of keys) \<subseteq> dom (map_of (oidc_cache ks keys))"
proof (induction ks arbitrary: keys)
  case (Cons k ks)
  have "dom (map_of keys) \<subseteq> dom (map_of (oidc_cache ks (mput x v keys)))" for x v
    using Cons.IH [of "mput x v keys"] by (auto simp flip: fun_upd_def)
  then show ?case using Cons by (auto split: sum.splits)
qed simp

text \<open>When the OIDC authenticator accepts a token.\<close>

definition oidc_accepts ::
  "(string \<Rightarrow> jwt_token option) \<Rightarrow> (string \<Rightarrow> rsa_public \<Rightarrow> bool) \<Rightarrow> http_get \<Rightarrow> int \<Rightarrow> string \<Rightarrow> OIDCAuthenticator \<Rightarrow> SubjectInfo \<Rightarrow> bool" where
  "oidc_accepts decode sig_ok Get now tok a info \<longleftrightarrow>
     (\<exists>t k. decode tok = Some t \<and> fst (oidc_keyFunc Get t a) = Inr k \<and> sig_ok tok k \<and>
        claims_valid [WithIssuer (oa_issuerURL a)] now (jwt_Claims t) \<and>
        (\<exists>aud. GetAudience (jwt_Claims t) = Inr aud \<and> (\<exists>x\<in>set aud. map_of (oa_audiences a) x = Some True)) \<and>
        (\<forall>r\<in>set (oa_validationRules a). cr_program r (claims_activation (jwt_Claims t)) = Inr (CelBool True)) \<and>
        evaluateSubjectMapping (cm_Subject (ac_ClaimMappings (oa_config a))) (oa_subjectProgram a) (jwt_Claims t) =
          Some (Inr (si_Subject info)) \<and>
        evaluateExtraMappings (oa_extraMappings a) (jwt_Claims t) = Inr (si_Extra info))"

lemma validateAudience_None_iff:
  "validateAudience a claims = None \<longleftrightarrow>
     (\<exists>aud. GetAudience claims = Inr aud \<and> (\<exists>x\<in>set aud. map_of (oa_audiences a) x = Some True))"
  by (auto simp: validateAudience_def list_ex_iff split: sum.splits)

lemma oidc_subject_info_Ok_iff:
  "oidc_subject_info a claims = Some (Inr info) \<longleftrightarrow>
     validateAudience a claims = None \<and> evaluateValidationRules (oa_validationRules a) claims = None \<and>
     evaluateSubjectMapping (cm_Subject (ac_ClaimMappings (oa_config a))) (oa_subjectProgram a) claims =
       Some (Inr (si_Subject info)) \<and>
     evaluateExtraMappings (oa_extraMappings a) claims = Inr (si_Extra info)"
  by (cases info) (auto simp: oidc_subject_info_def bindr_Ok_iff split: option.splits)

lemma oidc_Authenticate_Ok_iff:
  assumes spec: "jwt_Parse_spec Parse decode sig_ok"
  shows "fst (oidc_Authenticate Parse Get now tok a) = Some (Inr info) \<longleftrightarrow>
    oidc_accepts decode sig_ok Get now tok a info"
proof -
  let ?P = "Parse tok (oidc_keyFunc Get) [WithIssuer (oa_issuerURL a)] now a"
  have *: "fst (oidc_Authenticate Parse Get now tok a) = Some (Inr info) \<longleftrightarrow>
      (\<exists>t a'. ?P = (Inr t, a') \<and> oidc_subject_info a (jwt_Claims t) = Some (Inr info))"
  proof -
    have "oidc_subject_info a' c = oidc_subject_info a c" if "?P = (Inr t, a')" for t a' c
      using oidc_Authenticate_config [OF spec, of a Get now tok] that
      by (intro oidc_subject_info_config) (simp add: oidc_Authenticate_def)
    then show ?thesis by (auto simp: oidc_Authenticate_def split: prod.splits sum.splits)
  qed
  have "?P = (Inr t, a') \<longleftrightarrow> decode tok = Some t \<and> claims_valid [WithIssuer (oa_issuerURL a)] now (jwt_Claims t) \<and>
      (\<exists>k. oidc_keyFunc Get t a = (Inr k, a') \<and> sig_ok tok k)" for t a'
    using spec unfolding jwt_Parse_spec_def by blast
  then have "(\<exists>a'. ?P = (Inr t, a')) \<longleftrightarrow> decode tok = Some t \<and> claims_valid [WithIssuer (oa_issuerURL a)] now (jwt_Claims t) \<and>
      (\<exists>k. fst (oidc_keyFunc Get t a) = Inr k \<and> sig_ok tok k)" for t
    by (cases "oidc_keyFunc Get t a") auto
  then show ?thesis
    unfolding * oidc_accepts_def oidc_subject_info_Ok_iff validateAudience_None_iff evaluateValidationRules_None_iff
    by blast
qed

subsection \<open>The contract of an authenticator\<close>

text \<open>
  The router relies on one law: authenticating does not change which issuers an authenticator handles. Then a
  request is decided by the first authenticator for the issuer of the token, and only that one changes.
\<close>

locale authenticator =
  fixes Mat :: "'a \<Rightarrow> string \<Rightarrow> bool"
    and Auth :: "string \<Rightarrow> 'a \<Rightarrow> SubjectInfo res option \<times> 'a"
  assumes matches_stable: "Mat (snd (Auth tok a)) = Mat a"
begin

lemma route_first:
  "\<forall>x\<in>set xs. \<not> Mat x iss \<Longrightarrow> Mat a iss \<Longrightarrow>
     route Mat Auth iss tok (xs @ a # ys) = (fst (Auth tok a), xs @ snd (Auth tok a) # ys)"
  by (induction xs) (auto simp: split_beta)

lemma route_none:
  "\<forall>x\<in>set as. \<not> Mat x iss \<Longrightarrow>
     route Mat Auth iss tok as = (Some (Inl (Errorf ''no authenticator found for issuer %q'' [iss])), as)"
  by (induction as) (auto simp: split_beta)

lemma route_matches: "map Mat (snd (route Mat Auth iss tok as)) = map Mat as"
  by (induction as) (auto simp: split_beta matches_stable)

lemma router_matches: "map Mat (snd (router_Authenticate Mat Auth tok as)) = map Mat as"
  by (simp add: router_Authenticate_def route_matches split: sum.splits)

lemma router_accepts_iff:
  "fst (router_Authenticate Mat Auth tok as) = Some (Inr info) \<longleftrightarrow>
     (\<exists>iss xs a ys. extractIssuer tok = Inr iss \<and> as = xs @ a # ys \<and> (\<forall>x\<in>set xs. \<not> Mat x iss) \<and> Mat a iss \<and>
        fst (Auth tok a) = Some (Inr info))" (is "?l \<longleftrightarrow> ?r")
proof
  assume ?l
  then obtain iss where iss: "extractIssuer tok = Inr iss" and l: "fst (route Mat Auth iss tok as) = Some (Inr info)"
    by (auto simp: router_Authenticate_def split: sum.splits)
  then have "\<exists>x\<in>set as. Mat x iss" using route_none [of as iss tok] by fastforce
  then obtain xs a ys where as: "as = xs @ a # ys" "Mat a iss" "\<forall>x\<in>set xs. \<not> Mat x iss"
    using split_list_first_prop [of as "\<lambda>x. Mat x iss"] by metis
  moreover have "fst (Auth tok a) = Some (Inr info)" using l route_first [OF as(3,2)] by (simp add: as(1))
  ultimately show ?r using iss by blast
next
  assume ?r
  then show ?l using route_first by (auto simp: router_Authenticate_def)
qed

end

lemma oidc_authenticator:
  assumes "jwt_Parse_spec Parse decode sig_ok"
  shows "authenticator oidc_Matches (oidc_Authenticate Parse Get now)"
proof
  fix tok a
  show "oidc_Matches (snd (oidc_Authenticate Parse Get now tok a)) = oidc_Matches a"
    using oidc_Authenticate_config [OF assms, of a Get now tok] by (simp add: oidc_Matches_def same_config_def fun_eq_iff)
qed

interpretation oa: authenticator oidc_Matches "oidc_Authenticate (ref_Parse decode sig_ok) Get now"
  for decode sig_ok Get now
  by (rule oidc_authenticator [OF ref_Parse_spec])

end
