(* ===== verification/TTS.thy ===== *)
theory TTS
  imports Authn Issuance GoTime
begin

text \<open>
  The transaction token service: configuration (\<open>pkg/tts/config.go\<close>), the token endpoint (\<open>handler.go\<close>) and the server
  that wires it to its routes (\<open>server.go\<close>).

  The handler holds pointers: the key manager is shared with the in-process verifier and the JWKS endpoint. The
  record \<open>Handler\<close> owns the manager, and a verifier is a function that is given the live manager at each call.
  What a request reads from outside (clock, fresh UUID, signing, HTTP, JWT parsing) is the record \<open>tts_env\<close>.
\<close>

subsection \<open>Configuration\<close>

record TokenDefaults =
  TokenLifetime :: string
  KeySize :: int

record Config =
  cfg_TrustDomain :: string
  cfg_Issuer :: string
  cfg_SubjectTokens :: "AuthenticatorConfig list"
  cfg_Defaults :: TokenDefaults

definition DefaultTokenLifetime :: "Config \<Rightarrow> duration" where
  "DefaultTokenLifetime c =
     (if TokenLifetime (cfg_Defaults c) = [] then 15 * int Second
      else
        (case ParseDuration (TokenLifetime (cfg_Defaults c)) of
           Inl _ \<Rightarrow> 15 * int Second
         | Inr d \<Rightarrow> d))"

definition DefaultKeySize :: "Config \<Rightarrow> int" where
  "DefaultKeySize c = (if KeySize (cfg_Defaults c) = 0 then 2048 else KeySize (cfg_Defaults c))"

definition Config_Validate :: "Config \<Rightarrow> error option" where
  "Config_Validate c =
     (if cfg_TrustDomain c = [] then Some (Errorf ''trustDomain is required'' [])
      else if cfg_Issuer c = [] then Some (Errorf ''issuer is required'' [])
      else None)"

text \<open>\<open>LoadConfig\<close>, with reading the file and decoding YAML as parameters.\<close>

definition LoadConfig :: "(string \<Rightarrow> string res) \<Rightarrow> (string \<Rightarrow> Config res) \<Rightarrow> string \<Rightarrow> Config res" where
  "LoadConfig ReadFile yaml_Unmarshal path =
     bindr (ReadFile path) (Wrapf ''reading config file: %w'' []) (\<lambda>data.
     bindr (yaml_Unmarshal data) (Wrapf ''parsing config file: %w'' []) (\<lambda>cfg.
     case Config_Validate cfg of
       Some e \<Rightarrow> Err (Wrapf ''invalid config: %w'' [] e)
     | None \<Rightarrow> Ok cfg))"

subsection \<open>The token endpoint\<close>

record tts_env =
  te_now :: int
  te_uuid :: string
  te_sign :: jwt_signer
  te_Get :: http_get
  te_Parse :: "OIDCAuthenticator jwt_parse"

type_synonym token_verify = "Manager \<Rightarrow> int \<Rightarrow> string \<Rightarrow> Claims res"

record Handler =
  h_router :: "OIDCAuthenticator list"
  h_keyManager :: Manager
  h_verifier :: "token_verify option"
  h_issuer :: string
  h_trustDomain :: string
  h_lifetime :: duration
  h_issuanceRules :: "IssuanceRule list option"

definition NewHandler :: "OIDCAuthenticator list \<Rightarrow> Manager \<Rightarrow> string \<Rightarrow> string \<Rightarrow> duration \<Rightarrow> Handler" where
  "NewHandler router km issuer trustDomain l =
     \<lparr>h_router = router, h_keyManager = km, h_verifier = None, h_issuer = issuer, h_trustDomain = trustDomain,
      h_lifetime = l, h_issuanceRules = None\<rparr>"

definition SetVerifier :: "token_verify \<Rightarrow> Handler \<Rightarrow> Handler" where
  "SetVerifier v h = h\<lparr>h_verifier := Some v\<rparr>"

definition SetIssuanceRules :: "IssuanceRule list \<Rightarrow> Handler \<Rightarrow> Handler" where
  "SetIssuanceRules rules h = h\<lparr>h_issuanceRules := Some rules\<rparr>"

definition loadIssuanceRules :: "Handler \<Rightarrow> IssuanceRule list" where
  "loadIssuanceRules h = (case h_issuanceRules h of Some rs \<Rightarrow> rs | None \<Rightarrow> [])"

record TokenExchangeRequest =
  xr_GrantType :: string
  xr_SubjectToken :: string
  xr_SubjectTokenType :: string
  xr_RequestedTokenType :: string
  xr_Audience :: string
  xr_Scope :: string
  xr_RequestDetails :: "gomap option"
  xr_RequestContext :: "gomap option"

definition TokenExchangeResponse :: "string \<Rightarrow> string \<Rightarrow> string \<Rightarrow> json" where
  "TokenExchangeResponse access issued typ =
     JObj [(''access_token'', JStr access), (''issued_token_type'', JStr issued), (''token_type'', JStr typ)]"

definition writeError :: "nat \<Rightarrow> string \<Rightarrow> error \<Rightarrow> response" where
  "writeError status errCode description =
     \<lparr>rs_Status = status, rs_Header = [(''Content-Type'', [''application/json''])],
      rs_Body = OAuthError errCode description\<rparr>"

definition parse_context :: "string \<Rightarrow> string \<Rightarrow> gomap option res" where
  "parse_context msg text =
     (if text = [] then Ok None else bindr (json_Unmarshal_map text) (Wrapf msg []) Ok)"

definition parseRequest :: "Values \<Rightarrow> TokenExchangeRequest res" where
  "parseRequest form =
     (let grantType = FormValue form ''grant_type'';
          subjectToken = FormValue form ''subject_token'';
          subjectTokenType = FormValue form ''subject_token_type'';
          requestedTokenType = FormValue form ''requested_token_type'';
          scope = FormValue form ''scope''
      in if grantType \<noteq> GrantType then Err (Errorf ''unsupported grant_type: %s'' [grantType])
         else if subjectToken = [] then Err (Errorf ''subject_token is required'' [])
         else if subjectTokenType = [] then Err (Errorf ''subject_token_type is required'' [])
         else if requestedTokenType \<noteq> RequestedTokenType
           then Err (Errorf ''unsupported requested_token_type: %s'' [requestedTokenType])
         else if scope = [] then Err (Errorf ''scope is required'' [])
         else
           bindr (parse_context ''invalid request_details JSON: %w'' (FormValue form ''request_details'')) id (\<lambda>details.
           bindr (parse_context ''invalid request_context JSON: %w'' (FormValue form ''request_context'')) id (\<lambda>ctx.
           Ok \<lparr>xr_GrantType = grantType, xr_SubjectToken = subjectToken, xr_SubjectTokenType = subjectTokenType,
               xr_RequestedTokenType = requestedTokenType, xr_Audience = FormValue form ''audience'',
               xr_Scope = scope, xr_RequestDetails = details, xr_RequestContext = ctx\<rparr>)))"

definition identifyWorkload :: "request \<Rightarrow> string" where
  "identifyWorkload r =
     (let wl = Values_Get (rq_Header r) ''X-Kontxt-Workload'' in
      if wl \<noteq> [] then wl
      else if HasPrefix (Values_Get (rq_Header r) ''Authorization'') ''Bearer '' then ''authenticated-workload''
      else ''unknown'')"

definition isScopeSubset :: "string \<Rightarrow> string \<Rightarrow> bool" where
  "isScopeSubset requested existing =
     (let existingScopes = mput_all (map (\<lambda>s. (s, True)) (Fields existing)) []
      in list_all (\<lambda>s. map_of existingScopes s = Some True) (Fields requested))"

definition signAndRespond :: "tts_env \<Rightarrow> Handler \<Rightarrow> Claims \<Rightarrow> response" where
  "signAndRespond env h claims =
     (let (signingKey, k) = SigningKey (h_keyManager h)
      in case token_New (te_sign env) (te_uuid env) (te_now env) claims signingKey k (h_lifetime h) of
           Inl _ \<Rightarrow> writeError StatusInternalServerError ''server_error''
                     (Errorf ''failed to create transaction token'' [])
         | Inr txToken \<Rightarrow>
             \<lparr>rs_Status = StatusOK,
              rs_Header = [(''Cache-Control'', [''no-store'']), (''Content-Type'', [''application/json''])],
              rs_Body = Bytes (json_Encode (TokenExchangeResponse txToken RequestedTokenType ''N_A''))\<rparr>)"

definition replacement_claims :: "Handler \<Rightarrow> request \<Rightarrow> TokenExchangeRequest \<Rightarrow> Claims \<Rightarrow> Claims" where
  "replacement_claims h r req existing =
     empty_claims\<lparr>Issuer := h_issuer h, Audience := h_trustDomain h, TransactionID := TransactionID existing,
       Subject := Subject existing, Scope := xr_Scope req, RequestingWorkload := identifyWorkload r,
       TransactionContext := TransactionContext existing, RequesterContext := RequesterContext existing\<rparr>"

definition handleReplacement :: "tts_env \<Rightarrow> Handler \<Rightarrow> request \<Rightarrow> TokenExchangeRequest \<Rightarrow> response" where
  "handleReplacement env h r req =
     (case h_verifier h of
        None \<Rightarrow> writeError StatusInternalServerError ''server_error''
                 (Errorf ''token replacement not configured (no verifier)'' [])
      | Some verify \<Rightarrow>
          (case verify (h_keyManager h) (te_now env) (xr_SubjectToken req) of
             Inl e \<Rightarrow> writeError StatusUnauthorized ''invalid_token''
                       (Wrapf ''existing TxToken verification failed: %v'' [] e)
           | Inr existing \<Rightarrow>
               if \<not> isScopeSubset (xr_Scope req) (Scope existing)
                 then writeError StatusForbidden ''invalid_scope''
                   (Errorf ''requested scope %q is not a subset of existing scope %q'' [xr_Scope req, Scope existing])
               else signAndRespond env h (replacement_claims h r req existing)))"

definition issuance_context :: "request \<Rightarrow> TokenExchangeRequest \<Rightarrow> SubjectInfo \<Rightarrow> IssuanceContext" where
  "issuance_context r req info =
     \<lparr>ix_Subject = si_Subject info, ix_Scope = xr_Scope req, ix_Tctx = xr_RequestDetails req,
      ix_Rctx = xr_RequestContext req, ix_Workload = identifyWorkload r, ix_WorkloadNS = []\<rparr>"

definition new_claims :: "Handler \<Rightarrow> request \<Rightarrow> TokenExchangeRequest \<Rightarrow> SubjectInfo \<Rightarrow> Claims" where
  "new_claims h r req info =
     empty_claims\<lparr>Issuer := h_issuer h, Audience := h_trustDomain h, Subject := si_Subject info,
       Scope := xr_Scope req, RequestingWorkload := identifyWorkload r,
       TransactionContext := xr_RequestDetails req, RequesterContext := xr_RequestContext req\<rparr>"

definition handle_issuance :: "tts_env \<Rightarrow> Handler \<Rightarrow> request \<Rightarrow> TokenExchangeRequest \<Rightarrow> response option \<times> Handler" where
  "handle_issuance env h r req =
     (case router_Authenticate oidc_Matches (oidc_Authenticate (te_Parse env) (te_Get env) (te_now env))
             (xr_SubjectToken req) (h_router h) of
        (None, auths) \<Rightarrow> (None, h\<lparr>h_router := auths\<rparr>)
      | (Some (Inl e), auths) \<Rightarrow> (Some (writeError StatusUnauthorized ''invalid_token'' e), h\<lparr>h_router := auths\<rparr>)
      | (Some (Inr info), auths) \<Rightarrow>
          let h' = h\<lparr>h_router := auths\<rparr>; rules = loadIssuanceRules h in
          case (if 0 < length rules then EvaluateIssuanceRules rules (issuance_context r req info) else None) of
            Some e \<Rightarrow> (Some (writeError StatusForbidden ''policy_denied'' e), h')
          | None \<Rightarrow> (Some (signAndRespond env h' (new_claims h' r req info)), h'))"

text \<open>
  \<open>ServeHTTP\<close>: the response and the handler after it (authenticators may have cached keys). \<open>None\<close> is a panic, which
  \<open>net/http\<close> turns into an aborted connection.
\<close>

definition ServeHTTP :: "tts_env \<Rightarrow> Handler \<Rightarrow> request \<Rightarrow> response option \<times> Handler" where
  "ServeHTTP env h r =
     (if rq_Method r \<noteq> ''POST''
        then (Some (writeError StatusMethodNotAllowed ''invalid_request'' (Errorf ''method not allowed'' [])), h)
      else
        (case ParseForm r of
           Inl _ \<Rightarrow> (Some (writeError StatusBadRequest ''invalid_request'' (Errorf ''failed to parse form'' [])), h)
         | Inr form \<Rightarrow>
             (case parseRequest form of
                Inl e \<Rightarrow> (Some (writeError StatusBadRequest ''invalid_request'' e), h)
              | Inr req \<Rightarrow>
                  if xr_SubjectTokenType req = SubjectTokenTypeTxnToken
                    then (Some (handleReplacement env h r req), h)
                  else handle_issuance env h r req)))"

subsection \<open>The server\<close>

record 'w Server =
  sv_handler :: Handler
  sv_readyFn :: "('w \<Rightarrow> error option) option"

datatype endpoint = TokenEndpoint | JwksEndpoint | Healthz | Readyz

definition server_routes :: "(string \<times> string \<times> endpoint) list" where
  "server_routes =
     [(''POST'', ''/token_endpoint'', TokenEndpoint), (''GET'', ''/.well-known/jwks.json'', JwksEndpoint),
      (''GET'', ''/healthz'', Healthz), (''GET'', ''/readyz'', Readyz)]"

fun new_authenticators :: "cel_NewEnv \<Rightarrow> nat \<Rightarrow> AuthenticatorConfig list \<Rightarrow> OIDCAuthenticator list res" where
  "new_authenticators NewEnv i [] = Ok []"
| "new_authenticators NewEnv i (cfg # cfgs) =
     bindr (NewOIDCAuthenticator NewEnv cfg)
       (Wrapf ''creating authenticator %d (%s): %w'' [string_of_nat i, ic_URL (ac_Issuer cfg)]) (\<lambda>a.
     bindr (new_authenticators NewEnv (Suc i) cfgs) id (\<lambda>as. Ok (a # as)))"

definition NewServer ::
  "cel_NewEnv \<Rightarrow> 'r key_generator \<Rightarrow> unit jwt_parse \<Rightarrow> Config \<Rightarrow> 'r \<Rightarrow> 'w Server res \<times> 'r" where
  "NewServer NewEnv GenerateKey Parse cfg rand =
     (case NewManager GenerateKey (DefaultKeySize cfg) (DefaultTokenLifetime cfg) rand of
        (Inl e, rand') \<Rightarrow> (Err (Wrapf ''creating key manager: %w'' [] e), rand')
      | (Inr keyMgr, rand') \<Rightarrow>
          (bindr (new_authenticators NewEnv 0 (cfg_SubjectTokens cfg)) id (\<lambda>auths.
           Ok \<lparr>sv_handler = SetVerifier (\<lambda>km. local_Verify Parse (newLocalVerifier km (cfg_TrustDomain cfg)))
                 (NewHandler auths keyMgr (cfg_Issuer cfg) (cfg_TrustDomain cfg) (DefaultTokenLifetime cfg)),
               sv_readyFn = None\<rparr>), rand'))"

definition SetReadyCheck :: "('w \<Rightarrow> error option) option \<Rightarrow> 'w Server \<Rightarrow> 'w Server" where
  "SetReadyCheck f s = s\<lparr>sv_readyFn := f\<rparr>"

definition plain_ok :: "string \<Rightarrow> response" where
  "plain_ok s = \<lparr>rs_Status = StatusOK, rs_Header = [], rs_Body = Bytes s\<rparr>"

definition readyz :: "'w Server \<Rightarrow> 'w \<Rightarrow> response" where
  "readyz s w =
     (case sv_readyFn s of
        None \<Rightarrow> plain_ok ''ready''
      | Some f \<Rightarrow>
          (case f w of
             Some e \<Rightarrow> http_Error e StatusServiceUnavailable
           | None \<Rightarrow> plain_ok ''ready''))"

definition server_Serve :: "tts_env \<Rightarrow> 'w \<Rightarrow> 'w Server \<Rightarrow> request \<Rightarrow> response option \<times> 'w Server" where
  "server_Serve env w s r =
     (case mux_route server_routes r of
        Routed TokenEndpoint \<Rightarrow>
          (let (resp, h) = ServeHTTP env (sv_handler s) r in (resp, s\<lparr>sv_handler := h\<rparr>))
      | Routed JwksEndpoint \<Rightarrow> (Some (JWKSHandler (h_keyManager (sv_handler s)) r), s)
      | Routed Healthz \<Rightarrow> (Some (plain_ok ''ok''), s)
      | Routed Readyz \<Rightarrow> (Some (readyz s w), s)
      | Redirect p \<Rightarrow>
          (Some \<lparr>rs_Status = StatusMovedPermanently, rs_Header = [(''Location'', [p])], rs_Body = Bytes []\<rparr>, s)
      | NotAllowed \<Rightarrow> (Some (http_Error (LibError ''Method Not Allowed'') StatusMethodNotAllowed), s)
      | NotFound \<Rightarrow> (Some (http_Error (LibError ''404 page not found'') StatusNotFound), s))"

subsection \<open>Lemmas: scopes and requests\<close>

lemma isScopeSubset_iff: "isScopeSubset req ex \<longleftrightarrow> set (Fields req) \<subseteq> set (Fields ex)"
  by (auto simp: isScopeSubset_def map_of_True_list list_all_iff)

lemma isScopeSubset_trans: "isScopeSubset a b \<Longrightarrow> isScopeSubset b c \<Longrightarrow> isScopeSubset a c"
  by (auto simp: isScopeSubset_iff)

lemma identifyWorkload_nonempty [simp]: "identifyWorkload r \<noteq> []"
  by (simp add: identifyWorkload_def Let_def)

lemma parseRequest_Ok_iff:
  "parseRequest form = Inr req \<longleftrightarrow>
     FormValue form ''grant_type'' = GrantType \<and> FormValue form ''subject_token'' \<noteq> [] \<and>
     FormValue form ''subject_token_type'' \<noteq> [] \<and> FormValue form ''requested_token_type'' = RequestedTokenType \<and>
     FormValue form ''scope'' \<noteq> [] \<and>
     (\<exists>d c. parse_context ''invalid request_details JSON: %w'' (FormValue form ''request_details'') = Inr d \<and>
        parse_context ''invalid request_context JSON: %w'' (FormValue form ''request_context'') = Inr c \<and>
        req = \<lparr>xr_GrantType = GrantType, xr_SubjectToken = FormValue form ''subject_token'',
          xr_SubjectTokenType = FormValue form ''subject_token_type'', xr_RequestedTokenType = RequestedTokenType,
          xr_Audience = FormValue form ''audience'', xr_Scope = FormValue form ''scope'',
          xr_RequestDetails = d, xr_RequestContext = c\<rparr>)"
  by (auto simp: parseRequest_def Let_def bindr_Ok_iff)

lemma parse_context_Ok_cases:
  "parse_context msg text = Inr ctx \<longleftrightarrow> (if text = [] then ctx = None else json_Unmarshal_map text = Inr ctx)"
  by (auto simp: parse_context_def bindr_Ok_iff)

subsection \<open>Lemmas: responses\<close>

lemma writeError_status [simp]: "rs_Status (writeError n c e) = n"
  by (simp add: writeError_def)

definition token_response :: "string \<Rightarrow> response" where
  "token_response tok =
     \<lparr>rs_Status = StatusOK,
      rs_Header = [(''Cache-Control'', [''no-store'']), (''Content-Type'', [''application/json''])],
      rs_Body = Bytes (json_Encode (TokenExchangeResponse tok RequestedTokenType ''N_A''))\<rparr>"

definition issues :: "tts_env \<Rightarrow> Handler \<Rightarrow> Claims \<Rightarrow> string \<Rightarrow> bool" where
  "issues env h c tok \<longleftrightarrow>
     token_New (te_sign env) (te_uuid env) (te_now env) c (privateKey (current (h_keyManager h)))
       (kid (current (h_keyManager h))) (h_lifetime h) = Inr tok"

lemma signAndRespond_OK_iff:
  "signAndRespond env h c = resp \<and> rs_Status resp = StatusOK \<longleftrightarrow> (\<exists>tok. issues env h c tok \<and> resp = token_response tok)"
  by (auto simp: signAndRespond_def issues_def token_response_def SigningKey_def status_defs split: sum.splits)

lemma signAndRespond_status: "rs_Status (signAndRespond env h c) \<in> {StatusOK, StatusInternalServerError}"
  by (auto simp: signAndRespond_def split: prod.splits sum.splits)

lemma handleReplacement_OK_iff:
  "handleReplacement env h r req = resp \<and> rs_Status resp = StatusOK \<longleftrightarrow>
     (\<exists>verify existing tok. h_verifier h = Some verify \<and>
        verify (h_keyManager h) (te_now env) (xr_SubjectToken req) = Inr existing \<and>
        isScopeSubset (xr_Scope req) (Scope existing) \<and>
        issues env h (replacement_claims h r req existing) tok \<and> resp = token_response tok)"
  using signAndRespond_OK_iff [of env h _ resp]
  by (auto simp: handleReplacement_def status_defs split: option.splits sum.splits)

lemma handle_issuance_OK_iff:
  "handle_issuance env h r req = (Some resp, h') \<and> rs_Status resp = StatusOK \<longleftrightarrow>
     (\<exists>info auths tok.
        router_Authenticate oidc_Matches (oidc_Authenticate (te_Parse env) (te_Get env) (te_now env))
          (xr_SubjectToken req) (h_router h) = (Some (Inr info), auths) \<and>
        h' = h\<lparr>h_router := auths\<rparr> \<and>
        EvaluateIssuanceRules (loadIssuanceRules h) (issuance_context r req info) = None \<and>
        issues env h (new_claims h r req info) tok \<and> resp = token_response tok)" (is "?l \<longleftrightarrow> ?r")
proof -
  obtain res auths where ra: "router_Authenticate oidc_Matches
      (oidc_Authenticate (te_Parse env) (te_Get env) (te_now env)) (xr_SubjectToken req) (h_router h) = (res, auths)"
    by fastforce
  have upd: "issues env (h\<lparr>h_router := auths\<rparr>) c tok = issues env h c tok"
    "new_claims (h\<lparr>h_router := auths\<rparr>) r req info = new_claims h r req info" for c tok info
    by (simp_all add: issues_def new_claims_def)
  have ev: "(if 0 < length rs then EvaluateIssuanceRules rs x else None) = EvaluateIssuanceRules rs x" for rs x
    by (cases rs) simp_all
  show ?thesis
    using signAndRespond_OK_iff [of env "h\<lparr>h_router := auths\<rparr>" _ resp]
    by (cases res rule: option.exhaust)
      (auto simp: handle_issuance_def ra Let_def ev upd status_defs split: sum.splits option.splits)
qed

lemma handle_issuance_status:
  "handle_issuance env h r req = (Some resp, h') \<Longrightarrow>
     rs_Status resp \<in> {StatusOK, StatusUnauthorized, StatusForbidden, StatusInternalServerError}"
  using signAndRespond_status
  by (auto simp: handle_issuance_def Let_def split: prod.splits sum.splits option.splits)

lemma handleReplacement_status:
  "rs_Status (handleReplacement env h r req) \<in> {StatusOK, StatusUnauthorized, StatusForbidden, StatusInternalServerError}"
  using signAndRespond_status [of env h] by (auto simp: handleReplacement_def split: option.splits sum.splits)

text \<open>What a request changes: the key caches of the authenticators, nothing else.\<close>

lemma handle_issuance_state: "\<exists>auths. snd (handle_issuance env h r req) = h\<lparr>h_router := auths\<rparr>"
  by (auto simp: handle_issuance_def Let_def split: prod.splits sum.splits option.splits)

lemma ServeHTTP_state: "\<exists>auths. snd (ServeHTTP env h r) = h\<lparr>h_router := auths\<rparr>"
proof -
  have "\<exists>auths. h = h\<lparr>h_router := auths\<rparr>" by (rule exI [of _ "h_router h"]) simp
  then show ?thesis using handle_issuance_state by (auto simp: ServeHTTP_def split: sum.splits)
qed

lemma ServeHTTP_OK_cases:
  assumes "ServeHTTP env h r = (Some resp, h')" "rs_Status resp = StatusOK"
  obtains form req where "rq_Method r = ''POST''" "ParseForm r = Inr form" "parseRequest form = Inr req"
    "xr_SubjectTokenType req = SubjectTokenTypeTxnToken" "handleReplacement env h r req = resp" "h' = h"
  | form req where "rq_Method r = ''POST''" "ParseForm r = Inr form" "parseRequest form = Inr req"
    "xr_SubjectTokenType req \<noteq> SubjectTokenTypeTxnToken" "handle_issuance env h r req = (Some resp, h')"
proof -
  have post: "rq_Method r = ''POST''" using assms by (auto simp: ServeHTTP_def status_defs split: if_split_asm)
  obtain form where form: "ParseForm r = Inr form"
    using assms post by (cases "ParseForm r") (auto simp: ServeHTTP_def status_defs)
  obtain req where req: "parseRequest form = Inr req"
    using assms post form by (cases "parseRequest form") (auto simp: ServeHTTP_def status_defs)
  show thesis
  proof (cases "xr_SubjectTokenType req = SubjectTokenTypeTxnToken")
    case True
    then have "handleReplacement env h r req = resp" "h' = h" using assms(1) post form req by (auto simp: ServeHTTP_def)
    then show thesis by (rule that(1) [OF post form req True])
  next
    case False
    then have "handle_issuance env h r req = (Some resp, h')" using assms(1) post form req by (simp add: ServeHTTP_def)
    then show thesis by (rule that(2) [OF post form req False])
  qed
qed

end
