(* ===== verification/RuleClient.thy ===== *)
theory RuleClient
  imports RuleDiscovery TTS
begin

text \<open>
  The clients of the rule server: \<open>pkg/extauth/ruleclient/client.go\<close> for generation and verification rules,
  \<open>pkg/tts/ruleclient/client.go\<close> with \<open>handler_setter.go\<close> for issuance rules.

  A stream's loop is given one message per turn; it updates its map from keys to rules, hands the rules to the setter and then
  records that it has synchronised. These are two statements, between which others can look at the state: an \<open>install\<close>
  function is a turn up to the call of the setter, a \<open>mark\<close> function the statement after it, and the turn as a whole is the
  function named after the stream. The map is an association list sorted by key; the order in which Go ranges over it is the
  parameter \<open>iter\<close>. A setter changes a state \<open>'s\<close>.
\<close>

subsection \<open>Conversion from messages\<close>

definition protoToGenerationRule :: "pb_GenerationRule \<Rightarrow> GenerationRule" where
  "protoToGenerationRule pr =
     \<lparr>gr_Namespace = pg_Namespace pr, gr_Name = pg_Name pr,
      gr_Endpoint =
        (case pg_Endpoint pr of
           Some ep \<Rightarrow> \<lparr>ep_Path = pe_Path ep, ep_Method = pe_Method ep\<rparr>
         | None \<Rightarrow> \<lparr>ep_Path = [], ep_Method = []\<rparr>),
      gr_Purpose = pg_Purpose pr, gr_Scope = pg_Scope pr,
      gr_TctxMapping =
        (if pg_TctxMapping pr \<noteq> [] then
           map (\<lambda>(k, v). (k, \<lparr>fm_Source = pf_Source v, fm_Field = pf_Field v, fm_Required = pf_Required v\<rparr>)) (pg_TctxMapping pr)
         else []),
      gr_TctxEnrichments =
        (if pg_TctxEnrichments pr \<noteq> [] then
           map (\<lambda>e. \<lparr>te_Field = pn_Field e, te_Enricher = pn_Enricher e\<rparr>) (pg_TctxEnrichments pr)
         else []),
      gr_RctxFields = pg_RctxFields pr, gr_TokenLifetime = pg_TokenLifetime pr\<rparr>"

definition protoToVerificationRule :: "pb_VerificationRule \<Rightarrow> VerificationRule" where
  "protoToVerificationRule pr =
     \<lparr>vr_Namespace = pv_Namespace pr, vr_Name = pv_Name pr, vr_ServiceName = pv_ServiceName pr,
      vr_RequiredScope = pv_RequiredScope pr, vr_RequiredTctxFields = pv_RequiredTctxFields pr,
      vr_CELRules =
        (if pv_CelRules pr \<noteq> [] then
           map (\<lambda>c. \<lparr>cr_Name = pc_Name c, cr_CEL = pc_Cel c, cr_Message = pc_Message c\<rparr>) (pv_CelRules pr)
         else []),
      vr_ExcludedEndpoints =
        (if pv_ExcludedEndpoints pr \<noteq> [] then
           map (\<lambda>e. \<lparr>ep_Path = pe_Path e, ep_Method = pe_Method e\<rparr>) (pv_ExcludedEndpoints pr)
         else []),
      vr_AutoNarrow = pv_AutoNarrow pr\<rparr>"

definition protoToIssuanceRule :: "pb_IssuanceRule \<Rightarrow> PublishedIssuanceRule" where
  "protoToIssuanceRule pr =
     \<lparr>pi_PolicyNamespace = pis_PolicyNamespace pr, pi_PolicyName = pis_PolicyName pr, pi_RuleName = pis_RuleName pr,
      pi_CEL = pis_Cel pr, pi_Message = pis_Message pr, pi_TargetNamespaces = [] @ pis_TargetNamespaces pr\<rparr>"

subsection \<open>Rule maps\<close>

type_synonym ('k, 'r) rule_map = "('k \<times> 'r) list"

definition put_rules :: "('p \<Rightarrow> 'r) \<Rightarrow> ('r \<Rightarrow> 'k::linorder) \<Rightarrow> 'p list \<Rightarrow> ('k, 'r) rule_map \<Rightarrow> ('k, 'r) rule_map" where
  "put_rules fromProto key ps m = fold (\<lambda>pr m. let r = fromProto pr in mput (key r) r m) ps m"

definition generation_key :: "GenerationRule \<Rightarrow> string \<times> string" where
  "generation_key r = (gr_Namespace r, gr_Name r)"

definition verification_key :: "VerificationRule \<Rightarrow> string \<times> string" where
  "verification_key r = (vr_Namespace r, vr_Name r)"

definition keyFor :: "PublishedIssuanceRule \<Rightarrow> string \<times> string \<times> string" where
  "keyFor r = (pi_PolicyNamespace r, pi_PolicyName r, pi_RuleName r)"

text \<open>The switch on the kind of update in the three loops.\<close>

definition apply_generation ::
    "pb_GenerationRule stream_response \<Rightarrow> (string \<times> string, GenerationRule) rule_map \<Rightarrow> (string \<times> string, GenerationRule) rule_map" where
  "apply_generation resp m =
     (case rs_Update resp of
        Some (Snapshot ps) \<Rightarrow> put_rules protoToGenerationRule generation_key ps []
      | Some (Delta ups refs) \<Rightarrow>
          fold (\<lambda>ref. mdel (ref_Namespace ref, ref_Name ref)) refs (put_rules protoToGenerationRule generation_key ups m)
      | None \<Rightarrow> m)"

definition apply_verification ::
    "pb_VerificationRule stream_response \<Rightarrow> (string \<times> string, VerificationRule) rule_map \<Rightarrow> (string \<times> string, VerificationRule) rule_map" where
  "apply_verification resp m =
     (case rs_Update resp of
        Some (Snapshot ps) \<Rightarrow> put_rules protoToVerificationRule verification_key ps []
      | Some (Delta ups refs) \<Rightarrow>
          fold (\<lambda>ref. mdel (ref_Namespace ref, ref_Name ref)) refs (put_rules protoToVerificationRule verification_key ups m)
      | None \<Rightarrow> m)"

definition apply_issuance ::
    "pb_IssuanceRule stream_response \<Rightarrow> (string \<times> string \<times> string, PublishedIssuanceRule) rule_map \<Rightarrow>
       (string \<times> string \<times> string, PublishedIssuanceRule) rule_map" where
  "apply_issuance resp m =
     (case rs_Update resp of
        Some (Snapshot ps) \<Rightarrow> put_rules protoToIssuanceRule keyFor ps []
      | Some (Delta ups refs) \<Rightarrow>
          fold (\<lambda>ref. filter (\<lambda>((pns, pn, _), _). \<not> (pns = ref_Namespace ref \<and> pn = ref_Name ref))) refs
            (put_rules protoToIssuanceRule keyFor ups m)
      | None \<Rightarrow> m)"

subsection \<open>The ext-auth client\<close>

record 's RuleClient =
  rc_genSet :: "(GenerationRule list \<Rightarrow> 's \<Rightarrow> 's) option"
  rc_verSet :: "(VerificationRule list \<Rightarrow> 's \<Rightarrow> 's) option"
  rc_genSynced :: bool
  rc_verSynced :: bool

definition NewRuleClient :: "'s RuleClient" where
  "NewRuleClient = \<lparr>rc_genSet = None, rc_verSet = None, rc_genSynced = False, rc_verSynced = False\<rparr>"

definition SetGenerationSetter :: "(GenerationRule list \<Rightarrow> 's \<Rightarrow> 's) \<Rightarrow> 's RuleClient \<Rightarrow> 's RuleClient" where
  "SetGenerationSetter f c = c\<lparr>rc_genSet := Some f\<rparr>"

definition SetVerificationSetter :: "(VerificationRule list \<Rightarrow> 's \<Rightarrow> 's) \<Rightarrow> 's RuleClient \<Rightarrow> 's RuleClient" where
  "SetVerificationSetter f c = c\<lparr>rc_verSet := Some f\<rparr>"

definition RuleClient_Ready :: "'s RuleClient \<Rightarrow> bool" where
  "RuleClient_Ready c =
     (if rc_genSet c \<noteq> None \<and> \<not> rc_genSynced c then False
      else if rc_verSet c \<noteq> None \<and> \<not> rc_verSynced c then False
      else True)"

text \<open>One turn of a stream's loop. A stream is opened only if its setter is set; calling a nil setter panics.\<close>

definition install_generation ::
    "(GenerationRule list \<Rightarrow> GenerationRule list) \<Rightarrow> pb_GenerationRule stream_response \<Rightarrow>
       's RuleClient \<times> (string \<times> string, GenerationRule) rule_map \<times> 's \<Rightarrow>
       ((string \<times> string, GenerationRule) rule_map \<times> 's) option" where
  "install_generation iter resp st =
     (case st of (c, genRules, s) \<Rightarrow>
        let genRules' = apply_generation resp genRules;
            rules = iter (map snd genRules')
        in case rc_genSet c of
             None \<Rightarrow> None
           | Some set_rules \<Rightarrow> Some (genRules', set_rules rules s))"

definition mark_generation :: "'s RuleClient \<Rightarrow> 's RuleClient" where
  "mark_generation c = c\<lparr>rc_genSynced := True\<rparr>"

definition streamGeneration ::
    "(GenerationRule list \<Rightarrow> GenerationRule list) \<Rightarrow> pb_GenerationRule stream_response \<Rightarrow>
       's RuleClient \<times> (string \<times> string, GenerationRule) rule_map \<times> 's \<Rightarrow>
       ('s RuleClient \<times> (string \<times> string, GenerationRule) rule_map \<times> 's) option" where
  "streamGeneration iter resp st =
     (case install_generation iter resp st of
        None \<Rightarrow> None
      | Some (genRules', s') \<Rightarrow> Some (mark_generation (fst st), genRules', s'))"

definition install_verification ::
    "(VerificationRule list \<Rightarrow> VerificationRule list) \<Rightarrow> pb_VerificationRule stream_response \<Rightarrow>
       's RuleClient \<times> (string \<times> string, VerificationRule) rule_map \<times> 's \<Rightarrow>
       ((string \<times> string, VerificationRule) rule_map \<times> 's) option" where
  "install_verification iter resp st =
     (case st of (c, verRules, s) \<Rightarrow>
        let verRules' = apply_verification resp verRules;
            rules = iter (map snd verRules')
        in case rc_verSet c of
             None \<Rightarrow> None
           | Some set_rules \<Rightarrow> Some (verRules', set_rules rules s))"

definition mark_verification :: "'s RuleClient \<Rightarrow> 's RuleClient" where
  "mark_verification c = c\<lparr>rc_verSynced := True\<rparr>"

definition streamVerification ::
    "(VerificationRule list \<Rightarrow> VerificationRule list) \<Rightarrow> pb_VerificationRule stream_response \<Rightarrow>
       's RuleClient \<times> (string \<times> string, VerificationRule) rule_map \<times> 's \<Rightarrow>
       ('s RuleClient \<times> (string \<times> string, VerificationRule) rule_map \<times> 's) option" where
  "streamVerification iter resp st =
     (case install_verification iter resp st of
        None \<Rightarrow> None
      | Some (verRules', s') \<Rightarrow> Some (mark_verification (fst st), verRules', s'))"

subsection \<open>The client of the token service\<close>

record 's TtsRuleClient =
  tc_setter :: "PublishedIssuanceRule list \<Rightarrow> 's \<Rightarrow> error option \<times> 's"
  tc_synced :: bool

definition NewTtsRuleClient :: "(PublishedIssuanceRule list \<Rightarrow> 's \<Rightarrow> error option \<times> 's) \<Rightarrow> 's TtsRuleClient" where
  "NewTtsRuleClient setter = \<lparr>tc_setter = setter, tc_synced = False\<rparr>"

definition TtsRuleClient_Ready :: "'s TtsRuleClient \<Rightarrow> bool" where
  "TtsRuleClient_Ready c = tc_synced c"

definition install_issuance ::
    "(PublishedIssuanceRule list \<Rightarrow> PublishedIssuanceRule list) \<Rightarrow> pb_IssuanceRule stream_response \<Rightarrow>
       's TtsRuleClient \<times> (string \<times> string \<times> string, PublishedIssuanceRule) rule_map \<times> 's \<Rightarrow>
       error option \<times> (string \<times> string \<times> string, PublishedIssuanceRule) rule_map \<times> 's" where
  "install_issuance iter resp st =
     (case st of (c, rules, s) \<Rightarrow>
        let rules' = apply_issuance resp rules;
            flat = sort_key keyFor (iter (map snd rules'))
        in case tc_setter c flat s of (err, s') \<Rightarrow> (err, rules', s'))"

definition mark_issuance :: "'s TtsRuleClient \<Rightarrow> 's TtsRuleClient" where
  "mark_issuance c = c\<lparr>tc_synced := True\<rparr>"

definition streamIssuance ::
    "(PublishedIssuanceRule list \<Rightarrow> PublishedIssuanceRule list) \<Rightarrow> pb_IssuanceRule stream_response \<Rightarrow>
       's TtsRuleClient \<times> (string \<times> string \<times> string, PublishedIssuanceRule) rule_map \<times> 's \<Rightarrow>
       's TtsRuleClient \<times> (string \<times> string \<times> string, PublishedIssuanceRule) rule_map \<times> 's" where
  "streamIssuance iter resp st =
     (case install_issuance iter resp st of
        (Some _, rules', s') \<Rightarrow> (fst st, rules', s')
      | (None, rules', s') \<Rightarrow> (mark_issuance (fst st), rules', s'))"

definition qualifiedName :: "PublishedIssuanceRule \<Rightarrow> string" where
  "qualifiedName r =
     (let name = pi_RuleName r;
          name = (if pi_PolicyName r \<noteq> [] then pi_PolicyName r @ ''/'' @ name else name)
      in if pi_PolicyNamespace r \<noteq> [] then pi_PolicyNamespace r @ ''/'' @ name else name)"

definition rule_config :: "PublishedIssuanceRule \<Rightarrow> IssuanceRuleConfig" where
  "rule_config r =
     \<lparr>ic_Name = qualifiedName r, ic_CEL = pi_CEL r, ic_Message = pi_Message r, ic_TargetNamespaces = [] @ pi_TargetNamespaces r\<rparr>"

definition HandlerSetter_SetIssuanceRules ::
    "cel_NewEnv \<Rightarrow> PublishedIssuanceRule list \<Rightarrow> Handler option \<Rightarrow> error option \<times> Handler option" where
  "HandlerSetter_SetIssuanceRules NewEnv rules handler =
     (case handler of
        None \<Rightarrow> (Some (Errorf ''handler is nil'' []), None)
      | Some h \<Rightarrow>
          (case CompileIssuanceRules NewEnv (map rule_config rules) of
             Inl err \<Rightarrow> (Some (Wrapf ''compiling issuance rules: %w'' [] err), Some h)
           | Inr compiled \<Rightarrow> (None, Some (SetIssuanceRules compiled h))))"

subsection \<open>Reconnection\<close>

text \<open>
  \<open>Run\<close> reconnects until its context is cancelled, waiting longer each time. An attempt is what the world answers: the
  error of \<open>connect\<close>, and whether the context is cancelled when \<open>connect\<close> returns or during the wait. The result is the list
  of the waits and, once the context is cancelled, its error.
\<close>

datatype attempt = CancelledInConnect error | CancelledInWait error | Reconnect

definition first_backoff :: nat where "first_backoff = 500000000"
definition maxBackoff :: nat where "maxBackoff = 30 * Second"

definition next_backoff :: "nat \<Rightarrow> nat" where
  "next_backoff backoff = min (backoff * 2) maxBackoff"

definition tts_next_backoff :: "nat \<Rightarrow> nat" where
  "tts_next_backoff backoff =
     (if backoff < maxBackoff then
        (let b = backoff * 2 in if b > maxBackoff then maxBackoff else b)
      else backoff)"

fun run_loop :: "(nat \<Rightarrow> nat) \<Rightarrow> nat \<Rightarrow> attempt list \<Rightarrow> nat list \<times> error option" where
  "run_loop nxt backoff [] = ([], None)"
| "run_loop nxt backoff (CancelledInConnect e # _) = ([], Some e)"
| "run_loop nxt backoff (CancelledInWait e # _) = ([backoff], Some e)"
| "run_loop nxt backoff (Reconnect # as) =
     (let (waits, r) = run_loop nxt (nxt backoff) as in (backoff # waits, r))"

definition RuleClient_Run :: "attempt list \<Rightarrow> nat list \<times> error option" where
  "RuleClient_Run as = run_loop next_backoff first_backoff as"

definition TtsRuleClient_Run :: "attempt list \<Rightarrow> nat list \<times> error option" where
  "TtsRuleClient_Run as = run_loop tts_next_backoff first_backoff as"

subsection \<open>Lemmas\<close>

lemmas stream_defs =
  streamGeneration_def install_generation_def mark_generation_def streamVerification_def install_verification_def
  mark_verification_def streamIssuance_def install_issuance_def mark_issuance_def

lemma record_eta [simp]:
  "\<lparr>ep_Path = ep_Path e, ep_Method = ep_Method e\<rparr> = e"
  "\<lparr>fm_Source = fm_Source f, fm_Field = fm_Field f, fm_Required = fm_Required f\<rparr> = f"
  "\<lparr>te_Field = te_Field t, te_Enricher = te_Enricher t\<rparr> = t"
  "\<lparr>cr_Name = cr_Name c, cr_CEL = cr_CEL c, cr_Message = cr_Message c\<rparr> = c"
  by simp_all

lemma generation_roundtrip: "protoToGenerationRule (generationRuleToProto r) = r"
  by (cases r; cases "gr_Endpoint r")
    (auto simp: protoToGenerationRule_def generationRuleToProto_def endpointToProto_def comp_def case_prod_unfold
      split: option.splits)

lemma verification_roundtrip: "protoToVerificationRule (verificationRuleToProto r) = r"
  by (cases r) (simp add: protoToVerificationRule_def verificationRuleToProto_def endpointToProto_def comp_def)

lemma issuance_roundtrip: "protoToIssuanceRule (issuanceRuleToProto r) = r"
  by (cases r) (simp add: protoToIssuanceRule_def issuanceRuleToProto_def)

text \<open>
  C26. The rules a client rebuilds from the messages of the server are the server's rules: the conversions of all three
  kinds of rule lose nothing, also where the message leaves out an empty endpoint, map or list.
\<close>

theorem rule_messages_roundtrip:
  "map protoToGenerationRule (generationRulesToProto grs) = grs \<and>
   map protoToVerificationRule (verificationRulesToProto vrs) = vrs \<and>
   map protoToIssuanceRule (issuanceRulesToProto irs) = irs"
  by (simp add: generationRulesToProto_def verificationRulesToProto_def issuanceRulesToProto_def comp_def
      generation_roundtrip verification_roundtrip issuance_roundtrip)

lemma next_backoff_eq: "b \<le> maxBackoff \<Longrightarrow> tts_next_backoff b = next_backoff b"
  by (auto simp: tts_next_backoff_def next_backoff_def Let_def)

lemma next_backoff_range: "first_backoff \<le> b \<Longrightarrow> b \<le> maxBackoff \<Longrightarrow> b \<le> next_backoff b \<and> next_backoff b \<le> maxBackoff"
  by (auto simp: next_backoff_def)

lemma run_loop_eq:
  "b \<le> maxBackoff \<Longrightarrow> run_loop tts_next_backoff b as = run_loop next_backoff b as"
proof (induction as arbitrary: b)
  case (Cons a as)
  have "next_backoff b \<le> maxBackoff" by (simp add: next_backoff_def)
  with Cons show ?case by (cases a) (simp_all add: next_backoff_eq)
qed simp

lemma run_loop_waits:
  assumes "first_backoff \<le> b" "b \<le> maxBackoff" "w \<in> set (fst (run_loop next_backoff b as))"
  shows "b \<le> w \<and> w \<le> maxBackoff"
  using assms
proof (induction as arbitrary: b)
  case (Cons a as)
  have b: "b \<le> next_backoff b" "next_backoff b \<le> maxBackoff" "first_backoff \<le> next_backoff b"
    using next_backoff_range [of b] Cons.prems by simp_all
  show ?case using Cons.prems Cons.IH [OF b(3,2)] b
    by (cases a) (auto simp: case_prod_unfold Let_def)
qed simp

lemma run_loop_sorted:
  "first_backoff \<le> b \<Longrightarrow> b \<le> maxBackoff \<Longrightarrow> sorted (fst (run_loop next_backoff b as))"
proof (induction as arbitrary: b)
  case (Cons a as)
  have b: "b \<le> next_backoff b" "next_backoff b \<le> maxBackoff" "first_backoff \<le> next_backoff b"
    using next_backoff_range [of b] Cons.prems by simp_all
  then have "b \<le> w" if "w \<in> set (fst (run_loop next_backoff (next_backoff b) as))" for w
    using run_loop_waits [OF b(3,2) that] by simp
  then show ?case using Cons.IH [OF b(3,2)] by (cases a) (simp_all add: case_prod_unfold Let_def)
qed simp

text \<open>
  C27. The two clients reconnect in the same rhythm: every wait is between half a second and thirty seconds, the waits
  never get shorter, and however often a client reconnects the doubled value stays far below the range of a 64-bit
  duration.
\<close>

theorem reconnection_waits:
  "RuleClient_Run as = TtsRuleClient_Run as \<and> sorted (fst (RuleClient_Run as)) \<and>
   (\<forall>w\<in>set (fst (RuleClient_Run as)). 500000000 \<le> w \<and> w \<le> 30000000000 \<and> w * 2 < 2 ^ 63)"
proof -
  have range: "first_backoff \<le> first_backoff" "first_backoff \<le> maxBackoff"
    by (simp_all add: first_backoff_def maxBackoff_def Second_def)
  have "500000000 \<le> w \<and> w \<le> 30000000000 \<and> w * 2 < 2 ^ 63" if "w \<in> set (fst (RuleClient_Run as))" for w
    using run_loop_waits [OF range, of w as] that
    by (simp add: RuleClient_Run_def) (simp add: first_backoff_def maxBackoff_def Second_def)
  then show ?thesis
    using run_loop_eq [OF range(2)] run_loop_sorted [OF range] by (simp add: RuleClient_Run_def TtsRuleClient_Run_def)
qed

theorem reconnection_waits_witness:
  "fst (RuleClient_Run [Reconnect, Reconnect, CancelledInConnect (LibError ''context canceled'')]) = [500000000, 1000000000] \<and>
   1000000000 \<le> (30000000000 :: nat)"
proof -
  have run: "fst (RuleClient_Run [Reconnect, Reconnect, CancelledInConnect (LibError ''context canceled'')]) = [500000000, 1000000000]"
    by (simp add: RuleClient_Run_def first_backoff_def next_backoff_def maxBackoff_def Second_def)
  then show ?thesis
    using reconnection_waits [of "[Reconnect, Reconnect, CancelledInConnect (LibError ''context canceled'')]"] by simp
qed

end
