(* ===== verification/RuleSync.thy ===== *)
theory RuleSync
  imports RuleClient
begin

text \<open>
  Distribution of rules from the server to its clients, as a transition system: what the server of \<open>RuleDiscovery\<close> and the
  clients of \<open>RuleClient\<close> do to one topic, interleaved in any order, over streams that deliver in order.

  The three kinds of rule share the protocol; \<open>rule_kind\<close> collects what differs, and the locale \<open>rule_protocol\<close> states what the
  protocol needs of a kind. The steps of the system are the operations of the source: lemmas \<open>generation_operations\<close>,
  \<open>verification_operations\<close> and \<open>issuance_operations\<close> show it for each kind. They are not restricted to rules with different
  keys; what equal keys do to the clients is part of the properties.
\<close>

record ('k, 'r, 'p) rule_kind =
  rk_key :: "'r \<Rightarrow> 'k"
  rk_toProto :: "'r \<Rightarrow> 'p"
  rk_remove :: "RuleRef \<Rightarrow> 'r list \<Rightarrow> 'r list"
  rk_apply :: "'p stream_response \<Rightarrow> ('k, 'r) rule_map \<Rightarrow> ('k, 'r) rule_map"

definition generation_kind :: "(string \<times> string, GenerationRule, pb_GenerationRule) rule_kind" where
  "generation_kind =
     \<lparr>rk_key = generation_key, rk_toProto = generationRuleToProto,
      rk_remove = (\<lambda>ref. remove_rule (\<lambda>r. gr_Namespace r = ref_Namespace ref \<and> gr_Name r = ref_Name ref)),
      rk_apply = apply_generation\<rparr>"

definition verification_kind :: "(string \<times> string, VerificationRule, pb_VerificationRule) rule_kind" where
  "verification_kind =
     \<lparr>rk_key = verification_key, rk_toProto = verificationRuleToProto,
      rk_remove = (\<lambda>ref. remove_rule (\<lambda>r. vr_Namespace r = ref_Namespace ref \<and> vr_Name r = ref_Name ref)),
      rk_apply = apply_verification\<rparr>"

definition issuance_kind :: "(string \<times> string \<times> string, PublishedIssuanceRule, pb_IssuanceRule) rule_kind" where
  "issuance_kind =
     \<lparr>rk_key = keyFor, rk_toProto = issuanceRuleToProto,
      rk_remove = (\<lambda>ref. filter (\<lambda>r. \<not> (pi_PolicyNamespace r = ref_Namespace ref \<and> pi_PolicyName r = ref_Name ref))),
      rk_apply = apply_issuance\<rparr>"

text \<open>The map a client should hold for the rules of the server: of rules with the same key the last one counts.\<close>

definition map_rules :: "('r \<Rightarrow> 'k::linorder) \<Rightarrow> 'r list \<Rightarrow> ('k, 'r) rule_map" where
  "map_rules key rs = mput_all (map (\<lambda>r. (key r, r)) rs) []"

text \<open>The last rule of each key.\<close>

fun last_of_each :: "('r \<Rightarrow> 'k) \<Rightarrow> 'r list \<Rightarrow> 'r list" where
  "last_of_each key [] = []"
| "last_of_each key (r # rs) = (if key r \<in> key ` set rs then last_of_each key rs else r # last_of_each key rs)"

definition rk_rules :: "('k::linorder, 'r, 'p) rule_kind \<Rightarrow> 'r list \<Rightarrow> ('k, 'r) rule_map" where
  "rk_rules K rs = map_rules (rk_key K) rs"

subsection \<open>Server operations on one topic\<close>

definition topic_update :: "('k, 'r, 'p) rule_kind \<Rightarrow> 'r list \<Rightarrow> ('r, 'p) topic \<Rightarrow> ('r, 'p) topic" where
  "topic_update K rules t = broadcast (Snapshot (map (rk_toProto K) rules)) (t\<lparr>topic_rules := rules\<rparr>)"

definition topic_upsert :: "('k, 'r, 'p) rule_kind \<Rightarrow> 'r \<Rightarrow> ('r, 'p) topic \<Rightarrow> ('r, 'p) topic" where
  "topic_upsert K rule t =
     broadcast (Delta [rk_toProto K rule] [])
       (t\<lparr>topic_rules := upsert_rule (\<lambda>r r'. rk_key K r = rk_key K r') rule (topic_rules t)\<rparr>)"

definition topic_remove :: "('k, 'r, 'p) rule_kind \<Rightarrow> RuleRef \<Rightarrow> ('r, 'p) topic \<Rightarrow> ('r, 'p) topic" where
  "topic_remove K ref t = broadcast (Delta [] [ref]) (t\<lparr>topic_rules := rk_remove K ref (topic_rules t)\<rparr>)"

definition topic_snapshot :: "('k, 'r, 'p) rule_kind \<Rightarrow> ('r, 'p) topic \<Rightarrow> 'p stream_response" where
  "topic_snapshot K t =
     \<lparr>rs_Update = Some (Snapshot (map (rk_toProto K) (topic_rules t))), rs_VersionInfo = string_of_nat (unat (topic_version t))\<rparr>"

definition topic_subscribe :: "string \<Rightarrow> ('r, 'p) topic \<Rightarrow> ('r, 'p) topic" where
  "topic_subscribe sid t = t\<lparr>topic_subscribers := mput sid [] (topic_subscribers t)\<rparr>"

lemmas topic_op_defs = topic_update_def topic_upsert_def topic_remove_def topic_snapshot_def topic_subscribe_def

lemma generation_operations:
  "generation_topic (UpdateGenerationRules rules s) = topic_update generation_kind rules (generation_topic s)"
  "generation_topic (UpsertGenerationRule rule s) = topic_upsert generation_kind rule (generation_topic s)"
  "generation_topic (RemoveGenerationRule ns n s) =
     topic_remove generation_kind \<lparr>ref_Namespace = ns, ref_Name = n\<rparr> (generation_topic s)"
  "StreamGenerationRules s = (sid, resp, s') \<Longrightarrow>
     generation_topic s' = topic_subscribe sid (generation_topic s) \<and> resp = topic_snapshot generation_kind (generation_topic s)"
  by (auto simp: UpdateGenerationRules_def UpsertGenerationRule_def RemoveGenerationRule_def StreamGenerationRules_def
      buildGenSnapshot_def topic_op_defs generation_kind_def generation_key_def generationRulesToProto_def Let_def)

lemma verification_operations:
  "verification_topic (UpdateVerificationRules rules s) = topic_update verification_kind rules (verification_topic s)"
  "verification_topic (UpsertVerificationRule rule s) = topic_upsert verification_kind rule (verification_topic s)"
  "verification_topic (RemoveVerificationRule ns n s) =
     topic_remove verification_kind \<lparr>ref_Namespace = ns, ref_Name = n\<rparr> (verification_topic s)"
  "StreamVerificationRules s = (sid, resp, s') \<Longrightarrow>
     verification_topic s' = topic_subscribe sid (verification_topic s) \<and>
     resp = topic_snapshot verification_kind (verification_topic s)"
  by (auto simp: UpdateVerificationRules_def UpsertVerificationRule_def RemoveVerificationRule_def StreamVerificationRules_def
      buildVerSnapshot_def topic_op_defs verification_kind_def verification_key_def verificationRulesToProto_def Let_def)

lemma issuance_operations:
  "issuance_topic (UpdateIssuanceRules rules s) = topic_update issuance_kind rules (issuance_topic s)"
  "issuance_topic (UpsertIssuanceRule rule s) = topic_upsert issuance_kind rule (issuance_topic s)"
  "issuance_topic (RemoveIssuanceRule ns n s) =
     topic_remove issuance_kind \<lparr>ref_Namespace = ns, ref_Name = n\<rparr> (issuance_topic s)"
  "StreamIssuanceRules s = (sid, resp, s') \<Longrightarrow>
     issuance_topic s' = topic_subscribe sid (issuance_topic s) \<and> resp = topic_snapshot issuance_kind (issuance_topic s)"
  by (auto simp: UpdateIssuanceRules_def UpsertIssuanceRule_def RemoveIssuanceRule_def StreamIssuanceRules_def
      buildIssSnapshot_def topic_op_defs issuance_kind_def keyFor_def issuanceRulesToProto_def Let_def)

subsection \<open>Server and clients\<close>

text \<open>
  A connected client has the messages sent to it and not yet received, and the map of its stream. The flags are not in the
  program. \<open>cl_lost\<close> records that a message was dropped because the client's channel was full, \<open>cl_mixed\<close> that a change of
  a single rule was sent while the server held two rules with one key, which server and client then treat differently; a
  later snapshot that finds room in the channel clears both.
\<close>

record ('k, 'r, 'p) client =
  cl_wire :: "'p stream_response list"
  cl_rules :: "('k, 'r) rule_map"
  cl_lost :: bool
  cl_mixed :: bool

record ('k, 'r, 'p) net =
  net_topic :: "('r, 'p) topic"
  net_clients :: "string \<rightharpoonup> ('k, 'r, 'p) client"

definition channel_full :: "('r, 'p) topic \<Rightarrow> string \<Rightarrow> bool" where
  "channel_full t sid = (case map_of (topic_subscribers t) sid of None \<Rightarrow> False | Some ch \<Rightarrow> channel_slots \<le> length ch)"

definition note_snapshot :: "('r, 'p) topic \<Rightarrow> (string \<rightharpoonup> ('k, 'r, 'p) client) \<Rightarrow> (string \<rightharpoonup> ('k, 'r, 'p) client)" where
  "note_snapshot t cs sid =
     map_option (\<lambda>c. c\<lparr>cl_lost := channel_full t sid, cl_mixed := cl_mixed c \<and> channel_full t sid\<rparr>) (cs sid)"

definition note_delta ::
    "('k, 'r, 'p) rule_kind \<Rightarrow> ('r, 'p) topic \<Rightarrow> (string \<rightharpoonup> ('k, 'r, 'p) client) \<Rightarrow> (string \<rightharpoonup> ('k, 'r, 'p) client)" where
  "note_delta K t cs sid =
     map_option (\<lambda>c. c\<lparr>cl_lost := cl_lost c \<or> channel_full t sid,
        cl_mixed := cl_mixed c \<or> \<not> distinct (map (rk_key K) (topic_rules t))\<rparr>) (cs sid)"

inductive net_step :: "('k::linorder, 'r, 'p) rule_kind \<Rightarrow> ('k, 'r, 'p) net \<Rightarrow> ('k, 'r, 'p) net \<Rightarrow> bool"
  for K :: "('k::linorder, 'r, 'p) rule_kind" where
  subscribe: "map_of (topic_subscribers t) sid = None \<Longrightarrow>
    net_step K \<lparr>net_topic = t, net_clients = cs\<rparr>
      \<lparr>net_topic = topic_subscribe sid t,
       net_clients = cs(sid \<mapsto> \<lparr>cl_wire = [topic_snapshot K t], cl_rules = [], cl_lost = False, cl_mixed = False\<rparr>)\<rparr>"
| update: "net_step K \<lparr>net_topic = t, net_clients = cs\<rparr>
    \<lparr>net_topic = topic_update K rules t, net_clients = note_snapshot t cs\<rparr>"
| upsert: "net_step K \<lparr>net_topic = t, net_clients = cs\<rparr>
    \<lparr>net_topic = topic_upsert K rule t, net_clients = note_delta K t cs\<rparr>"
| remove: "net_step K \<lparr>net_topic = t, net_clients = cs\<rparr>
    \<lparr>net_topic = topic_remove K ref t, net_clients = note_delta K t cs\<rparr>"
| send: "cs sid = Some c \<Longrightarrow> stream_next sid t = Some (resp, t') \<Longrightarrow>
    net_step K \<lparr>net_topic = t, net_clients = cs\<rparr>
      \<lparr>net_topic = t', net_clients = cs(sid \<mapsto> c\<lparr>cl_wire := cl_wire c @ [resp]\<rparr>)\<rparr>"
| receive: "cs sid = Some c \<Longrightarrow> cl_wire c = resp # w \<Longrightarrow>
    net_step K \<lparr>net_topic = t, net_clients = cs\<rparr>
      \<lparr>net_topic = t, net_clients = cs(sid \<mapsto> c\<lparr>cl_wire := w, cl_rules := rk_apply K resp (cl_rules c)\<rparr>)\<rparr>"
| disconnect: "net_step K \<lparr>net_topic = t, net_clients = cs\<rparr>
    \<lparr>net_topic = stream_end sid t, net_clients = cs(sid := None)\<rparr>"

definition empty_topic :: "('r, 'p) topic" where
  "empty_topic = \<lparr>topic_rules = [], topic_version = 0, topic_subscribers = []\<rparr>"

definition net_start :: "('k, 'r, 'p) net" where
  "net_start = \<lparr>net_topic = empty_topic, net_clients = Map.empty\<rparr>"

abbreviation net_reaches :: "('k::linorder, 'r, 'p) rule_kind \<Rightarrow> ('k, 'r, 'p) net \<Rightarrow> ('k, 'r, 'p) net \<Rightarrow> bool" where
  "net_reaches K \<equiv> (net_step K)\<^sup>*\<^sup>*"

text \<open>What a client will hold once it has received everything that is under way to it.\<close>

definition settled :: "('k, 'r, 'p) rule_kind \<Rightarrow> ('k, 'r, 'p) client \<Rightarrow> 'p stream_response list \<Rightarrow> ('k, 'r) rule_map" where
  "settled K c ch = fold (rk_apply K) (cl_wire c @ ch) (cl_rules c)"

definition sync_inv :: "('k::linorder, 'r, 'p) rule_kind \<Rightarrow> ('k, 'r, 'p) net \<Rightarrow> bool" where
  "sync_inv K n \<longleftrightarrow>
     (\<forall>sid c. net_clients n sid = Some c \<longrightarrow>
        (\<exists>ch. map_of (topic_subscribers (net_topic n)) sid = Some ch \<and>
           (\<not> cl_lost c \<and> \<not> cl_mixed c \<longrightarrow> settled K c ch = rk_rules K (topic_rules (net_topic n)))))"

text \<open>A client that has lost nothing and has nothing left to receive.\<close>

definition caught_up :: "('k, 'r, 'p) net \<Rightarrow> string \<Rightarrow> ('k, 'r, 'p) client \<Rightarrow> bool" where
  "caught_up n sid c \<longleftrightarrow>
     net_clients n sid = Some c \<and> \<not> cl_lost c \<and> cl_wire c = [] \<and> map_of (topic_subscribers (net_topic n)) sid = Some []"

text \<open>
  What a client should hold: of the rules of the server the last one of each key, and therefore all of them, each once, if
  their keys are different.
\<close>

definition holds_rules :: "('r \<Rightarrow> 'k::linorder) \<Rightarrow> ('k, 'r, 'p) client \<Rightarrow> ('r, 'p) topic \<Rightarrow> bool" where
  "holds_rules key c t \<longleftrightarrow>
     mset (map snd (cl_rules c)) = mset (last_of_each key (topic_rules t)) \<and>
     (distinct (map key (topic_rules t)) \<longrightarrow> mset (map snd (cl_rules c)) = mset (topic_rules t))"

subsection \<open>Rules as maps\<close>

lemma mwf_map_rules [simp]: "mwf (map_rules key rs)"
  by (simp add: map_rules_def)

lemma map_of_map_rules:
  assumes "distinct (map key rs)"
  shows "map_of (map_rules key rs) = map_of (map (\<lambda>r. (key r, r)) rs)"
proof -
  have "distinct (map fst (map (\<lambda>r. (key r, r)) rs))" using assms by (simp add: comp_def)
  then have "map_of (rev (map (\<lambda>r. (key r, r)) rs)) = map_of (map (\<lambda>r. (key r, r)) rs)"
    by (intro map_of_inject_set [THEN iffD2]) (simp_all add: rev_map [symmetric])
  then show ?thesis by (simp add: map_rules_def map_of_mput_all del: mput_all_simps)
qed

lemma set_mput_all: "set (mput_all kvs m) \<subseteq> set kvs \<union> set m"
proof (induction kvs arbitrary: m)
  case (Cons kv kvs)
  then show ?case using set_mput [of "fst kv" "snd kv" m] by (cases kv) fastforce
qed simp

lemma map_rules_keys: "map key (map snd (map_rules key rs)) = map fst (map_rules key rs)"
  using set_mput_all [of "map (\<lambda>r. (key r, r)) rs" "[]"] unfolding map_rules_def by fastforce

lemma map_rules_values:
  assumes "distinct (map key rs)"
  shows "set (map snd (map_rules key rs)) = set rs"
proof -
  have "r \<in> snd ` set (map_rules key rs)" if "r \<in> set rs" for r
  proof -
    have "map_of (map (\<lambda>r. (key r, r)) rs) (key r) = Some r"
      using assms that by (intro map_of_is_SomeI) (auto simp: comp_def)
    then have "(key r, r) \<in> set (map_rules key rs)" unfolding map_of_map_rules [OF assms, symmetric] by (rule map_of_SomeD)
    then show ?thesis by force
  qed
  moreover have "snd ` set (map_rules key rs) \<subseteq> set rs"
    using set_mput_all [of "map (\<lambda>r. (key r, r)) rs" "[]"] by (fastforce simp: map_rules_def)
  ultimately show ?thesis by auto
qed

text \<open>The rules in the map are the last rule of each key.\<close>

lemma last_of_each_keys: "key ` set (last_of_each key rs) = key ` set rs"
  by (induction rs) auto

lemma last_of_each_subset: "set (last_of_each key rs) \<subseteq> set rs"
  by (induction rs) auto

lemma last_of_each_distinct_keys: "distinct (map key (last_of_each key rs))"
  by (induction rs) (auto simp: last_of_each_keys)

lemma last_of_each_distinct: "distinct (map key rs) \<Longrightarrow> last_of_each key rs = rs"
  by (induction rs) auto

lemma map_of_last: "map_of (rev (map (\<lambda>r. (key r, r)) rs)) (key r) = Some r \<longleftrightarrow> r \<in> set (last_of_each key rs)"
proof (induction rs)
  case (Cons a rs)
  have "map_of (rev (map (\<lambda>r. (key r, r)) rs)) (key a) = None \<longleftrightarrow> key a \<notin> key ` set rs"
    by (simp add: map_of_eq_None_iff image_image)
  with Cons show ?case using last_of_each_subset [of key rs]
    by (cases "key r = key a") (auto simp: map_add_def split: option.splits)
qed simp

lemma map_rules_mset: "mset (map snd (map_rules key rs)) = mset (last_of_each key rs)"
proof (rule set_eq_iff_mset_eq_distinct [THEN iffD1])
  have keys: "distinct (map key (map snd (map_rules key rs)))" unfolding map_rules_keys by (rule mwf_distinct) simp
  then show "distinct (map snd (map_rules key rs))" unfolding distinct_map [of key] by (rule conjunct1)
  show "distinct (last_of_each key rs)" using last_of_each_distinct_keys [of key rs] unfolding distinct_map by (rule conjunct1)
  have "r \<in> set (map snd (map_rules key rs)) \<longleftrightarrow> map_of (map_rules key rs) (key r) = Some r" for r
  proof
    assume "r \<in> set (map snd (map_rules key rs))"
    then obtain k where k: "(k, r) \<in> set (map_rules key rs)" by auto
    then have "k = key r" using set_mput_all [of "map (\<lambda>r. (key r, r)) rs" "[]"] unfolding map_rules_def by fastforce
    with k show "map_of (map_rules key rs) (key r) = Some r" by (intro map_of_is_SomeI mwf_distinct) simp_all
  next
    assume "map_of (map_rules key rs) (key r) = Some r"
    from map_of_SomeD [OF this] show "r \<in> set (map snd (map_rules key rs))" by force
  qed
  then show "set (map snd (map_rules key rs)) = set (last_of_each key rs)"
    by (simp add: set_eq_iff map_of_last [symmetric] map_rules_def map_of_mput_all del: mput_all_simps)
qed

lemma generation_kind_key: "rk_key generation_kind = generation_key" by (simp add: generation_kind_def)
lemma verification_kind_key: "rk_key verification_kind = verification_key" by (simp add: verification_kind_def)
lemma issuance_kind_key: "rk_key issuance_kind = keyFor" by (simp add: issuance_kind_def)

lemma holds_rulesI: "cl_rules c = map_rules key (topic_rules t) \<Longrightarrow> holds_rules key c t"
  using map_rules_mset [of key "topic_rules t"] by (simp add: holds_rules_def last_of_each_distinct)

subsection \<open>The protocol\<close>

locale rule_protocol =
  fixes K :: "('k::linorder, 'r, 'p) rule_kind"
  assumes apply_snapshot:
      "rk_apply K \<lparr>rs_Update = Some (Snapshot (map (rk_toProto K) rs)), rs_VersionInfo = v\<rparr> m = rk_rules K rs"
    and apply_upsert:
      "distinct (map (rk_key K) rs) \<Longrightarrow>
         rk_apply K \<lparr>rs_Update = Some (Delta [rk_toProto K r] []), rs_VersionInfo = v\<rparr> (rk_rules K rs) =
         rk_rules K (upsert_rule (\<lambda>r r'. rk_key K r = rk_key K r') r rs)"
    and apply_remove:
      "distinct (map (rk_key K) rs) \<Longrightarrow>
         rk_apply K \<lparr>rs_Update = Some (Delta [] [ref]), rs_VersionInfo = v\<rparr> (rk_rules K rs) = rk_rules K (rk_remove K ref rs)"
begin

lemma settled_snapshot [simp]:
  "fold (rk_apply K) (ms @ [\<lparr>rs_Update = Some (Snapshot (map (rk_toProto K) rs)), rs_VersionInfo = v\<rparr>]) m = rk_rules K rs"
  by (simp add: apply_snapshot)

lemma inv_update:
  assumes "sync_inv K \<lparr>net_topic = t, net_clients = cs\<rparr>"
  shows "sync_inv K \<lparr>net_topic = topic_update K rules t, net_clients = note_snapshot t cs\<rparr>"
  unfolding sync_inv_def net.simps
proof (intro allI impI)
  fix sid c'
  assume "note_snapshot t cs sid = Some c'"
  then obtain c where c: "cs sid = Some c" and c': "c' = c\<lparr>cl_lost := channel_full t sid, cl_mixed := cl_mixed c \<and> channel_full t sid\<rparr>"
    by (auto simp: note_snapshot_def)
  then obtain ch where ch: "map_of (topic_subscribers t) sid = Some ch" using assms by (fastforce simp: sync_inv_def)
  show "\<exists>ch. map_of (topic_subscribers (topic_update K rules t)) sid = Some ch \<and>
      (\<not> cl_lost c' \<and> \<not> cl_mixed c' \<longrightarrow> settled K c' ch = rk_rules K (topic_rules (topic_update K rules t)))"
    by (auto simp: topic_update_def map_of_broadcast ch c' channel_full_def channel_send_def settled_def apply_snapshot)
qed

lemma inv_delta:
  assumes inv: "sync_inv K \<lparr>net_topic = t, net_clients = cs\<rparr>"
    and apply_u: "\<And>v. distinct (map (rk_key K) (topic_rules t)) \<Longrightarrow> rk_apply K \<lparr>rs_Update = Some u, rs_VersionInfo = v\<rparr> (rk_rules K (topic_rules t)) = rk_rules K rs"
  shows "sync_inv K \<lparr>net_topic = broadcast u (t\<lparr>topic_rules := rs\<rparr>), net_clients = note_delta K t cs\<rparr>"
  unfolding sync_inv_def net.simps
proof (intro allI impI)
  fix sid c'
  assume "note_delta K t cs sid = Some c'"
  then obtain c where c: "cs sid = Some c" and c': "c' = c\<lparr>cl_lost := cl_lost c \<or> channel_full t sid,
      cl_mixed := cl_mixed c \<or> \<not> distinct (map (rk_key K) (topic_rules t))\<rparr>" by (auto simp: note_delta_def)
  then obtain ch where ch: "map_of (topic_subscribers t) sid = Some ch"
    and ok: "\<not> cl_lost c \<and> \<not> cl_mixed c \<longrightarrow> settled K c ch = rk_rules K (topic_rules t)" using inv by (fastforce simp: sync_inv_def)
  show "\<exists>ch. map_of (topic_subscribers (broadcast u (t\<lparr>topic_rules := rs\<rparr>))) sid = Some ch \<and>
      (\<not> cl_lost c' \<and> \<not> cl_mixed c' \<longrightarrow> settled K c' ch = rk_rules K (topic_rules (broadcast u (t\<lparr>topic_rules := rs\<rparr>))))"
    using ok apply_u by (auto simp: map_of_broadcast ch c' channel_full_def channel_send_def settled_def)
qed

lemma inv_send:
  assumes inv: "sync_inv K \<lparr>net_topic = t, net_clients = cs\<rparr>" and c: "cs sid = Some c"
    and nxt: "stream_next sid t = Some (resp, t')"
  shows "sync_inv K \<lparr>net_topic = t', net_clients = cs(sid \<mapsto> c\<lparr>cl_wire := cl_wire c @ [resp]\<rparr>)\<rparr>"
proof -
  from nxt obtain ch where "map_of (topic_subscribers t) sid = Some (resp # ch)"
    "t' = t\<lparr>topic_subscribers := mput sid ch (topic_subscribers t)\<rparr>"
    by (auto simp: stream_next_def split: option.splits list.splits)
  with inv c show ?thesis by (fastforce simp: sync_inv_def settled_def)
qed

lemma inv_receive:
  assumes "sync_inv K \<lparr>net_topic = t, net_clients = cs\<rparr>" "cs sid = Some c" "cl_wire c = resp # w"
  shows "sync_inv K \<lparr>net_topic = t, net_clients = cs(sid \<mapsto> c\<lparr>cl_wire := w, cl_rules := rk_apply K resp (cl_rules c)\<rparr>)\<rparr>"
  using assms by (fastforce simp: sync_inv_def settled_def)

lemma inv_step: "net_step K n n' \<Longrightarrow> sync_inv K n \<Longrightarrow> sync_inv K n'"
proof (induction rule: net_step.induct)
  case (subscribe t sid cs)
  then show ?case by (fastforce simp: sync_inv_def settled_def topic_subscribe_def topic_snapshot_def apply_snapshot)
next
  case (update t cs rules) then show ?case by (rule inv_update)
next
  case (upsert t cs rule) then show ?case unfolding topic_upsert_def by (intro inv_delta) (simp_all add: apply_upsert)
next
  case (remove t cs ref) then show ?case unfolding topic_remove_def by (intro inv_delta) (simp_all add: apply_remove)
next
  case (send cs sid c t resp t') then show ?case using inv_send by blast
next
  case (receive cs sid c resp w t) then show ?case using inv_receive by blast
next
  case (disconnect t cs sid) then show ?case by (auto simp: sync_inv_def stream_end_def)
qed

lemma inv_reachable: "net_reaches K net_start n \<Longrightarrow> sync_inv K n"
proof (induction rule: rtranclp_induct)
  case base show ?case by (simp add: sync_inv_def net_start_def)
qed (rule inv_step)

lemma caught_up_rules:
  assumes "net_reaches K net_start n" "caught_up n sid c" "\<not> cl_mixed c"
  shows "holds_rules (rk_key K) c (net_topic n)"
  using inv_reachable [OF assms(1)] assms(2,3)
  by (intro holds_rulesI) (fastforce simp: sync_inv_def caught_up_def settled_def rk_rules_def)

end

subsection \<open>The three kinds of rule follow the protocol\<close>

lemma put_rules_map:
  "(\<And>r. fromProto (toProto r) = r) \<Longrightarrow>
     put_rules fromProto key (map toProto rs) m = mput_all (map (\<lambda>r. (key r, r)) rs) m"
  by (induction rs arbitrary: m) (simp_all add: put_rules_def)

lemma upsert_rule_keys:
  "set (map key (upsert_rule (\<lambda>r r'. key r = key r') rule rs)) = insert (key rule) (set (map key rs))"
  by (induction rs) auto

lemma distinct_upsert:
  "distinct (map key rs) \<Longrightarrow> distinct (map key (upsert_rule (\<lambda>r r'. key r = key r') rule rs))"
proof (induction rs)
  case (Cons r rs)
  then show ?case using upsert_rule_keys [of key rule rs] by auto
qed simp

lemma map_rules_upsert:
  assumes "distinct (map key rs)"
  shows "mput (key rule) rule (map_rules key rs) = map_rules key (upsert_rule (\<lambda>r r'. key r = key r') rule rs)"
proof (rule mwf_ext)
  have "map_of (map (\<lambda>r. (key r, r)) (upsert_rule (\<lambda>r r'. key r = key r') rule rs)) =
      (map_of (map (\<lambda>r. (key r, r)) rs))(key rule \<mapsto> rule)"
    by (induction rs) auto
  then show "map_of (mput (key rule) rule (map_rules key rs)) = map_of (map_rules key (upsert_rule (\<lambda>r r'. key r = key r') rule rs))"
    using assms distinct_upsert [OF assms] by (simp add: map_of_map_rules)
qed simp_all

lemma map_rules_filter:
  assumes "distinct (map key rs)"
  shows "filter (\<lambda>(k, _). P k) (map_rules key rs) = map_rules key (filter (\<lambda>r. P (key r)) rs)"
proof (rule mwf_ext)
  have "map_of (filter (\<lambda>(k, _). P k) m) = (\<lambda>k. if P k then map_of m k else None)" for m :: "('a \<times> 'b) list"
    by (induction m) (auto simp: fun_eq_iff)
  moreover have "map_of (map (\<lambda>r. (key r, r)) (filter (\<lambda>r. P (key r)) rs)) =
      (\<lambda>k. if P k then map_of (map (\<lambda>r. (key r, r)) rs) k else None)"
    by (induction rs) (auto simp: fun_eq_iff)
  ultimately show "map_of (filter (\<lambda>(k, _). P k) (map_rules key rs)) = map_of (map_rules key (filter (\<lambda>r. P (key r)) rs))"
    unfolding map_of_map_rules [OF distinct_map_filter [OF assms]] by (simp only: map_of_map_rules [OF assms])
  show "mwf (filter (\<lambda>(k, _). P k) (map_rules key rs))"
    using mwf_map_rules [of key rs] unfolding mwf_def sorted_wrt_map by (rule sorted_wrt_filter)
qed simp

lemma remove_rule_filter: "distinct (map key rs) \<Longrightarrow> remove_rule (\<lambda>r. key r = k) rs = filter (\<lambda>r. key r \<noteq> k) rs"
proof (induction rs)
  case (Cons r rs)
  then show ?case by (auto intro!: filter_True [symmetric] simp: image_iff)
qed simp

lemma mdel_map_rules: "distinct (map key rs) \<Longrightarrow> mdel k (map_rules key rs) = map_rules key (remove_rule (\<lambda>r. key r = k) rs)"
  using map_rules_filter [of key rs "\<lambda>k'. k' \<noteq> k"] by (simp add: mdel_def remove_rule_filter)

interpretation gen_protocol: rule_protocol generation_kind
proof
  show "rk_apply generation_kind \<lparr>rs_Update = Some (Snapshot (map (rk_toProto generation_kind) rs)), rs_VersionInfo = v\<rparr> m =
      rk_rules generation_kind rs" for rs v m
    by (simp add: generation_kind_def apply_generation_def rk_rules_def map_rules_def put_rules_map generation_roundtrip)
  fix rs assume d: "distinct (map (rk_key generation_kind) rs)"
  then show "rk_apply generation_kind \<lparr>rs_Update = Some (Delta [rk_toProto generation_kind r] []), rs_VersionInfo = v\<rparr> (rk_rules generation_kind rs) =
      rk_rules generation_kind (upsert_rule (\<lambda>r r'. rk_key generation_kind r = rk_key generation_kind r') r rs)" for r v
    by (simp add: generation_kind_def apply_generation_def rk_rules_def put_rules_def generation_roundtrip map_rules_upsert)
  show "rk_apply generation_kind \<lparr>rs_Update = Some (Delta [] [ref]), rs_VersionInfo = v\<rparr> (rk_rules generation_kind rs) =
      rk_rules generation_kind (rk_remove generation_kind ref rs)" for ref v
    using d mdel_map_rules [of generation_key rs "(ref_Namespace ref, ref_Name ref)"]
    by (simp add: generation_kind_def apply_generation_def rk_rules_def put_rules_def generation_key_def)
qed

interpretation ver_protocol: rule_protocol verification_kind
proof
  show "rk_apply verification_kind \<lparr>rs_Update = Some (Snapshot (map (rk_toProto verification_kind) rs)), rs_VersionInfo = v\<rparr> m =
      rk_rules verification_kind rs" for rs v m
    by (simp add: verification_kind_def apply_verification_def rk_rules_def map_rules_def put_rules_map verification_roundtrip)
  fix rs assume d: "distinct (map (rk_key verification_kind) rs)"
  then show "rk_apply verification_kind \<lparr>rs_Update = Some (Delta [rk_toProto verification_kind r] []), rs_VersionInfo = v\<rparr> (rk_rules verification_kind rs) =
      rk_rules verification_kind (upsert_rule (\<lambda>r r'. rk_key verification_kind r = rk_key verification_kind r') r rs)" for r v
    by (simp add: verification_kind_def apply_verification_def rk_rules_def put_rules_def verification_roundtrip map_rules_upsert)
  show "rk_apply verification_kind \<lparr>rs_Update = Some (Delta [] [ref]), rs_VersionInfo = v\<rparr> (rk_rules verification_kind rs) =
      rk_rules verification_kind (rk_remove verification_kind ref rs)" for ref v
    using d mdel_map_rules [of verification_key rs "(ref_Namespace ref, ref_Name ref)"]
    by (simp add: verification_kind_def apply_verification_def rk_rules_def put_rules_def verification_key_def)
qed

interpretation iss_protocol: rule_protocol issuance_kind
proof
  show "rk_apply issuance_kind \<lparr>rs_Update = Some (Snapshot (map (rk_toProto issuance_kind) rs)), rs_VersionInfo = v\<rparr> m =
      rk_rules issuance_kind rs" for rs v m
    by (simp add: issuance_kind_def apply_issuance_def rk_rules_def map_rules_def put_rules_map issuance_roundtrip)
  fix rs assume d: "distinct (map (rk_key issuance_kind) rs)"
  then show "rk_apply issuance_kind \<lparr>rs_Update = Some (Delta [rk_toProto issuance_kind r] []), rs_VersionInfo = v\<rparr> (rk_rules issuance_kind rs) =
      rk_rules issuance_kind (upsert_rule (\<lambda>r r'. rk_key issuance_kind r = rk_key issuance_kind r') r rs)" for r v
    by (simp add: issuance_kind_def apply_issuance_def rk_rules_def put_rules_def issuance_roundtrip map_rules_upsert)
  show "rk_apply issuance_kind \<lparr>rs_Update = Some (Delta [] [ref]), rs_VersionInfo = v\<rparr> (rk_rules issuance_kind rs) =
      rk_rules issuance_kind (rk_remove issuance_kind ref rs)" for ref v
    using d map_rules_filter [of keyFor rs "\<lambda>(pns, pn, _). \<not> (pns = ref_Namespace ref \<and> pn = ref_Name ref)"]
    by (simp add: issuance_kind_def apply_issuance_def rk_rules_def put_rules_def keyFor_def case_prod_unfold)
qed

subsection \<open>Delivery\<close>

text \<open>A run that concerns one client: the rules of the server and the other clients with their channels stay as they are.\<close>

definition only_client :: "string \<Rightarrow> ('k, 'r, 'p) net \<Rightarrow> ('k, 'r, 'p) net \<Rightarrow> bool" where
  "only_client sid n n' \<longleftrightarrow>
     topic_rules (net_topic n') = topic_rules (net_topic n) \<and>
     (\<forall>sid'. sid' \<noteq> sid \<longrightarrow> net_clients n' sid' = net_clients n sid' \<and>
        map_of (topic_subscribers (net_topic n')) sid' = map_of (topic_subscribers (net_topic n)) sid')"

lemma only_client_trans: "only_client sid n n' \<Longrightarrow> only_client sid n' n'' \<Longrightarrow> only_client sid n n''"
  by (simp add: only_client_def)

lemma receive_all:
  "net_clients n sid = Some c \<Longrightarrow>
     \<exists>n'. net_reaches K n n' \<and> only_client sid n n' \<and> net_topic n' = net_topic n \<and>
        net_clients n' sid = Some (c\<lparr>cl_wire := [], cl_rules := fold (rk_apply K) (cl_wire c) (cl_rules c)\<rparr>)"
proof (induction "cl_wire c" arbitrary: n c)
  case Nil
  then show ?case by (intro exI [of _ n]) (simp add: only_client_def)
next
  case (Cons resp w)
  obtain t cs where n: "n = \<lparr>net_topic = t, net_clients = cs\<rparr>" by (cases n) auto
  let ?c = "c\<lparr>cl_wire := w, cl_rules := rk_apply K resp (cl_rules c)\<rparr>"
  let ?n = "\<lparr>net_topic = t, net_clients = cs(sid \<mapsto> ?c)\<rparr>"
  have step: "net_step K n ?n" unfolding n using Cons.prems Cons.hyps(2) n by (intro net_step.receive) auto
  have only: "only_client sid n ?n" by (simp add: n only_client_def)
  obtain n' where "net_reaches K ?n n'" "only_client sid ?n n'" "net_topic n' = net_topic ?n"
    "net_clients n' sid = Some (?c\<lparr>cl_wire := [], cl_rules := fold (rk_apply K) (cl_wire ?c) (cl_rules ?c)\<rparr>)"
    using Cons.hyps(1) [of ?c ?n] by auto
  with step only_client_trans [OF only] show ?case using Cons.hyps(2) [symmetric] n
    by (intro exI [of _ n']) (auto intro: converse_rtranclp_into_rtranclp)
qed

text \<open>Whatever is under way to a client can be delivered, and leaves it with the settled map.\<close>

lemma drain:
  "net_clients n sid = Some c \<Longrightarrow> map_of (topic_subscribers (net_topic n)) sid = Some ch \<Longrightarrow>
     \<exists>n'. net_reaches K n n' \<and> only_client sid n n' \<and> map_of (topic_subscribers (net_topic n')) sid = Some [] \<and>
        net_clients n' sid = Some (c\<lparr>cl_wire := [], cl_rules := settled K c ch\<rparr>)"
proof (induction ch arbitrary: n c)
  case Nil
  then show ?case using receive_all [of n sid c K] by (auto simp: settled_def)
next
  case (Cons resp ch)
  obtain t cs where n: "n = \<lparr>net_topic = t, net_clients = cs\<rparr>" by (cases n) auto
  let ?t = "t\<lparr>topic_subscribers := mput sid ch (topic_subscribers t)\<rparr>"
  let ?c = "c\<lparr>cl_wire := cl_wire c @ [resp]\<rparr>"
  let ?n = "\<lparr>net_topic = ?t, net_clients = cs(sid \<mapsto> ?c)\<rparr>"
  have step: "net_step K n ?n" unfolding n using Cons.prems n by (intro net_step.send) (auto simp: stream_next_def)
  have only: "only_client sid n ?n" by (simp add: n only_client_def)
  obtain n' where "net_reaches K ?n n'" "only_client sid ?n n'"
    "map_of (topic_subscribers (net_topic n')) sid = Some []" "net_clients n' sid = Some (?c\<lparr>cl_wire := [], cl_rules := settled K ?c ch\<rparr>)"
    using Cons.IH [of ?n ?c] by auto
  with step only_client_trans [OF only] show ?case using n
    by (intro exI [of _ n']) (auto simp: settled_def intro: converse_rtranclp_into_rtranclp)
qed

context rule_protocol
begin

lemma update_repairs:
  assumes "net_reaches K net_start \<lparr>net_topic = t, net_clients = cs\<rparr>" "cs sid = Some c" "\<not> channel_full t sid"
  shows "\<exists>n' c'. net_reaches K \<lparr>net_topic = topic_update K rules t, net_clients = note_snapshot t cs\<rparr> n' \<and>
     only_client sid \<lparr>net_topic = topic_update K rules t, net_clients = note_snapshot t cs\<rparr> n' \<and>
     topic_rules (net_topic n') = rules \<and> caught_up n' sid c' \<and> holds_rules (rk_key K) c' (net_topic n')"
proof -
  let ?n = "\<lparr>net_topic = topic_update K rules t, net_clients = note_snapshot t cs\<rparr>"
  let ?c = "c\<lparr>cl_lost := False, cl_mixed := False\<rparr>"
  have "sync_inv K ?n" using inv_reachable [OF assms(1)] by (rule inv_update)
  moreover have c: "net_clients ?n sid = Some ?c" using assms(2,3) by (simp add: note_snapshot_def)
  ultimately obtain ch where ch: "map_of (topic_subscribers (net_topic ?n)) sid = Some ch"
    "settled K ?c ch = rk_rules K (topic_rules (net_topic ?n))" unfolding sync_inv_def by fastforce
  have r: "topic_rules (net_topic ?n) = rules" by (simp add: topic_update_def)
  obtain n' where "net_reaches K ?n n'" "only_client sid ?n n'" "map_of (topic_subscribers (net_topic n')) sid = Some []"
    "net_clients n' sid = Some (?c\<lparr>cl_wire := [], cl_rules := settled K ?c ch\<rparr>)"
    using drain [OF c ch(1)] by blast
  then show ?thesis using ch(2) r
    by (intro exI [of _ n'] exI [of _ "?c\<lparr>cl_wire := [], cl_rules := settled K ?c ch\<rparr>"])
      (auto simp: caught_up_def only_client_def rk_rules_def intro!: holds_rulesI)
qed

text \<open>With two rules under one key, a client that saw a change of one rule and a client that connects after it differ.\<close>

lemma equal_keys_run:
  assumes "rk_key K a = rk_key K b" "rk_key K r = rk_key K b" "sid \<noteq> sid'"
  shows "\<exists>n c c' d. net_reaches K net_start n \<and> topic_rules (net_topic n) = [r, b] \<and>
     net_clients n sid = Some c \<and> map_of (topic_subscribers (net_topic n)) sid = Some [d] \<and> settled K c [d] = rk_rules K [r] \<and> \<not> cl_lost c \<and>
     net_clients n sid' = Some c' \<and> map_of (topic_subscribers (net_topic n)) sid' = Some [] \<and> settled K c' [] = rk_rules K [b] \<and> \<not> cl_lost c'"
proof -
  let ?t1 = "topic_update K [a, b] empty_topic" and ?new = "\<lambda>t. \<lparr>cl_wire = [topic_snapshot K t], cl_rules = [], cl_lost = False, cl_mixed = False\<rparr>"
  let ?t2 = "topic_subscribe sid ?t1" and ?c2 = "Map.empty(sid \<mapsto> ?new ?t1)"
  let ?t3 = "topic_upsert K r ?t2" and ?c3 = "note_delta K ?t2 ?c2"
  let ?n = "\<lparr>net_topic = topic_subscribe sid' ?t3, net_clients = ?c3(sid' \<mapsto> ?new ?t3)\<rparr>"
  have none: "note_snapshot empty_topic (Map.empty :: string \<rightharpoonup> ('k, 'r, 'p) client) = Map.empty" by (rule ext) (simp add: note_snapshot_def)
  have "net_step K net_start \<lparr>net_topic = ?t1, net_clients = Map.empty\<rparr>"
    using net_step.update [of K empty_topic Map.empty "[a, b]"] unfolding net_start_def none .
  moreover have "net_step K \<lparr>net_topic = ?t1, net_clients = Map.empty\<rparr> \<lparr>net_topic = ?t2, net_clients = ?c2\<rparr>"
    by (rule net_step.subscribe) (simp add: topic_update_def broadcast_def empty_topic_def)
  moreover have "net_step K \<lparr>net_topic = ?t2, net_clients = ?c2\<rparr> \<lparr>net_topic = ?t3, net_clients = ?c3\<rparr>" by (rule net_step.upsert)
  moreover have "net_step K \<lparr>net_topic = ?t3, net_clients = ?c3\<rparr> ?n"
    using assms(3) by (intro net_step.subscribe)
      (simp add: topic_op_defs map_of_broadcast empty_topic_def)
  ultimately have run: "net_reaches K net_start ?n" by (meson converse_rtranclp_into_rtranclp rtranclp.rtrancl_refl)
  have rules: "topic_rules ?t1 = [a, b]" "topic_rules ?t3 = [r, b]" "topic_rules (net_topic ?n) = [r, b]"
    using assms(1,2) by (simp_all add: topic_op_defs)
  let ?v = "string_of_nat (unat (topic_version ?t2 + 1))"
  let ?d = "\<lparr>rs_Update = Some (Delta [rk_toProto K r] []), rs_VersionInfo = ?v\<rparr>"
  have ch: "map_of (topic_subscribers (net_topic ?n)) sid = Some [?d]" "map_of (topic_subscribers (net_topic ?n)) sid' = Some []"
    using assms(3) by (simp_all add: topic_subscribe_def topic_upsert_def map_of_broadcast channel_send_def channel_slots_def)
  let ?c = "(?new ?t1)\<lparr>cl_mixed := True\<rparr>"
  have c: "net_clients ?n sid = Some ?c" "net_clients ?n sid' = Some (?new ?t3)"
    using assms by (auto simp: note_delta_def channel_full_def topic_subscribe_def channel_slots_def rules(1) [simplified])
  have two: "rk_rules K [a, b] = rk_rules K [b]" "rk_rules K [r, b] = rk_rules K [b]"
    using assms(1,2) by (simp_all add: rk_rules_def map_rules_def)
  note snap = apply_snapshot [of "[a, b]", simplified, unfolded two] apply_snapshot [of "[r, b]", simplified, unfolded two]
  have "settled K ?c [?d] = rk_apply K ?d (rk_rules K [b])" by (simp add: settled_def topic_snapshot_def rules snap)
  also have "\<dots> = rk_rules K [r]" using apply_upsert [of "[b]" r ?v] assms(2) by simp
  finally have s: "settled K ?c [?d] = rk_rules K [r]" "settled K (?new ?t3) [] = rk_rules K [b]"
    by (simp_all add: settled_def topic_snapshot_def rules snap)
  show ?thesis using run rules(3) c ch s by (intro exI [of _ ?n] exI [of _ ?c] exI [of _ "?new ?t3"] exI [of _ ?d]) simp
qed

lemma equal_keys_diverge:
  assumes "rk_key K a = rk_key K b" "rk_key K r = rk_key K b" "sid \<noteq> sid'"
  shows "\<exists>n c c'. net_reaches K net_start n \<and> topic_rules (net_topic n) = [r, b] \<and> caught_up n sid c \<and> caught_up n sid' c' \<and>
     map snd (cl_rules c) = [r] \<and> map snd (cl_rules c') = [b]"
proof -
  obtain n c c' d where n: "net_reaches K net_start n" "topic_rules (net_topic n) = [r, b]"
    and c: "net_clients n sid = Some c" "map_of (topic_subscribers (net_topic n)) sid = Some [d]" "settled K c [d] = rk_rules K [r]" "\<not> cl_lost c"
    and c': "net_clients n sid' = Some c'" "map_of (topic_subscribers (net_topic n)) sid' = Some []" "settled K c' [] = rk_rules K [b]" "\<not> cl_lost c'"
    using equal_keys_run [OF assms] by blast
  obtain n1 where n1: "net_reaches K n n1" "only_client sid n n1" "map_of (topic_subscribers (net_topic n1)) sid = Some []"
    "net_clients n1 sid = Some (c\<lparr>cl_wire := [], cl_rules := rk_rules K [r]\<rparr>)" using drain [OF c(1,2), of K] c(3) by auto
  then have "net_clients n1 sid' = Some c'" "map_of (topic_subscribers (net_topic n1)) sid' = Some []"
    using c'(1,2) assms(3) by (simp_all add: only_client_def)
  from drain [OF this, of K] obtain n2 where n2: "net_reaches K n1 n2" "only_client sid' n1 n2"
    "map_of (topic_subscribers (net_topic n2)) sid' = Some []"
    "net_clients n2 sid' = Some (c'\<lparr>cl_wire := [], cl_rules := rk_rules K [b]\<rparr>)" using c'(3) by auto
  have reach: "net_reaches K net_start n2" using n(1) n1(1) n2(1) by simp
  have "caught_up n2 sid (c\<lparr>cl_wire := [], cl_rules := rk_rules K [r]\<rparr>)" "topic_rules (net_topic n2) = [r, b]"
    "caught_up n2 sid' (c'\<lparr>cl_wire := [], cl_rules := rk_rules K [b]\<rparr>)"
    using n1(2-4) n2(2-4) n(2) c(4) c'(4) assms(3) by (simp_all add: caught_up_def only_client_def)
  moreover have "map snd (rk_rules K [x]) = [x]" for x by (simp add: rk_rules_def map_rules_def)
  ultimately show ?thesis using reach
    by (intro exI [of _ n2] exI [of _ "c\<lparr>cl_wire := [], cl_rules := rk_rules K [r]\<rparr>"]
        exI [of _ "c'\<lparr>cl_wire := [], cl_rules := rk_rules K [b]\<rparr>"]) simp
qed

end

subsection \<open>Properties\<close>

lemmas kind_keys = generation_kind_key verification_kind_key issuance_kind_key

text \<open>
  C7. Rule distribution is faithful, for each of the three kinds of rule, whatever the interleaving of updates, upserts,
  removals, deliveries, connections and disconnections was. Take a client that has nothing left to receive, that lost no
  message since the last snapshot sent to it, and to which since then no change of a single rule was sent while the server
  held two rules with one key. It holds under each key the last rule the server has with that key; if the rules of the
  server have different keys these are exactly the rules of the server.
\<close>

theorem clients_converge:
  "(net_reaches generation_kind net_start n1 \<and> caught_up n1 sid c1 \<and> \<not> cl_mixed c1 \<longrightarrow>
      holds_rules generation_key c1 (net_topic n1)) \<and>
   (net_reaches verification_kind net_start n2 \<and> caught_up n2 sid c2 \<and> \<not> cl_mixed c2 \<longrightarrow>
      holds_rules verification_key c2 (net_topic n2)) \<and>
   (net_reaches issuance_kind net_start n3 \<and> caught_up n3 sid c3 \<and> \<not> cl_mixed c3 \<longrightarrow>
      holds_rules keyFor c3 (net_topic n3))"
  using gen_protocol.caught_up_rules [of n1 sid c1] ver_protocol.caught_up_rules [of n2 sid c2]
    iss_protocol.caught_up_rules [of n3 sid c3] unfolding kind_keys by blast

text \<open>
  C13. Recovery, for each of the three kinds of rule: whatever a connected client has missed, an update of the server that
  finds a free slot in the client's channel can be followed by deliveries to that client alone after which it has nothing
  left to receive and holds under each key the last of the new rules with that key, hence exactly the new rules if their
  keys are different.
\<close>

theorem snapshot_repairs:
  "(net_reaches generation_kind net_start \<lparr>net_topic = t1, net_clients = cs1\<rparr> \<and> cs1 sid = Some c1 \<and> \<not> channel_full t1 sid \<longrightarrow>
     (\<exists>n c. net_reaches generation_kind \<lparr>net_topic = topic_update generation_kind rules1 t1, net_clients = note_snapshot t1 cs1\<rparr> n \<and>
        only_client sid \<lparr>net_topic = topic_update generation_kind rules1 t1, net_clients = note_snapshot t1 cs1\<rparr> n \<and>
        topic_rules (net_topic n) = rules1 \<and> caught_up n sid c \<and> holds_rules generation_key c (net_topic n))) \<and>
   (net_reaches verification_kind net_start \<lparr>net_topic = t2, net_clients = cs2\<rparr> \<and> cs2 sid = Some c2 \<and> \<not> channel_full t2 sid \<longrightarrow>
     (\<exists>n c. net_reaches verification_kind \<lparr>net_topic = topic_update verification_kind rules2 t2, net_clients = note_snapshot t2 cs2\<rparr> n \<and>
        only_client sid \<lparr>net_topic = topic_update verification_kind rules2 t2, net_clients = note_snapshot t2 cs2\<rparr> n \<and>
        topic_rules (net_topic n) = rules2 \<and> caught_up n sid c \<and> holds_rules verification_key c (net_topic n))) \<and>
   (net_reaches issuance_kind net_start \<lparr>net_topic = t3, net_clients = cs3\<rparr> \<and> cs3 sid = Some c3 \<and> \<not> channel_full t3 sid \<longrightarrow>
     (\<exists>n c. net_reaches issuance_kind \<lparr>net_topic = topic_update issuance_kind rules3 t3, net_clients = note_snapshot t3 cs3\<rparr> n \<and>
        only_client sid \<lparr>net_topic = topic_update issuance_kind rules3 t3, net_clients = note_snapshot t3 cs3\<rparr> n \<and>
        topic_rules (net_topic n) = rules3 \<and> caught_up n sid c \<and> holds_rules keyFor c (net_topic n)))"
  using gen_protocol.update_repairs [of t1 cs1 sid c1 rules1] ver_protocol.update_repairs [of t2 cs2 sid c2 rules2]
    iss_protocol.update_repairs [of t3 cs3 sid c3 rules3] unfolding kind_keys by blast

text \<open>
  C38. Two rules under one key break the distribution, for each of the three kinds of rule: the server replaces the first of
  the two and keeps the second, a client replaces the only one it has. There is a run after which the server holds the
  changed rule and the old one, a client that was connected holds the changed rule, and a client that connected later holds
  the old one, although neither has lost a message or has anything left to receive.
\<close>

theorem equal_keys_split_clients:
  assumes "sid \<noteq> sid'"
  shows "(generation_key a1 = generation_key b1 \<and> generation_key r1 = generation_key b1 \<longrightarrow>
      (\<exists>n c c'. net_reaches generation_kind net_start n \<and> topic_rules (net_topic n) = [r1, b1] \<and> caught_up n sid c \<and>
         caught_up n sid' c' \<and> map snd (cl_rules c) = [r1] \<and> map snd (cl_rules c') = [b1])) \<and>
    (verification_key a2 = verification_key b2 \<and> verification_key r2 = verification_key b2 \<longrightarrow>
      (\<exists>n c c'. net_reaches verification_kind net_start n \<and> topic_rules (net_topic n) = [r2, b2] \<and> caught_up n sid c \<and>
         caught_up n sid' c' \<and> map snd (cl_rules c) = [r2] \<and> map snd (cl_rules c') = [b2])) \<and>
    (keyFor a3 = keyFor b3 \<and> keyFor r3 = keyFor b3 \<longrightarrow>
      (\<exists>n c c'. net_reaches issuance_kind net_start n \<and> topic_rules (net_topic n) = [r3, b3] \<and> caught_up n sid c \<and>
         caught_up n sid' c' \<and> map snd (cl_rules c) = [r3] \<and> map snd (cl_rules c') = [b3]))"
  using gen_protocol.equal_keys_diverge [of a1 b1 r1 sid sid'] ver_protocol.equal_keys_diverge [of a2 b2 r2 sid sid']
    iss_protocol.equal_keys_diverge [of a3 b3 r3 sid sid'] assms unfolding kind_keys by blast

subsection \<open>Overflow\<close>

lemma fill_channel:
  "k \<le> channel_slots \<Longrightarrow>
     \<exists>n c ch. net_reaches issuance_kind net_start n \<and> net_clients n sid = Some c \<and> cl_rules c = [] \<and>
        map_of (topic_subscribers (net_topic n)) sid = Some ch \<and> length ch = k \<and>
        (\<forall>m\<in>set (cl_wire c @ ch). rs_Update m = Some (Snapshot []))"
proof (induction k)
  case 0
  have "net_step issuance_kind net_start \<lparr>net_topic = topic_subscribe sid empty_topic,
      net_clients = Map.empty(sid \<mapsto> \<lparr>cl_wire = [topic_snapshot issuance_kind empty_topic], cl_rules = [], cl_lost = False, cl_mixed = False\<rparr>)\<rparr>"
    unfolding net_start_def by (rule net_step.subscribe) (simp add: empty_topic_def)
  from r_into_rtranclp [of "net_step issuance_kind", OF this] show ?case
    by (intro exI conjI) (assumption | simp add: topic_subscribe_def topic_snapshot_def empty_topic_def)+
next
  case (Suc k)
  then obtain n c ch where n: "net_reaches issuance_kind net_start n" "net_clients n sid = Some c" "cl_rules c = []"
    "map_of (topic_subscribers (net_topic n)) sid = Some ch" "length ch = k"
    "\<forall>m\<in>set (cl_wire c @ ch). rs_Update m = Some (Snapshot [])" by auto
  obtain t cs where tcs: "n = \<lparr>net_topic = t, net_clients = cs\<rparr>" by (cases n) auto
  let ?n = "\<lparr>net_topic = topic_update issuance_kind [] t, net_clients = note_snapshot t cs\<rparr>"
  have "net_reaches issuance_kind net_start ?n"
    using n(1) net_step.update [of issuance_kind t cs "[]"] unfolding tcs by (rule rtranclp.rtrancl_into_rtrancl)
  then show ?case using n Suc.prems unfolding tcs
    by (intro exI conjI) (assumption | simp add: note_snapshot_def topic_update_def map_of_broadcast channel_send_def)+
qed

lemma empty_snapshots_settle:
  "\<forall>m\<in>set ms. rs_Update m = Some (Snapshot []) \<Longrightarrow> fold (rk_apply issuance_kind) ms [] = []"
  by (induction ms) (simp_all add: issuance_kind_def apply_issuance_def put_rules_def)

text \<open>
  C39. A full channel drops even a full snapshot, and nothing tells the client: for every rule there is a run after which
  the server has that rule, the client has received everything that was sent to it, and it holds no rule at all.
\<close>

theorem overflow_leaves_client_stale:
  "\<exists>n c. net_reaches issuance_kind net_start n \<and> net_clients n sid = Some c \<and> cl_wire c = [] \<and>
     map_of (topic_subscribers (net_topic n)) sid = Some [] \<and> topic_rules (net_topic n) = [rule] \<and> cl_rules c = []"
proof -
  obtain n c ch where n: "net_reaches issuance_kind net_start n" "net_clients n sid = Some c" "cl_rules c = []"
    "map_of (topic_subscribers (net_topic n)) sid = Some ch" "length ch = channel_slots"
    "\<forall>m\<in>set (cl_wire c @ ch). rs_Update m = Some (Snapshot [])" using fill_channel by blast
  obtain t cs where tcs: "n = \<lparr>net_topic = t, net_clients = cs\<rparr>" by (cases n) auto
  let ?n = "\<lparr>net_topic = topic_update issuance_kind [rule] t, net_clients = note_snapshot t cs\<rparr>"
  let ?c = "c\<lparr>cl_lost := True\<rparr>"
  have run: "net_reaches issuance_kind net_start ?n"
    using n(1) net_step.update [of issuance_kind t cs "[rule]"] unfolding tcs by (rule rtranclp.rtrancl_into_rtrancl)
  have c: "net_clients ?n sid = Some ?c" "map_of (topic_subscribers (net_topic ?n)) sid = Some ch"
    "topic_rules (net_topic ?n) = [rule]"
    using n by (simp_all add: tcs note_snapshot_def channel_full_def topic_update_def map_of_broadcast channel_send_def)
  have "settled issuance_kind ?c ch = []" using n(3) empty_snapshots_settle [OF n(6)] by (simp add: settled_def)
  with drain [OF c(1,2), of issuance_kind] c(3) obtain n' where
    "net_reaches issuance_kind ?n n'" "topic_rules (net_topic n') = [rule]"
    "map_of (topic_subscribers (net_topic n')) sid = Some []" "net_clients n' sid = Some (?c\<lparr>cl_wire := [], cl_rules := []\<rparr>)"
    by (auto simp: only_client_def)
  then show ?thesis using rtranclp_trans [OF run] by (intro exI conjI) (assumption | simp)+
qed

subsection \<open>A run\<close>

definition demo_issuance_rule :: PublishedIssuanceRule where
  "demo_issuance_rule = \<lparr>pi_PolicyNamespace = [], pi_PolicyName = ''base'', pi_RuleName = ''all'', pi_CEL = ''true'',
     pi_Message = ''always'', pi_TargetNamespaces = []\<rparr>"

text \<open>A client connects to an empty server.\<close>

lemma demo_connected:
  "net_reaches issuance_kind net_start
     \<lparr>net_topic = topic_subscribe ''iss-1'' empty_topic,
      net_clients = Map.empty(''iss-1'' \<mapsto> \<lparr>cl_wire = [topic_snapshot issuance_kind empty_topic], cl_rules = [], cl_lost = False, cl_mixed = False\<rparr>)\<rparr>"
  using net_step.subscribe [of empty_topic "''iss-1''" issuance_kind Map.empty]
  by (simp add: net_start_def r_into_rtranclp empty_topic_def)

theorem clients_converge_witness:
  "\<exists>n c. net_reaches issuance_kind net_start n \<and> caught_up n ''iss-1'' c \<and>
     topic_rules (net_topic n) = [demo_issuance_rule] \<and> mset (map snd (cl_rules c)) = mset [demo_issuance_rule]"
proof -
  let ?t = "topic_subscribe ''iss-1'' empty_topic :: (PublishedIssuanceRule, pb_IssuanceRule) topic"
  let ?cs = "Map.empty(''iss-1'' \<mapsto> \<lparr>cl_wire = [topic_snapshot issuance_kind empty_topic], cl_rules = [], cl_lost = False, cl_mixed = False\<rparr>)"
  let ?n = "\<lparr>net_topic = topic_update issuance_kind [demo_issuance_rule] ?t, net_clients = note_snapshot ?t ?cs\<rparr>
    :: (string \<times> string \<times> string, PublishedIssuanceRule, pb_IssuanceRule) net"
  have run: "net_reaches issuance_kind net_start ?n"
    using demo_connected net_step.update [of issuance_kind ?t ?cs "[demo_issuance_rule]"] by (rule rtranclp.rtrancl_into_rtrancl)
  obtain c ch where c: "net_clients ?n ''iss-1'' = Some c" "map_of (topic_subscribers (net_topic ?n)) ''iss-1'' = Some ch"
    "\<not> cl_lost c" "\<not> cl_mixed c"
    by (simp add: note_snapshot_def topic_subscribe_def channel_full_def channel_slots_def topic_update_def map_of_broadcast)
  let ?c = "c\<lparr>cl_wire := [], cl_rules := settled issuance_kind c ch\<rparr>"
  obtain n' where n': "net_reaches issuance_kind ?n n'" "only_client ''iss-1'' ?n n'"
    "map_of (topic_subscribers (net_topic n')) ''iss-1'' = Some []" "net_clients n' ''iss-1'' = Some ?c"
    using drain [OF c(1,2), of issuance_kind] by blast
  have "net_reaches issuance_kind net_start n'" using run n'(1) by (rule rtranclp_trans)
  moreover have up: "caught_up n' ''iss-1'' ?c" "\<not> cl_mixed ?c" using n'(3,4) c(3,4) by (simp_all add: caught_up_def)
  moreover have rules: "topic_rules (net_topic n') = [demo_issuance_rule]" using n'(2) by (simp add: only_client_def topic_update_def)
  ultimately have "holds_rules keyFor ?c (net_topic n')"
    using clients_converge [of undefined "''iss-1''" undefined undefined undefined n' ?c] by blast
  then have "mset (map snd (cl_rules ?c)) = mset [demo_issuance_rule]"
    unfolding holds_rules_def rules by (elim conjE mp) simp
  with \<open>net_reaches issuance_kind net_start n'\<close> up(1) rules show ?thesis by (intro exI [of _ n'] exI [of _ ?c] conjI)
qed

theorem snapshot_repairs_witness:
  "\<exists>n' c'. net_reaches issuance_kind net_start n' \<and> topic_rules (net_topic n') = [demo_issuance_rule] \<and>
     caught_up n' ''iss-1'' c' \<and> mset (map snd (cl_rules c')) = mset [demo_issuance_rule]"
proof -
  let ?t = "topic_subscribe ''iss-1'' empty_topic :: (PublishedIssuanceRule, pb_IssuanceRule) topic"
  let ?c = "\<lparr>cl_wire = [topic_snapshot issuance_kind empty_topic], cl_rules = [], cl_lost = False, cl_mixed = False\<rparr>"
  let ?n = "\<lparr>net_topic = topic_update issuance_kind [demo_issuance_rule] ?t, net_clients = note_snapshot ?t (Map.empty(''iss-1'' \<mapsto> ?c))\<rparr>"
  have c: "(Map.empty(''iss-1'' \<mapsto> ?c)) ''iss-1'' = Some ?c" by simp
  have free: "\<not> channel_full ?t ''iss-1''" by (simp add: channel_full_def topic_subscribe_def channel_slots_def)
  have step: "net_reaches issuance_kind net_start ?n"
    using demo_connected net_step.update by (rule rtranclp.rtrancl_into_rtrancl)
  obtain n c' where n: "net_reaches issuance_kind ?n n" "topic_rules (net_topic n) = [demo_issuance_rule]" "caught_up n ''iss-1'' c'"
    "holds_rules keyFor c' (net_topic n)"
    using snapshot_repairs [THEN conjunct2, THEN conjunct2, THEN mp, OF conjI, OF demo_connected conjI, OF c free, of "[demo_issuance_rule]"]
    by blast
  have "mset (map snd (cl_rules c')) = mset [demo_issuance_rule]" using n(4) unfolding holds_rules_def n(2) by (elim conjE mp) simp
  with rtranclp_trans [OF step n(1)] n(2,3) show ?thesis by blast
qed

theorem equal_keys_split_clients_witness:
  "\<exists>n c c'. net_reaches issuance_kind net_start n \<and>
     topic_rules (net_topic n) = [demo_issuance_rule\<lparr>pi_CEL := ''false''\<rparr>, demo_issuance_rule] \<and>
     caught_up n ''iss-1'' c \<and> caught_up n ''iss-2'' c' \<and> map snd (cl_rules c) \<noteq> map snd (cl_rules c')"
proof -
  let ?r = "demo_issuance_rule\<lparr>pi_CEL := ''false''\<rparr>"
  have "keyFor ?r = keyFor demo_issuance_rule" "?r \<noteq> demo_issuance_rule" by (simp_all add: keyFor_def demo_issuance_rule_def)
  then show ?thesis
    using equal_keys_split_clients [of "''iss-1''" "''iss-2''" _ _ _ _ _ _ demo_issuance_rule demo_issuance_rule ?r] by fastforce
qed

end
