(* ===== verification/Demo.thy ===== *)
theory Demo
  imports TTS
begin

text \<open>
  A concrete token service, used to apply the properties of the token flow to an input: one key, one issued
  transaction token (whose wire form is abbreviated to \<open>tok\<close>), a handler and a replacement request. Signing and parsing are
  the reference functions of theory \<open>Token\<close>.
\<close>

definition demo_key :: rsa_private where
  "demo_key = \<lparr>rsa_PublicKey = \<lparr>rsa_N = 3233, rsa_E = 17\<rparr>, rsa_D = 413\<rparr>"

definition demo_entry :: keyEntry where
  "demo_entry = \<lparr>privateKey = demo_key, kid = ''k1''\<rparr>"

definition demo_manager :: Manager where
  "demo_manager = \<lparr>current = demo_entry, previous = None, keySize = 2048, lifetime = 15 * nanos\<rparr>"

definition demo_claims :: Claims where
  "demo_claims =
     empty_claims\<lparr>Issuer := ''tts'', Audience := ''td'', Subject := ''alice'', Scope := ''read write'',
       RequestingWorkload := ''web'', TransactionID := ''t1'', TransactionContext := Some [(''id'', JStr ''7'')]\<rparr>"

definition demo_now :: int where "demo_now = 1000 * nanos"
definition demo_lifetime :: int where "demo_lifetime = 15 * nanos"

definition demo_jwt :: jwt_token where
  "demo_jwt = jwt_of ''u1'' demo_now demo_claims (kid (current demo_manager)) demo_lifetime"

definition demo_decode :: "string \<Rightarrow> jwt_token option" where
  "demo_decode s = (if s = ''tok'' then Some demo_jwt else ref_decode s)"

definition demo_sig_ok :: "string \<Rightarrow> rsa_public \<Rightarrow> bool" where
  "demo_sig_ok s k = (if s = ''tok'' then k = rsa_PublicKey demo_key else ref_sig_ok s k)"

definition demo_Parse :: "'s jwt_parse" where
  "demo_Parse = ref_Parse demo_decode demo_sig_ok"

definition demo_env :: tts_env where
  "demo_env = \<lparr>te_now = demo_now + nanos, te_uuid = ''u2'', te_sign = ref_sign,
     te_Get = (\<lambda>_. Err (LibError ''connection refused'')), te_Parse = demo_Parse\<rparr>"

definition demo_handler :: Handler where
  "demo_handler =
     SetVerifier (\<lambda>km. local_Verify demo_Parse (newLocalVerifier km ''td''))
       (NewHandler [] demo_manager ''tts'' ''td'' demo_lifetime)"

definition demo_form :: Values where
  "demo_form =
     mput_all [(''grant_type'', [GrantType]), (''subject_token'', [''tok'']),
       (''subject_token_type'', [SubjectTokenTypeTxnToken]), (''requested_token_type'', [RequestedTokenType]),
       (''scope'', [''read''])] []"

definition demo_request :: request where
  "demo_request = \<lparr>rq_Method = ''POST'', rq_Path = ''/token_endpoint'', rq_RawQuery = [],
     rq_Header = [(''Content-Type'', [''application/x-www-form-urlencoded'']), (''X-Kontxt-Workload'', [''api''])],
     rq_Body = Values_Encode demo_form\<rparr>"

definition demo_old :: Claims where
  "demo_old = issued_claims demo_claims ''t1'' demo_now demo_lifetime"

subsection \<open>Facts\<close>

lemma demo_Parse_spec: "jwt_Parse_spec demo_Parse demo_decode demo_sig_ok"
  unfolding demo_Parse_def by (rule ref_Parse_spec)

lemma ref_sign_not_tok: "ref_sign t key \<noteq> Inr ''tok''"
proof
  assume "ref_sign t key = Inr ''tok''"
  from ref_sign_split [OF this] show False by (simp del: json_Marshal.simps)
qed

lemma ref_sign_ascii:
  assumes "ref_sign t key = Inr s"
  shows "s \<noteq> [] \<and> utf8_valid s"
proof
  from ref_sign_split [OF assms] show "s \<noteq> []" by (auto simp del: json_Marshal.simps)
  have "code CHR ''.'' < 128" by (simp add: code_def)
  then show "utf8_valid s"
    using assms base64_ascii_chars
    by (intro ascii_utf8_valid) (auto simp: ref_sign_def simp del: json_Marshal.simps)
qed

lemma demo_sign_spec: "jwt_Sign_spec ref_sign demo_decode demo_sig_ok"
  using ref_sign_spec ref_sign_not_tok unfolding jwt_Sign_spec_def demo_decode_def demo_sig_ok_def by metis

lemma ascii_literal:
  "utf8_valid ''tts''" "utf8_valid ''td''" "utf8_valid ''alice''" "utf8_valid ''read write''" "utf8_valid ''read''"
  "utf8_valid ''web''" "utf8_valid ''api''" "utf8_valid ''id''" "utf8_valid ''7''" "utf8_valid ''t1''" "utf8_valid ''u1''"
  "utf8_valid ''u2''" "utf8_valid ''unknown''" "utf8_valid ''k1''"
  by (rule ascii_utf8_valid, simp add: code_def)+

lemma demo_manager_ok: "manager_ok demo_manager" "distinct (map kid (entries demo_manager))"
  by (simp_all add: manager_ok_def entries_def demo_manager_def demo_entry_def entry_ok_def rsa_key_ok_def demo_key_def
      ascii_literal)

lemma demo_times:
  "time_clean demo_now" "time_clean (demo_now + demo_lifetime)" "time_clean (demo_now + nanos)"
  "time_clean (demo_now + nanos + demo_lifetime)"
  "alive demo_now demo_lifetime (demo_now + nanos)" "alive (demo_now + nanos) demo_lifetime (demo_now + 2 * nanos)"
  by (simp_all add: time_clean_def alive_def Unix_def demo_now_def demo_lifetime_def nanos_def)

lemma demo_clean: "issue_clean ''u1'' demo_now demo_claims demo_lifetime"
  by (simp add: issue_clean_def claims_clean_def context_clean_def txn_of_def demo_claims_def empty_claims_def
      ascii_literal demo_times ascii_utf8_valid mwf_Cons)

lemma demo_ParseForm: "ParseForm demo_request = Inr demo_form"
proof (rule ParseForm_Encode)
  have "length (Values_Encode demo_form) \<le> 500" by code_simp
  then show "length (Values_Encode demo_form) \<le> maxFormSize" by (simp add: maxFormSize_def)
qed (simp_all add: demo_request_def Values_Get_def demo_form_def mwf_Cons)

lemma demo_form_values:
  "FormValue demo_form ''grant_type'' = GrantType" "FormValue demo_form ''subject_token'' = ''tok''"
  "FormValue demo_form ''subject_token_type'' = SubjectTokenTypeTxnToken"
  "FormValue demo_form ''requested_token_type'' = RequestedTokenType" "FormValue demo_form ''scope'' = ''read''"
  "FormValue demo_form ''request_details'' = []" "FormValue demo_form ''request_context'' = []"
  "FormValue demo_form ''audience'' = []"
  by (simp_all add: FormValue_def Values_Get_def demo_form_def map_of_mput_all del: mput_all_simps)

lemma demo_verified:
  "local_Verify demo_Parse (newLocalVerifier demo_manager ''td'') (demo_now + nanos) ''tok'' = Inr demo_old"
proof -
  have "jwt_Claims demo_jwt = jwt_claims_of demo_claims ''t1'' demo_now demo_lifetime"
    by (simp add: demo_jwt_def txn_of_def demo_claims_def)
  moreover have "local_resolve (newLocalVerifier demo_manager ''td'') (kid (current demo_manager)) =
      Some (rsa_PublicKey demo_key)"
    using local_resolve_entry [OF demo_manager_ok, of "current demo_manager"]
    by (simp add: entries_def demo_manager_def demo_entry_def)
  moreover have "claims_valid [WithAudience ''td''] (demo_now + nanos) (jwt_claims_of demo_claims ''t1'' demo_now demo_lifetime)"
    using claims_valid_issued [of "demo_now + nanos" demo_now demo_lifetime demo_claims] demo_times(5)
    by (simp add: alive_def demo_claims_def)
  moreover have "kid (current demo_manager) \<noteq> []" by (simp add: demo_manager_def demo_entry_def)
  ultimately show ?thesis
    unfolding local_accept_iff [OF demo_Parse_spec]
    by (simp add: demo_decode_def demo_sig_ok_def demo_old_def extractClaims_issued demo_times as_string_def
        newLocalVerifier_def) (simp add: demo_jwt_def)
qed

definition demo_req :: TokenExchangeRequest where
  "demo_req = \<lparr>xr_GrantType = GrantType, xr_SubjectToken = ''tok'', xr_SubjectTokenType = SubjectTokenTypeTxnToken,
     xr_RequestedTokenType = RequestedTokenType, xr_Audience = [], xr_Scope = ''read'',
     xr_RequestDetails = None, xr_RequestContext = None\<rparr>"

lemma demo_parseRequest: "parseRequest demo_form = Inr demo_req"
  by (simp add: parseRequest_Ok_iff demo_form_values demo_req_def parse_context_def SubjectTokenTypeTxnToken_def)

lemma Fields_demo: "Fields ''read'' = [''read'']" "Fields ''read write'' = [''read'', ''write'']"
  by code_simp+

lemma demo_replacement_issues:
  "\<exists>tok. issues demo_env demo_handler (replacement_claims demo_handler r demo_req demo_old) tok"
  by (simp add: issues_def token_New_Ok_iff demo_env_def ref_sign_def validateRequired_None_iff replacement_claims_def
      demo_handler_def SetVerifier_def NewHandler_def demo_req_def demo_old_def issued_claims_def demo_claims_def
      del: Join.simps json_Marshal.simps)

lemma demo_handler_serves:
  assumes "rq_Method r = ''POST''" "ParseForm r = Inr form" "parseRequest form = Inr demo_req"
  shows "\<exists>tok c. ServeHTTP demo_env demo_handler r = (Some (token_response tok), demo_handler) \<and>
    issues demo_env demo_handler c tok"
proof -
  obtain tok where tok: "issues demo_env demo_handler (replacement_claims demo_handler r demo_req demo_old) tok"
    using demo_replacement_issues by blast
  have h: "h_verifier demo_handler = Some (\<lambda>km. local_Verify demo_Parse (newLocalVerifier km ''td''))"
    "h_keyManager demo_handler = demo_manager"
    by (simp_all add: demo_handler_def SetVerifier_def NewHandler_def)
  have "handleReplacement demo_env demo_handler r demo_req = token_response tok \<and>
      rs_Status (token_response tok) = StatusOK"
    unfolding handleReplacement_OK_iff
  proof (intro exI conjI)
    show "local_Verify demo_Parse (newLocalVerifier (h_keyManager demo_handler) ''td'') (te_now demo_env)
        (xr_SubjectToken demo_req) = Inr demo_old"
      using h demo_verified by (simp add: demo_env_def demo_req_def)
    show "isScopeSubset (xr_Scope demo_req) (Scope demo_old)"
      by (simp add: demo_req_def isScopeSubset_iff Fields_demo demo_old_def issued_claims_def demo_claims_def)
  qed (use h tok in simp_all)
  moreover have "xr_SubjectTokenType demo_req = SubjectTokenTypeTxnToken" by (simp add: demo_req_def)
  ultimately have "ServeHTTP demo_env demo_handler r = (Some (token_response tok), demo_handler)"
    using assms by (simp add: ServeHTTP_def)
  with tok show ?thesis by blast
qed

lemma demo_served:
  "\<exists>resp. ServeHTTP demo_env demo_handler demo_request = (Some resp, demo_handler) \<and> rs_Status resp = StatusOK"
  using demo_handler_serves [OF _ demo_ParseForm demo_parseRequest]
  by (auto simp: demo_request_def token_response_def)

end
