(* ===== verification/PolicyFlow.thy ===== *)
theory PolicyFlow
  imports RuleSync Demo
begin

text \<open>
  From policies to the token service: what the policy reconciler publishes compiles at the service, and what the service
  then enforces is what the policies say.
\<close>

text \<open>The program of an expression gives true on the bindings.\<close>

definition cel_holds :: "cel_env res \<Rightarrow> string \<Rightarrow> activation \<Rightarrow> bool" where
  "cel_holds env cel act =
     (case env of
        Inl _ \<Rightarrow> False
      | Inr compile \<Rightarrow>
          (case compile cel of
             Inl _ \<Rightarrow> False
           | Inr ast \<Rightarrow> (case Program ast of Inl _ \<Rightarrow> False | Inr prg \<Rightarrow> prg act = Inr (CelBool True))))"

lemma Compile_Evaluate:
  assumes "CompileIssuanceRules NewEnv cfgs = Inr rs"
  shows "EvaluateIssuanceRules rs x = None \<longleftrightarrow>
     (\<forall>cfg\<in>set cfgs. ruleAppliesToNamespace (ic_TargetNamespaces cfg) (ix_WorkloadNS x) \<longrightarrow>
        cel_holds (newIssuanceCELEnv NewEnv) (ic_CEL cfg) (issuance_activation x))"
proof (cases "cfgs = []")
  case True
  with assms show ?thesis by (simp add: CompileIssuanceRules_def)
next
  case False
  then obtain env where env: "newIssuanceCELEnv NewEnv = Inr env" "compile_issuance_loop env 0 cfgs = Inr rs"
    using assms by (auto simp: CompileIssuanceRules_def bindr_Ok_iff)
  let ?P = "\<lambda>r. ruleAppliesToNamespace (ir_TargetNamespaces r) (ix_WorkloadNS x) \<longrightarrow> ir_program r (issuance_activation x) = Inr (CelBool True)"
  let ?Q = "\<lambda>cfg. ruleAppliesToNamespace (ic_TargetNamespaces cfg) (ix_WorkloadNS x) \<longrightarrow>
        cel_holds (newIssuanceCELEnv NewEnv) (ic_CEL cfg) (issuance_activation x)"
  have "list_all2 (\<lambda>cfg r. ?Q cfg = ?P r) cfgs rs"
    using compile_issuance_loop_Ok [OF env(2)] by (rule list_all2_mono) (auto simp: cel_holds_def env(1))
  then have "map ?Q cfgs = map ?P rs" by (induction rule: list_all2_induct) simp_all
  then have "(\<forall>b\<in>set (map ?Q cfgs). b) \<longleftrightarrow> (\<forall>b\<in>set (map ?P rs). b)" by (simp only:)
  then show ?thesis unfolding EvaluateIssuanceRules_None_iff by simp
qed

subsection \<open>The map of a client as a list\<close>

text \<open>Sorting makes the order of the range over the map irrelevant.\<close>

lemma sort_map_rules:
  assumes "mset xs = mset (map snd (map_rules key rs))"
  shows "sort_key key xs = map snd (map_rules key rs)"
proof (rule map_sorted_distinct_set_unique [of key])
  have sorted: "sorted_wrt (<) (map key (map snd (map_rules key rs)))"
    unfolding map_rules_keys using mwf_map_rules by (simp add: mwf_def)
  then show s: "sorted (map key (map snd (map_rules key rs)))" and d: "distinct (map key (map snd (map_rules key rs)))"
    unfolding strict_sorted_iff by blast+
  show set_eq: "set (sort_key key xs) = set (map snd (map_rules key rs))" using mset_eq_imp_set_eq [OF assms] by simp
  have "inj_on key (set (map snd (map_rules key rs)))" using distinct_map [THEN iffD1, OF d] by blast
  then show "inj_on key (set (sort_key key xs) \<union> set (map snd (map_rules key rs)))" unfolding set_eq by (simp only: Un_absorb)
  show "sorted (map key (sort_key key xs))" by simp
  have "mset (sort_key key xs) = mset (map snd (map_rules key rs))" using assms by simp
  then show "distinct (map key (sort_key key xs))" using d by (metis mset_eq_imp_distinct_iff mset_map)
qed

subsection \<open>Published rules compile\<close>

lemma published_compile:
  assumes "set rs \<subseteq> set (concat (map (issuance_rules_of NewEnv) policies))"
  shows "is_Ok (CompileIssuanceRules NewEnv (map rule_config rs))"
  using assms unfolding CompileIssuanceRules_Ok_iff by (fastforce simp: rule_config_def issuance_rules_of_iff)

text \<open>What is left of the published rules of the policies when of rules with one key only the last counts.\<close>

lemma last_of_each_append:
  "set (last_of_each key (xs @ ys)) = {r \<in> set (last_of_each key xs). key r \<notin> key ` set ys} \<union> set (last_of_each key ys)"
  by (induction xs) auto

lemma last_of_each_concat:
  assumes "distinct (map g ps)" "\<And>p r. r \<in> set (f p) \<Longrightarrow> h (key r) = g p"
  shows "set (last_of_each key (concat (map f ps))) = (\<Union>p\<in>set ps. set (last_of_each key (f p)))"
  using assms(1)
proof (induction ps)
  case (Cons p ps)
  have "key r \<notin> key ` set (concat (map f ps))" if r: "r \<in> set (last_of_each key (f p))" for r
  proof
    assume "key r \<in> key ` set (concat (map f ps))"
    then obtain q r' where q: "q \<in> set ps" "r' \<in> set (f q)" "key r' = key r" by auto
    then have "g q = g p" using assms(2) [of r p] assms(2) [OF q(2)] r last_of_each_subset [of key "f p"] by auto
    with Cons.prems q(1) show False by (auto simp: image_iff)
  qed
  then have "{r \<in> set (last_of_each key (f p)). key r \<notin> key ` set (concat (map f ps))} = set (last_of_each key (f p))" by blast
  with Cons show ?case by (simp add: last_of_each_append)
qed simp

lemma last_of_each_map: "inj_on k (key ` set xs) \<Longrightarrow> (\<And>x. key' (f x) = k (key x)) \<Longrightarrow>
    last_of_each key' (map f xs) = map f (last_of_each key xs)"
proof (induction xs)
  case (Cons x xs)
  have "k (key x) \<in> k ` key ` set xs \<longleftrightarrow> key x \<in> key ` set xs"
    using inj_on_image_mem_iff [OF Cons.prems(1), of "key x" "key ` set xs"] by auto
  moreover have "inj_on k (key ` set xs)" using Cons.prems(1) by (rule inj_on_subset) auto
  ultimately show ?case using Cons by (simp add: image_image)
qed simp

lemma last_of_each_filter: "last_of_each key (filter (\<lambda>x. P (key x)) xs) = filter (\<lambda>x. P (key x)) (last_of_each key xs)"
  by (induction xs) auto

text \<open>A rule is left out when a rule of the same name does not compile.\<close>

definition name_compiles :: "cel_NewEnv \<Rightarrow> ApiIssuanceRule list \<Rightarrow> string \<Rightarrow> bool" where
  "name_compiles NewEnv irs name \<longleftrightarrow> (\<forall>ir\<in>set irs. ai_Name ir = name \<longrightarrow> cel_ok (newIssuanceCELEnv NewEnv) (ai_CEL ir))"

definition published_rule :: "TokenPolicy \<Rightarrow> ApiIssuanceRule \<Rightarrow> PublishedIssuanceRule" where
  "published_rule p ir = \<lparr>pi_PolicyNamespace = [], pi_PolicyName = tp_Name p, pi_RuleName = ai_Name ir, pi_CEL = ai_CEL ir,
     pi_Message = ai_Message ir, pi_TargetNamespaces = resolveTargetNamespaces (tps_TargetNamespaces (tp_Spec p))\<rparr>"

lemma issuance_rules_of_eq:
  "issuance_rules_of NewEnv p = map (published_rule p)
     (filter (\<lambda>ir. name_compiles NewEnv (tps_IssuanceRules (tp_Spec p)) (ai_Name ir)) (tps_IssuanceRules (tp_Spec p)))"
proof -
  have names: "ai_Name ir \<notin> ie_ruleName ` set (validateIssuanceCEL NewEnv (tps_IssuanceRules (tp_Spec p))) \<longleftrightarrow>
      name_compiles NewEnv (tps_IssuanceRules (tp_Spec p)) (ai_Name ir)" for ir
    unfolding validateIssuanceCEL_names name_compiles_def by auto
  show ?thesis unfolding issuance_rules_of_def Let_def list.set_map names published_rule_def [abs_def] by (rule refl)
qed

lemma last_of_each_policies:
  assumes "distinct (map tp_Name policies)"
  shows "set (last_of_each keyFor (concat (map (issuance_rules_of NewEnv) policies))) =
     (\<Union>p\<in>set policies. published_rule p ` {ir \<in> set (last_of_each ai_Name (tps_IssuanceRules (tp_Spec p))).
        name_compiles NewEnv (tps_IssuanceRules (tp_Spec p)) (ai_Name ir)})"
proof -
  have "pi_PolicyName r = tp_Name p" if "r \<in> set (issuance_rules_of NewEnv p)" for p r
    using that by (auto simp: issuance_rules_of_eq published_rule_def)
  then have name: "fst (snd (keyFor r)) = tp_Name p" if "r \<in> set (issuance_rules_of NewEnv p)" for p r
    using that by (simp add: keyFor_def)
  have "last_of_each keyFor (issuance_rules_of NewEnv p) = map (published_rule p)
      (filter (\<lambda>ir. name_compiles NewEnv (tps_IssuanceRules (tp_Spec p)) (ai_Name ir)) (last_of_each ai_Name (tps_IssuanceRules (tp_Spec p))))" for p
    unfolding issuance_rules_of_eq last_of_each_filter [symmetric]
    by (rule last_of_each_map [where k = "\<lambda>n. ([], tp_Name p, n)"]) (auto simp: inj_on_def keyFor_def published_rule_def)
  then show ?thesis using last_of_each_concat [where h = "fst \<circ> snd" and key = keyFor, OF assms, of "issuance_rules_of NewEnv"] name by auto
qed

text \<open>
  C5. From policy to enforcement: after a successful rebuild, the snapshot of the published rules makes the token service
  ready, whatever order the client ranges over its map in, and leaves its handler with rules that accept a request exactly
  when every enforced rule of every policy whose target namespaces include the request's namespace evaluates to true. A rule
  of a policy is enforced if it is the last rule of its name in the policy and all rules of that name compile: an earlier rule
  of the same name is published and has no effect. Names of policies are unique, as those of all objects of the cluster
  without a namespace.
\<close>

theorem published_policies_enforced:
  assumes "rebuildIssuanceRules NewEnv r s = (None, s')" "tpr_IssuancePublisher r = Some UpdateIssuanceRules"
    and "kube_List (tpr_Client r) = Inr policies" "distinct (map tp_Name policies)"
    and "mset (iter (map snd (map_rules keyFor (topic_rules (issuance_topic s'))))) =
      mset (map snd (map_rules keyFor (topic_rules (issuance_topic s'))))"
    and "streamIssuance iter (buildIssSnapshot s') (NewTtsRuleClient (HandlerSetter_SetIssuanceRules NewEnv), m, Some h) = (c', m', h')"
  shows "TtsRuleClient_Ready c' \<and>
     (\<exists>h1. h' = Some h1 \<and>
        (\<forall>x. EvaluateIssuanceRules (loadIssuanceRules h1) x = None \<longleftrightarrow>
           (\<forall>p\<in>set policies. \<forall>ir\<in>set (last_of_each ai_Name (tps_IssuanceRules (tp_Spec p))).
              ruleAppliesToNamespace (resolveTargetNamespaces (tps_TargetNamespaces (tp_Spec p))) (ix_WorkloadNS x) \<and>
              (\<forall>ir'\<in>set (tps_IssuanceRules (tp_Spec p)). ai_Name ir' = ai_Name ir \<longrightarrow> cel_ok (newIssuanceCELEnv NewEnv) (ai_CEL ir')) \<longrightarrow>
              cel_holds (newIssuanceCELEnv NewEnv) (ai_CEL ir) (issuance_activation x))))"
proof -
  let ?rs = "topic_rules (issuance_topic s')"
  let ?flat = "map snd (map_rules keyFor ?rs)"
  have rs: "?rs = concat (map (issuance_rules_of NewEnv) policies)"
    using assms(1-3) by (auto simp: rebuildIssuanceRules_def publish_def UpdateIssuanceRules_def)
  have flat: "set ?flat = set (last_of_each keyFor ?rs)" using map_rules_mset by (rule mset_eq_setD)
  then obtain compiled where compiled: "CompileIssuanceRules NewEnv (map rule_config ?flat) = Inr compiled"
    using published_compile [of ?flat NewEnv policies] rs last_of_each_subset [of keyFor ?rs] by (auto simp: is_Ok_iff)
  have "apply_issuance (buildIssSnapshot s') m = map_rules keyFor ?rs"
    by (simp add: apply_issuance_def buildIssSnapshot_def issuanceRulesToProto_def put_rules_map issuance_roundtrip map_rules_def)
  then have state: "tc_synced c' \<and> h' = Some (SetIssuanceRules compiled h)"
    using assms(6) sort_map_rules [OF assms(5)] compiled
    by (auto simp: stream_defs NewTtsRuleClient_def HandlerSetter_SetIssuanceRules_def Let_def)
  have cfgs: "set (map rule_config ?flat) = rule_config ` (\<Union>p\<in>set policies. published_rule p `
      {ir \<in> set (last_of_each ai_Name (tps_IssuanceRules (tp_Spec p))). name_compiles NewEnv (tps_IssuanceRules (tp_Spec p)) (ai_Name ir)})"
    using flat unfolding rs last_of_each_policies [OF assms(4)] by (simp only: list.set_map)
  have "EvaluateIssuanceRules compiled x = None \<longleftrightarrow>
      (\<forall>p\<in>set policies. \<forall>ir\<in>set (last_of_each ai_Name (tps_IssuanceRules (tp_Spec p))).
         ruleAppliesToNamespace (resolveTargetNamespaces (tps_TargetNamespaces (tp_Spec p))) (ix_WorkloadNS x) \<and>
         name_compiles NewEnv (tps_IssuanceRules (tp_Spec p)) (ai_Name ir) \<longrightarrow>
         cel_holds (newIssuanceCELEnv NewEnv) (ai_CEL ir) (issuance_activation x))" for x
    unfolding Compile_Evaluate [OF compiled] cfgs by (auto simp: rule_config_def published_rule_def)
  with state show ?thesis by (simp add: TtsRuleClient_Ready_def loadIssuanceRules_def SetIssuanceRules_def name_compiles_def)
qed

definition demo_policies :: "RuleServer TokenPolicyReconciler" where
  "demo_policies = \<lparr>tpr_Client = demo_kube demo_policy, tpr_IssuancePublisher = Some UpdateIssuanceRules\<rparr>"

definition demo_context :: IssuanceContext where
  "demo_context = \<lparr>ix_Subject = ''alice'', ix_Scope = ''buy'', ix_Tctx = None, ix_Rctx = None, ix_Workload = ''w'', ix_WorkloadNS = []\<rparr>"

theorem published_policies_enforced_witness:
  "\<exists>h1. snd (snd (streamIssuance rev (buildIssSnapshot (snd (rebuildIssuanceRules demo_NewEnv demo_policies NewRuleServer)))
       (NewTtsRuleClient (HandlerSetter_SetIssuanceRules demo_NewEnv), [], Some demo_handler))) = Some h1 \<and>
     EvaluateIssuanceRules (loadIssuanceRules h1) demo_context = None"
proof -
  let ?s' = "snd (rebuildIssuanceRules demo_NewEnv demo_policies NewRuleServer)"
  have run: "rebuildIssuanceRules demo_NewEnv demo_policies NewRuleServer = (None, ?s')"
    by (simp add: rebuildIssuanceRules_def demo_policies_def demo_kube_def)
  have pub: "tpr_IssuancePublisher demo_policies = Some UpdateIssuanceRules"
    and list: "kube_List (tpr_Client demo_policies) = Inr [demo_policy]" by (simp_all add: demo_policies_def demo_kube_def)
  have ok: "cel_ok (newIssuanceCELEnv demo_NewEnv) ''true''"
    by (simp add: cel_ok_def newIssuanceCELEnv_def demo_NewEnv_def)
  have dist: "distinct (map tp_Name [demo_policy])" by simp
  obtain c' m' h' where res: "streamIssuance rev (buildIssSnapshot ?s')
      (NewTtsRuleClient (HandlerSetter_SetIssuanceRules demo_NewEnv), [], Some demo_handler) = (c', m', h')"
    by (metis prod_cases3)
  obtain h1 where h1: "h' = Some h1"
    "EvaluateIssuanceRules (loadIssuanceRules h1) demo_context = None \<longleftrightarrow>
       (\<forall>p\<in>set [demo_policy]. \<forall>ir\<in>set (last_of_each ai_Name (tps_IssuanceRules (tp_Spec p))).
          ruleAppliesToNamespace (resolveTargetNamespaces (tps_TargetNamespaces (tp_Spec p))) (ix_WorkloadNS demo_context) \<and>
          (\<forall>ir'\<in>set (tps_IssuanceRules (tp_Spec p)). ai_Name ir' = ai_Name ir \<longrightarrow> cel_ok (newIssuanceCELEnv demo_NewEnv) (ai_CEL ir')) \<longrightarrow>
          cel_holds (newIssuanceCELEnv demo_NewEnv) (ai_CEL ir) (issuance_activation demo_context))"
    using published_policies_enforced [OF run pub list dist mset_rev res] by blast
  have "cel_holds (newIssuanceCELEnv demo_NewEnv) ''true'' act" for act
    by (simp add: cel_holds_def newIssuanceCELEnv_def demo_NewEnv_def)
  then have "EvaluateIssuanceRules (loadIssuanceRules h1) demo_context = None"
    unfolding h1(2) by (simp add: demo_policy_def)
  with h1(1) res show ?thesis by simp
qed

end
