(* ===== verification/Connection.thy ===== *)
theory Connection
  imports PolicyFlow
begin

text \<open>
  Connections of the rule clients (\<open>connect\<close> and \<open>Run\<close> of \<open>pkg/tts/ruleclient/client.go\<close> and
  \<open>pkg/extauth/ruleclient/client.go\<close>): how a connection is dialed, its streams opened, read until an error and dialed again,
  and that what a service enforces after a reconnection is what the new connection has sent.

  What the network answers is an argument: the error of dialing, of opening the stream, of sending the request, or the
  messages that arrive before \<open>Recv\<close> fails. Each message comes with the order in which the client ranges over its map.
\<close>

subsection \<open>The client of the token service\<close>

datatype 'p answer = OpenError error | SendError error | Received 'p error

type_synonym issuance_message =
  "(PublishedIssuanceRule list \<Rightarrow> PublishedIssuanceRule list) \<times> pb_IssuanceRule stream_response"

fun issuance_loop ::
    "issuance_message list \<Rightarrow> 's TtsRuleClient \<times> (string \<times> string \<times> string, PublishedIssuanceRule) rule_map \<times> 's \<Rightarrow>
       's TtsRuleClient \<times> (string \<times> string \<times> string, PublishedIssuanceRule) rule_map \<times> 's" where
  "issuance_loop [] st = st"
| "issuance_loop ((iter, resp) # ms) st = issuance_loop ms (streamIssuance iter resp st)"

definition issuance_stream ::
    "issuance_message list answer \<Rightarrow> 's TtsRuleClient \<times> 's \<Rightarrow> error \<times> 's TtsRuleClient \<times> 's" where
  "issuance_stream answer st =
     (case answer of
        OpenError err \<Rightarrow> (Wrapf ''open issuance stream: %w'' [] err, st)
      | SendError err \<Rightarrow> (Wrapf ''send issuance request: %w'' [] err, st)
      | Received ms err \<Rightarrow>
          (case issuance_loop ms (fst st, [], snd st) of
             (c, _, s) \<Rightarrow> (Wrapf ''recv issuance: %w'' [] err, c, s)))"

definition tts_connect ::
    "error option \<times> issuance_message list answer \<Rightarrow> 's TtsRuleClient \<times> 's \<Rightarrow> error \<times> 's TtsRuleClient \<times> 's" where
  "tts_connect world st =
     (case world of
        (Some err, _) \<Rightarrow> (Wrapf ''dial controller: %w'' [] err, st)
      | (None, answer) \<Rightarrow> issuance_stream answer st)"

subsection \<open>The client of the ext-auth adapter\<close>

text \<open>
  The two streams are read by goroutines of their own; an event is a turn of one of them. \<open>connect\<close> returns with the error of
  the first of them to fail, or with that of the context when it is cancelled. It does not wait for the goroutines that are
  still running: these may handle further messages, with the map they have built up, until \<open>Recv\<close> fails for them too.
\<close>

datatype rule_event =
    is_GenerationMessage: GenerationMessage "GenerationRule list \<Rightarrow> GenerationRule list" "pb_GenerationRule stream_response"
  | VerificationMessage "VerificationRule list \<Rightarrow> VerificationRule list" "pb_VerificationRule stream_response"

datatype ending =
    GenerationEnds "unit answer"
  | VerificationEnds "unit answer"
  | Cancelled error

fun stream_error :: "string \<Rightarrow> unit answer \<Rightarrow> error" where
  "stream_error kind (OpenError err) = Wrapf (''open '' @ kind @ '' stream: %w'') [] err"
| "stream_error kind (SendError err) = Wrapf (''send '' @ kind @ '' request: %w'') [] err"
| "stream_error kind (Received _ err) = Wrapf (''recv '' @ kind @ '': %w'') [] err"

fun connect_error :: "ending \<Rightarrow> error" where
  "connect_error (GenerationEnds a) = stream_error ''generation'' a"
| "connect_error (VerificationEnds a) = stream_error ''verification'' a"
| "connect_error (Cancelled err) = err"

type_synonym 's rule_streams =
  "'s RuleClient \<times> (string \<times> string, GenerationRule) rule_map \<times> (string \<times> string, VerificationRule) rule_map \<times> 's"

fun event_loop :: "rule_event list \<Rightarrow> 's rule_streams \<Rightarrow> 's rule_streams option" where
  "event_loop [] st = Some st"
| "event_loop (GenerationMessage iter resp # evs) (c, gen, ver, s) =
     (case streamGeneration iter resp (c, gen, s) of
        None \<Rightarrow> None
      | Some (c', gen', s') \<Rightarrow> event_loop evs (c', gen', ver, s'))"
| "event_loop (VerificationMessage iter resp # evs) (c, gen, ver, s) =
     (case streamVerification iter resp (c, ver, s) of
        None \<Rightarrow> None
      | Some (c', ver', s') \<Rightarrow> event_loop evs (c', gen, ver', s'))"

definition extauth_connect ::
    "error option \<times> rule_event list \<times> ending \<Rightarrow> 's RuleClient \<times> 's \<Rightarrow> (error \<times> 's rule_streams) option" where
  "extauth_connect world st =
     (case world of
        (Some err, _) \<Rightarrow> Some (Wrapf ''dial controller: %w'' [] err, fst st, [], [], snd st)
      | (None, evs, e) \<Rightarrow>
          (case event_loop evs (fst st, [], [], snd st) of
             None \<Rightarrow> None
           | Some streams \<Rightarrow> Some (connect_error e, streams)))"

text \<open>The goroutines that \<open>connect\<close> leaves behind: those of the streams that have not failed.\<close>

fun still_running :: "ending \<Rightarrow> rule_event \<Rightarrow> bool" where
  "still_running (GenerationEnds _) ev = (\<not> is_GenerationMessage ev)"
| "still_running (VerificationEnds _) ev = is_GenerationMessage ev"
| "still_running (Cancelled _) ev = True"

definition after_connect :: "ending \<Rightarrow> rule_event list \<Rightarrow> 's rule_streams \<Rightarrow> 's rule_streams option" where
  "after_connect e late streams = event_loop (filter (still_running e) late) streams"

subsection \<open>Connecting again\<close>

text \<open>The loop of \<open>Run\<close> with the effects of \<open>connect\<close>; its error is only logged.\<close>

fun run_client ::
    "('w \<Rightarrow> 's \<Rightarrow> error \<times> 's) \<Rightarrow> (nat \<Rightarrow> nat) \<Rightarrow> nat \<Rightarrow> ('w \<times> attempt) list \<Rightarrow> 's \<Rightarrow> nat list \<times> error option \<times> 's" where
  "run_client connect nxt backoff [] st = ([], None, st)"
| "run_client connect nxt backoff ((world, a) # as) st =
     (case connect world st of
        (_, st') \<Rightarrow>
          (case a of
             CancelledInConnect err \<Rightarrow> ([], Some err, st')
           | CancelledInWait err \<Rightarrow> ([backoff], Some err, st')
           | Reconnect \<Rightarrow>
               (case run_client connect nxt (nxt backoff) as st' of (waits, r) \<Rightarrow> (backoff # waits, r))))"

subsection \<open>Lemmas\<close>

lemma run_client_waits:
  "(fst (run_client connect nxt b as st), fst (snd (run_client connect nxt b as st))) = run_loop nxt b (map snd as)"
proof (induction as arbitrary: b st)
  case (Cons x as)
  obtain w a where x: "x = (w, a)" by fastforce
  obtain e st' where c: "connect w st = (e, st')" by fastforce
  from Cons.IH [of "nxt b" st'] show ?case by (cases a) (auto simp: x c split: prod.splits)
qed simp

text \<open>Attempts that are not cancelled hand the state on to those that follow.\<close>

lemma run_client_append:
  assumes "list_all (\<lambda>(_, a). a = Reconnect) as"
  shows "\<exists>waits b'. length waits = length as \<and>
     run_client connect nxt b (as @ bs) st =
       (case run_client connect nxt b' bs (fold (\<lambda>(w, _) st. snd (connect w st)) as st) of (ws, r) \<Rightarrow> (waits @ ws, r))"
  using assms
proof (induction as arbitrary: b st)
  case Nil
  show ?case by (intro exI [of _ "[]"] exI [of _ b]) (auto split: prod.splits)
next
  case (Cons a as)
  obtain w where a: "a = (w, Reconnect)" using Cons.prems by (cases a) auto
  obtain e st' where c: "connect w st = (e, st')" by fastforce
  from Cons.IH [of "nxt b" st'] Cons.prems obtain waits b' where
    "length waits = length as"
    "run_client connect nxt (nxt b) (as @ bs) st' =
       (case run_client connect nxt b' bs (fold (\<lambda>(w, _) st. snd (connect w st)) as st') of (ws, r) \<Rightarrow> (waits @ ws, r))"
    by auto
  then show ?case by (intro exI [of _ "b # waits"] exI [of _ b']) (auto simp: a c split: prod.splits)
qed

lemma run_client_keeps:
  "(\<And>w st. P st \<Longrightarrow> P (snd (connect w st))) \<Longrightarrow> P st \<Longrightarrow> P (fold (\<lambda>(w, _) st. snd (connect w st)) as st)"
  by (induction as arbitrary: st) auto

text \<open>The keys of a client's map are the keys of the rules in it.\<close>

definition keyed :: "('r \<Rightarrow> 'k::linorder) \<Rightarrow> ('k, 'r) rule_map \<Rightarrow> bool" where
  "keyed key m \<longleftrightarrow> mwf m \<and> (\<forall>(k, r)\<in>set m. k = key r)"

lemma keyed_put_rules: "keyed key m \<Longrightarrow> keyed key (put_rules fromProto key ps m)"
proof (induction ps arbitrary: m)
  case (Cons p ps)
  have "keyed key (mput (key (fromProto p)) (fromProto p) m)"
    using Cons.prems set_mput [of "key (fromProto p)" "fromProto p" m] by (fastforce simp: keyed_def)
  with Cons.IH show ?case by (simp add: put_rules_def Let_def)
qed (simp add: put_rules_def)

lemma keyed_filter: "keyed key m \<Longrightarrow> keyed key (filter P m)"
  by (auto simp: keyed_def mwf_def sorted_wrt_map intro: sorted_wrt_filter)

lemma keyed_fold_filter: "keyed key m \<Longrightarrow> keyed key (fold (\<lambda>ref. filter (P ref)) refs m)"
  by (induction refs arbitrary: m) (simp_all add: keyed_filter)

lemma keyed_Nil [simp]: "keyed key []"
  by (simp add: keyed_def)

lemma keyed_apply_issuance: "keyed keyFor m \<Longrightarrow> keyed keyFor (apply_issuance resp m)"
  by (auto simp: apply_issuance_def intro: keyed_put_rules keyed_fold_filter split: option.splits rule_update.splits)

lemma keyed_fold_apply: "keyed keyFor m \<Longrightarrow> keyed keyFor (fold (\<lambda>(_, resp). apply_issuance resp) ms m)"
  by (induction ms arbitrary: m) (auto simp: keyed_apply_issuance)

lemma keyed_map_rules:
  assumes "keyed key m"
  shows "map_rules key (map snd m) = m"
proof (rule mwf_ext)
  have m: "map (\<lambda>r. (key r, r)) (map snd m) = m" using assms by (induction m) (auto simp: keyed_def mwf_Cons)
  have "distinct (map fst (map (\<lambda>r. (key r, r)) (map snd m)))" unfolding m using assms by (simp add: keyed_def mwf_distinct)
  then have "distinct (map key (map snd m))" by (simp add: comp_def)
  from map_of_map_rules [OF this] show "map_of (map_rules key (map snd m)) = map_of m" unfolding m .
qed (use assms in \<open>simp_all add: keyed_def\<close>)

lemma sort_keyed: "keyed key m \<Longrightarrow> mset xs = mset (map snd m) \<Longrightarrow> sort_key key xs = map snd m"
  using sort_map_rules [of xs key "map snd m"] by (simp add: keyed_map_rules)

subsection \<open>The handler of the token service\<close>

text \<open>Connections change nothing but the rules of the handler.\<close>

definition serving :: "cel_NewEnv \<Rightarrow> Handler \<Rightarrow> Handler option TtsRuleClient \<times> Handler option \<Rightarrow> bool" where
  "serving NewEnv h st \<longleftrightarrow>
     tc_setter (fst st) = HandlerSetter_SetIssuanceRules NewEnv \<and> (\<exists>rules. snd st = Some (h\<lparr>h_issuanceRules := rules\<rparr>))"

lemma serving_start: "serving NewEnv h (NewTtsRuleClient (HandlerSetter_SetIssuanceRules NewEnv), Some h)"
  by (auto simp: serving_def NewTtsRuleClient_def intro: exI [of _ "h_issuanceRules h"])

lemma serving_stream:
  assumes "serving NewEnv h (c, s)" "streamIssuance iter resp (c, m, s) = (c', m', s')"
  shows "serving NewEnv h (c', s')" "m' = apply_issuance resp m"
  using assms
  by (auto simp: serving_def stream_defs HandlerSetter_SetIssuanceRules_def SetIssuanceRules_def Let_def
      split: sum.splits)

lemma serving_loop:
  "serving NewEnv h (c, s) \<Longrightarrow> issuance_loop ms (c, m, s) = (c', m', s') \<Longrightarrow>
     serving NewEnv h (c', s') \<and> m' = fold (\<lambda>(_, resp). apply_issuance resp) ms m"
proof (induction ms arbitrary: c m s)
  case (Cons x ms)
  obtain iter resp where x: "x = (iter, resp)" by fastforce
  obtain c1 m1 s1 where st: "streamIssuance iter resp (c, m, s) = (c1, m1, s1)" by (metis prod_cases3)
  from Cons.IH [of c1 s1 m1] serving_stream [OF Cons.prems(1) st] Cons.prems(2) show ?case by (simp add: x st)
qed auto

lemma serving_connect: "serving NewEnv h st \<Longrightarrow> serving NewEnv h (snd (tts_connect w st))"
  by (cases st)
    (auto simp: tts_connect_def issuance_stream_def split: prod.splits option.splits answer.splits dest: serving_loop)

lemma issuance_loop_append: "issuance_loop (ms @ ms') st = issuance_loop ms' (issuance_loop ms st)"
  by (induction ms st rule: issuance_loop.induct) simp_all

lemma last_message_installed:
  assumes "serving NewEnv h st" "ms \<noteq> []" "m = fold (\<lambda>(_, resp). apply_issuance resp) ms []"
    and "mset (fst (last ms) (map snd m)) = mset (map snd m)"
    and "CompileIssuanceRules NewEnv (map rule_config (map snd m)) = Inr compiled"
  shows "\<exists>c. snd (tts_connect (None, Received ms err) st) = (c, Some (SetIssuanceRules compiled h)) \<and> TtsRuleClient_Ready c"
proof -
  obtain iter resp where l: "last ms = (iter, resp)" by fastforce
  let ?ms = "butlast ms"
  have ms: "ms = ?ms @ [(iter, resp)]" using assms(2) l by (metis append_butlast_last_id)
  obtain c1 m1 s1 where st1: "issuance_loop ?ms (fst st, [], snd st) = (c1, m1, s1)" by (metis prod_cases3)
  have inv: "serving NewEnv h (c1, s1)" "m1 = fold (\<lambda>(_, resp). apply_issuance resp) ?ms []"
    using serving_loop [of NewEnv h "fst st" "snd st" ?ms "[]"] assms(1) st1 by auto
  have m: "m = apply_issuance resp m1" unfolding assms(3) inv(2) by (subst ms) simp
  have "keyed keyFor m" unfolding assms(3) by (rule keyed_fold_apply) simp
  then have sorted: "sort_key keyFor (iter (map snd m)) = map snd m" using assms(4) by (intro sort_keyed) (simp_all add: l)
  obtain rules where s1: "s1 = Some (h\<lparr>h_issuanceRules := rules\<rparr>)" "tc_setter c1 = HandlerSetter_SetIssuanceRules NewEnv"
    using inv(1) by (auto simp: serving_def)
  have "CompileIssuanceRules NewEnv (map (rule_config \<circ> snd) m) = Inr compiled" using assms(5) by simp
  then have "streamIssuance iter resp (c1, m1, s1) = (c1\<lparr>tc_synced := True\<rparr>, m, Some (SetIssuanceRules compiled h))"
    by (simp add: stream_defs Let_def m [symmetric] sorted s1 HandlerSetter_SetIssuanceRules_def SetIssuanceRules_def)
  then have "issuance_loop ms (fst st, [], snd st) = (c1\<lparr>tc_synced := True\<rparr>, m, Some (SetIssuanceRules compiled h))"
    by (subst ms) (simp add: issuance_loop_append st1)
  then show ?thesis by (simp add: tts_connect_def issuance_stream_def TtsRuleClient_Ready_def)
qed

text \<open>
  C14. Recovery: whatever the earlier connections of the token service brought, with dial errors, stream errors, messages and
  rules that do not compile, a later connection that receives at least one message and whose rules then compile leaves the
  service ready and its handler with exactly the compiled rules of that connection, in the order of their keys. Nothing
  of an earlier connection is left, and each connection costs one wait.
\<close>

theorem reconnection_restores_rules:
  assumes "list_all (\<lambda>(_, a). a = Reconnect) earlier" "ms \<noteq> []" "m = fold (\<lambda>(_, resp). apply_issuance resp) ms []"
    and "mset (fst (last ms) (map snd m)) = mset (map snd m)"
    and "CompileIssuanceRules NewEnv (map rule_config (map snd m)) = Inr compiled"
  shows "\<exists>waits c. run_client tts_connect tts_next_backoff first_backoff (earlier @ [((None, Received ms err), Reconnect)])
       (NewTtsRuleClient (HandlerSetter_SetIssuanceRules NewEnv), Some h) =
         (waits, None, c, Some (SetIssuanceRules compiled h)) \<and>
     TtsRuleClient_Ready c \<and> length waits = Suc (length earlier)"
proof -
  let ?start = "(NewTtsRuleClient (HandlerSetter_SetIssuanceRules NewEnv), Some h)"
  let ?st = "fold (\<lambda>(w, _) st. snd (tts_connect w st)) earlier ?start"
  let ?last = "((None, Received ms err), Reconnect)"
  have "serving NewEnv h ?st"
    using serving_connect serving_start by (rule run_client_keeps [where P = "serving NewEnv h"])
  from last_message_installed [OF this assms(2-5), of err] obtain e c where
    c: "tts_connect (None, Received ms err) ?st = (e, c, Some (SetIssuanceRules compiled h))" "TtsRuleClient_Ready c"
    by (cases "tts_connect (None, Received ms err) ?st") auto
  obtain waits b' where "length waits = length earlier"
    "run_client tts_connect tts_next_backoff first_backoff (earlier @ [?last]) ?start =
       (case run_client tts_connect tts_next_backoff b' [?last] ?st of (ws, r) \<Rightarrow> (waits @ ws, r))"
    using run_client_append [OF assms(1), of tts_connect tts_next_backoff first_backoff "[?last]" ?start] by blast
  with c show ?thesis by (intro exI [of _ "waits @ [b']"]) simp
qed

theorem reconnection_restores_rules_witness:
  "\<exists>waits c. run_client tts_connect tts_next_backoff first_backoff
       [((Some (LibError ''refused''), SendError (LibError ''x'')), Reconnect),
        ((None, Received [(rev, \<lparr>rs_Update = Some (Snapshot []), rs_VersionInfo = ''1''\<rparr>)] (LibError ''EOF'')), Reconnect)]
       (NewTtsRuleClient (HandlerSetter_SetIssuanceRules demo_NewEnv), Some demo_handler) =
         (waits, None, c, Some (SetIssuanceRules [] demo_handler)) \<and>
     TtsRuleClient_Ready c \<and> length waits = 2"
proof -
  let ?ms = "[(rev, \<lparr>rs_Update = Some (Snapshot []), rs_VersionInfo = ''1''\<rparr>)] :: issuance_message list"
  have "[] = fold (\<lambda>(_, resp). apply_issuance resp) ?ms []" by (simp add: apply_issuance_def put_rules_def)
  moreover have "CompileIssuanceRules demo_NewEnv (map rule_config (map snd [])) = Inr []" by (simp add: CompileIssuanceRules_def)
  ultimately show ?thesis
    using reconnection_restores_rules [of "[((Some (LibError ''refused''), SendError (LibError ''x'')), Reconnect)]" ?ms "[]"
        demo_NewEnv "[]" "LibError ''EOF''" demo_handler]
    by (simp add: numeral_2_eq_2)
qed

subsection \<open>The streams of the ext-auth adapter\<close>

text \<open>A stream that is enabled never panics, and each stream touches only its own map and its own flag.\<close>

lemma event_loop_total:
  assumes "rc_genSet c = Some f" "rc_verSet c = Some g"
  shows "\<exists>c' s'. event_loop evs (c, gen, ver, s) = Some (c',
       fold (\<lambda>ev. case ev of GenerationMessage _ resp \<Rightarrow> apply_generation resp | _ \<Rightarrow> id) evs gen,
       fold (\<lambda>ev. case ev of VerificationMessage _ resp \<Rightarrow> apply_verification resp | _ \<Rightarrow> id) evs ver, s') \<and>
     rc_genSynced c' = (rc_genSynced c \<or> list_ex is_GenerationMessage evs) \<and>
     rc_verSynced c' = (rc_verSynced c \<or> list_ex (\<lambda>ev. \<not> is_GenerationMessage ev) evs)"
  using assms
proof (induction evs arbitrary: c gen ver s)
  case (Cons ev evs)
  show ?case
  proof (cases ev)
    case (GenerationMessage iter resp)
    let ?gen = "apply_generation resp gen"
    from Cons.IH [of "c\<lparr>rc_genSynced := True\<rparr>" ?gen ver "f (iter (map snd ?gen)) s"] Cons.prems
    show ?thesis by (simp add: GenerationMessage stream_defs Let_def)
  next
    case (VerificationMessage iter resp)
    let ?ver = "apply_verification resp ver"
    from Cons.IH [of "c\<lparr>rc_verSynced := True\<rparr>" gen ?ver "g (iter (map snd ?ver)) s"] Cons.prems
    show ?thesis by (simp add: VerificationMessage stream_defs Let_def)
  qed
qed simp

text \<open>What a goroutine does after \<open>connect\<close> has returned leaves the map and the flag of the stream that failed alone.\<close>

lemma after_connect_frame:
  assumes "rc_genSet c = Some f" "rc_verSet c = Some g"
  shows "\<exists>c' gen' ver' s'. after_connect e late (c, gen, ver, s) = Some (c', gen', ver', s') \<and>
     (\<forall>a. e = GenerationEnds a \<longrightarrow> gen' = gen \<and> rc_genSynced c' = rc_genSynced c) \<and>
     (\<forall>a. e = VerificationEnds a \<longrightarrow> ver' = ver \<and> rc_verSynced c' = rc_verSynced c)"
proof -
  let ?evs = "filter (still_running e) late"
  have "fold (\<lambda>ev. case ev of GenerationMessage _ resp \<Rightarrow> apply_generation resp | _ \<Rightarrow> id) evs gen = gen"
    if "\<forall>ev\<in>set evs. \<not> is_GenerationMessage ev" for evs
    using that by (induction evs) (auto split: rule_event.splits)
  moreover have "fold (\<lambda>ev. case ev of VerificationMessage _ resp \<Rightarrow> apply_verification resp | _ \<Rightarrow> id) evs ver = ver"
    if "\<forall>ev\<in>set evs. is_GenerationMessage ev" for evs
    using that by (induction evs) (auto split: rule_event.splits)
  moreover have "(\<forall>a. e = GenerationEnds a \<longrightarrow> (\<forall>ev\<in>set ?evs. \<not> is_GenerationMessage ev)) \<and>
      (\<forall>a. e = VerificationEnds a \<longrightarrow> (\<forall>ev\<in>set ?evs. is_GenerationMessage ev))" by auto
  ultimately show ?thesis
    using event_loop_total [OF assms, of ?evs gen ver s] unfolding after_connect_def by (auto simp: list_ex_iff)
qed

end
