(* ===== verification/SdkClient.thy ===== *)
theory SdkClient
  imports Demo
begin

text \<open>
  The client SDK: the token exchange client (\<open>sdk/tts/client.go\<close>) and the HTTP middleware that verifies incoming
  transaction tokens (\<open>sdk/middleware/verify.go\<close>) and propagates them (\<open>propagate.go\<close>).

  The network is a parameter: \<open>Do\<close> maps the request for a URL to the status and the outcome of reading the body, or an error.
  \<open>url_Parse\<close> gives the path and the query of a URL. A context is nil or carries the verified claims and the raw token.
\<close>

subsection \<open>Token exchange client\<close>

record Client =
  cl_endpoint :: string

definition NewClient :: "string \<Rightarrow> Client" where
  "NewClient endpoint = \<lparr>cl_endpoint = TrimSuffix endpoint ''/''\<rparr>"

record ExchangeRequest =
  er_SubjectToken :: string
  er_SubjectTokenType :: string
  er_Scope :: string
  er_RequestDetails :: "gomap option"
  er_RequestContext :: "gomap option"

record exchangeResponse =
  ex_AccessToken :: string
  ex_IssuedTokenType :: string
  ex_TokenType :: string
  ex_Error :: string
  ex_ErrorDesc :: string

type_synonym http_do = "string \<Rightarrow> request \<Rightarrow> (nat \<times> string res) res"

definition decode_exchangeResponse :: "string \<Rightarrow> exchangeResponse res" where
  "decode_exchangeResponse body =
     bindr (json_parse body) id (\<lambda>v.
     bindr (struct_members v) id (\<lambda>ms.
     bindr (string_field ''access_token'' ms) id (\<lambda>a.
     bindr (string_field ''issued_token_type'' ms) id (\<lambda>i.
     bindr (string_field ''token_type'' ms) id (\<lambda>t.
     bindr (string_field ''error'' ms) id (\<lambda>e.
     bindr (string_field ''error_description'' ms) id (\<lambda>d.
     Ok \<lparr>ex_AccessToken = a, ex_IssuedTokenType = i, ex_TokenType = t, ex_Error = e, ex_ErrorDesc = d\<rparr>)))))))"

definition subject_token_type :: "ExchangeRequest \<Rightarrow> string" where
  "subject_token_type req =
     (if er_SubjectTokenType req = [] then SubjectTokenTypeAccessToken else er_SubjectTokenType req)"

definition set_context :: "string \<Rightarrow> gomap option \<Rightarrow> Values \<Rightarrow> Values" where
  "set_context k ctx form = (case ctx of None \<Rightarrow> form | Some m \<Rightarrow> Values_Set k (json_Marshal (JObj m)) form)"

definition exchange_form :: "ExchangeRequest \<Rightarrow> Values" where
  "exchange_form req =
     set_context ''request_context'' (er_RequestContext req) (set_context ''request_details'' (er_RequestDetails req)
       (mput_all
         [(''grant_type'', [GrantType]),
          (''subject_token'', [er_SubjectToken req]),
          (''subject_token_type'', [subject_token_type req]),
          (''requested_token_type'', [RequestedTokenType]),
          (''scope'', [er_Scope req])] []))"

definition exchange_request :: "string \<times> string \<Rightarrow> ExchangeRequest \<Rightarrow> request" where
  "exchange_request url req =
     \<lparr>rq_Method = ''POST'', rq_Path = fst url, rq_RawQuery = snd url,
      rq_Header = [(''Content-Type'', [''application/x-www-form-urlencoded''])],
      rq_Body = Values_Encode (exchange_form req)\<rparr>"

definition exchange_result :: "nat \<Rightarrow> string \<Rightarrow> string res" where
  "exchange_result status body =
     (if status \<noteq> StatusOK then
        (case decode_exchangeResponse body of
           Inr r \<Rightarrow>
             if ex_Error r \<noteq> []
               then Err (Errorf ''token exchange failed (HTTP %d): %s: %s'' [string_of_nat status, ex_Error r, ex_ErrorDesc r])
             else Err (Errorf ''token exchange failed (HTTP %d): %s'' [string_of_nat status, body])
         | Inl _ \<Rightarrow> Err (Errorf ''token exchange failed (HTTP %d): %s'' [string_of_nat status, body]))
      else
        bindr (decode_exchangeResponse body) (Wrapf ''decoding token exchange response: %w'' []) (\<lambda>r.
        if ex_AccessToken r = [] then Err (Errorf ''token exchange response has no access_token'' [])
        else Ok (ex_AccessToken r)))"

definition Exchange :: "(string \<Rightarrow> (string \<times> string) res) \<Rightarrow> http_do \<Rightarrow> Client \<Rightarrow> ExchangeRequest \<Rightarrow> string res" where
  "Exchange url_Parse Do c req =
     (if er_SubjectToken req = [] then Err (Errorf ''subject_token is required'' [])
      else if er_Scope req = [] then Err (Errorf ''scope is required'' [])
      else
        let url = cl_endpoint c @ ''/token_endpoint'' in
        bindr (url_Parse url) (Wrapf ''creating request: %w'' []) (\<lambda>u.
        bindr (Do url (exchange_request u req)) (Wrapf ''sending token exchange request: %w'' []) (\<lambda>(status, rd).
        bindr rd (Wrapf ''reading response body: %w'' []) (\<lambda>body.
        exchange_result status body))))"

subsection \<open>Verification middleware\<close>

record context_values =
  cv_claims :: "Claims option"
  cv_token :: "string option"

type_synonym go_context = "context_values option"

definition background :: context_values where
  "background = \<lparr>cv_claims = None, cv_token = None\<rparr>"

definition non_nil :: "go_context \<Rightarrow> context_values" where
  "non_nil ctx = (case ctx of None \<Rightarrow> background | Some c \<Rightarrow> c)"

definition withClaims :: "go_context \<Rightarrow> Claims \<Rightarrow> go_context" where
  "withClaims ctx claims = Some ((non_nil ctx)\<lparr>cv_claims := Some claims\<rparr>)"

definition withToken :: "go_context \<Rightarrow> string \<Rightarrow> go_context" where
  "withToken ctx tok = Some ((non_nil ctx)\<lparr>cv_token := Some tok\<rparr>)"

definition WithToken :: "go_context \<Rightarrow> string \<Rightarrow> go_context" where
  "WithToken ctx tok = withToken ctx tok"

definition ClaimsFromContext :: "go_context \<Rightarrow> Claims option" where
  "ClaimsFromContext ctx = (case ctx of None \<Rightarrow> None | Some c \<Rightarrow> cv_claims c)"

definition TokenFromContext :: "go_context \<Rightarrow> string" where
  "TokenFromContext ctx =
     (case ctx of
        None \<Rightarrow> []
      | Some c \<Rightarrow> (case cv_token c of Some t \<Rightarrow> t | None \<Rightarrow> []))"

definition writeVerifyError :: "error \<Rightarrow> response" where
  "writeVerifyError message =
     \<lparr>rs_Status = StatusUnauthorized, rs_Header = [(''Content-Type'', [''application/json''])],
      rs_Body = MessageError ''invalid_token'' message\<rparr>"

type_synonym http_handler = "request \<Rightarrow> go_context \<Rightarrow> response"

text \<open>The middleware, given a verifier with its state; the verifier after the call is the second result.\<close>

definition VerifyTxToken ::
  "(string \<Rightarrow> 's \<Rightarrow> Claims res \<times> 's) \<Rightarrow> http_handler \<Rightarrow> request \<Rightarrow> go_context \<Rightarrow> 's \<Rightarrow> response \<times> 's" where
  "VerifyTxToken verify next r ctx s =
     (let tokenString = Values_Get (rq_Header r) HeaderName in
      if tokenString = [] then (writeVerifyError (Errorf ''missing Txn-Token header'' []), s)
      else
        (case verify tokenString s of
           (Inl e, s') \<Rightarrow> (writeVerifyError e, s')
         | (Inr claims, s') \<Rightarrow> (next r (withToken (withClaims ctx claims) tokenString), s')))"

subsection \<open>Propagation\<close>

type_synonym round_tripper = "request \<Rightarrow> go_context \<Rightarrow> response res"

definition RoundTrip :: "round_tripper \<Rightarrow> round_tripper" where
  "RoundTrip base req ctx =
     (if Values_Get (rq_Header req) HeaderName \<noteq> [] then base req ctx
      else
        let txToken = TokenFromContext ctx in
        if txToken \<noteq> [] then base (req\<lparr>rq_Header := Values_Set HeaderName txToken (rq_Header req)\<rparr>) ctx
        else base req ctx)"

definition NewPropagateTransport :: "round_tripper \<Rightarrow> round_tripper option \<Rightarrow> round_tripper" where
  "NewPropagateTransport DefaultTransport base =
     RoundTrip (case base of None \<Rightarrow> DefaultTransport | Some b \<Rightarrow> b)"

subsection \<open>Lemmas\<close>

lemma mwf_exchange_form: "mwf (exchange_form req)"
  by (auto simp: exchange_form_def set_context_def Values_Set_def simp del: mput_all_simps split: option.splits)

lemma exchange_form_nonempty: "\<forall>(k, vs)\<in>set (exchange_form req). vs \<noteq> []"
proof -
  let ?base = "mput_all [(''grant_type'', [GrantType]), (''subject_token'', [er_SubjectToken req]),
    (''subject_token_type'', [subject_token_type req]), (''requested_token_type'', [RequestedTokenType]),
    (''scope'', [er_Scope req])] []"
  have base: "\<forall>(k, vs)\<in>set ?base. vs \<noteq> []" by simp
  have sc: "(\<forall>(k, vs)\<in>set m. vs \<noteq> []) \<Longrightarrow> \<forall>(k, vs)\<in>set (set_context key ctx m). vs \<noteq> []" for key ctx m
    using set_mput [of key _ m] by (auto simp: set_context_def Values_Set_def split: option.splits)
  show ?thesis unfolding exchange_form_def by (rule sc [OF sc [OF base]])
qed

lemma FormValue_set_context:
  "FormValue (set_context k ctx m) k' =
     (if k' = k \<and> ctx \<noteq> None then json_Marshal (JObj (the ctx)) else FormValue m k')"
  by (cases ctx) (simp_all add: FormValue_def Values_Get_def set_context_def Values_Set_def del: json_Marshal.simps)

lemma exchange_form_get:
  "FormValue (exchange_form req) ''grant_type'' = GrantType"
  "FormValue (exchange_form req) ''subject_token'' = er_SubjectToken req"
  "FormValue (exchange_form req) ''subject_token_type'' = subject_token_type req"
  "FormValue (exchange_form req) ''requested_token_type'' = RequestedTokenType"
  "FormValue (exchange_form req) ''scope'' = er_Scope req"
  "FormValue (exchange_form req) ''audience'' = []"
  "FormValue (exchange_form req) ''request_details'' =
     (case er_RequestDetails req of None \<Rightarrow> [] | Some m \<Rightarrow> json_Marshal (JObj m))"
  "FormValue (exchange_form req) ''request_context'' =
     (case er_RequestContext req of None \<Rightarrow> [] | Some m \<Rightarrow> json_Marshal (JObj m))"
  unfolding exchange_form_def FormValue_set_context
  by (simp_all add: FormValue_def Values_Get_def map_of_mput_all del: mput_all_simps json_Marshal.simps split: option.splits)

text \<open>With no query in the URL the endpoint reads the posted form or nothing: a body over the limit is refused.\<close>

lemma ParseForm_exchange:
  "ParseForm (exchange_request (path, []) req) = Inr form \<longleftrightarrow>
     form = exchange_form req \<and> length (Values_Encode (exchange_form req)) \<le> maxFormSize"
proof (cases "length (Values_Encode (exchange_form req)) \<le> maxFormSize")
  case True
  then have "ParseForm (exchange_request (path, []) req) = Inr (exchange_form req)"
    by (intro ParseForm_Encode)
      (use mwf_exchange_form exchange_form_nonempty in \<open>simp_all add: exchange_request_def Values_Get_def\<close>)
  with True show ?thesis by auto
next
  case False
  then show ?thesis
    by (simp add: ParseForm_def parsePostForm_def exchange_request_def Values_Get_def Let_def split: prod.splits)
qed

text \<open>The answer of the token endpoint, as the client decodes it.\<close>

lemma decode_token_response:
  assumes "utf8_valid tok"
  shows "decode_exchangeResponse (json_Encode (TokenExchangeResponse tok RequestedTokenType ''N_A'')) =
    Inr \<lparr>ex_AccessToken = tok, ex_IssuedTokenType = RequestedTokenType, ex_TokenType = ''N_A'', ex_Error = [], ex_ErrorDesc = []\<rparr>"
proof -
  have "utf8_valid ''access_token''" "utf8_valid ''issued_token_type''" "utf8_valid ''token_type''" "utf8_valid ''N_A''"
    "utf8_valid RequestedTokenType"
    by (rule ascii_utf8_valid, simp add: code_def RequestedTokenType_def)+
  then have "json_clean (TokenExchangeResponse tok RequestedTokenType ''N_A'')"
    using assms by (simp add: TokenExchangeResponse_def)
  from json_parse_Encode [OF this] show ?thesis
    by (simp add: decode_exchangeResponse_def TokenExchangeResponse_def struct_members_def EqualFold_def ToLower_def
        lower_char_def code_def)
qed

lemma exchange_result_token:
  "tok \<noteq> [] \<Longrightarrow> utf8_valid tok \<Longrightarrow>
     exchange_result (rs_Status (token_response tok)) (body_bytes fmt (rs_Body (token_response tok))) = Inr tok"
  by (simp add: exchange_result_def token_response_def decode_token_response)

lemma exchange_result_Ok: "exchange_result status body = Inr tok \<Longrightarrow> status = StatusOK"
  by (auto simp: exchange_result_def split: if_splits sum.splits)

lemma exchange_form_received:
  assumes "er_SubjectToken req \<noteq> []" "er_Scope req \<noteq> []" "context_clean (er_RequestDetails req)"
    "context_clean (er_RequestContext req)" "length (Values_Encode (exchange_form req)) \<le> maxFormSize"
  shows "\<exists>form. ParseForm (exchange_request (path, []) req) = Inr form \<and>
    parseRequest form = Inr \<lparr>xr_GrantType = GrantType, xr_SubjectToken = er_SubjectToken req,
      xr_SubjectTokenType = subject_token_type req, xr_RequestedTokenType = RequestedTokenType, xr_Audience = [],
      xr_Scope = er_Scope req, xr_RequestDetails = er_RequestDetails req, xr_RequestContext = er_RequestContext req\<rparr>"
proof -
  have ctx: "parse_context msg (case ctx of None \<Rightarrow> [] | Some m \<Rightarrow> json_Marshal (JObj m)) = Inr ctx"
    if "context_clean ctx" for msg ctx
  proof (cases ctx)
    case (Some m)
    then have "json_Unmarshal_map (json_Marshal (JObj m)) = Inr (Some m)"
      using that json_Unmarshal_map_Marshal [of m] by (simp add: context_clean_def del: json_Marshal.simps)
    moreover have "json_Marshal (JObj m) \<noteq> []" by simp
    ultimately show ?thesis using Some by (simp add: parse_context_Ok_cases del: json_Marshal.simps)
  qed (simp add: parse_context_def)
  have "ParseForm (exchange_request (path, []) req) = Inr (exchange_form req)" using assms(5) by (simp add: ParseForm_exchange)
  moreover have "subject_token_type req \<noteq> []" by (simp add: subject_token_type_def SubjectTokenTypeAccessToken_def)
  ultimately show ?thesis
    using assms(1,2) ctx [OF assms(3)] ctx [OF assms(4)] by (simp add: parseRequest_Ok_iff exchange_form_get)
qed

subsection \<open>Properties\<close>

text \<open>
  C22. The form the client posts, to an endpoint URL without a query, is read back by the token endpoint as exactly the
  exchange request: token, type (an access token when left empty), scope and both context maps.
\<close>

theorem exchange_request_received:
  assumes "er_SubjectToken req \<noteq> []" "er_Scope req \<noteq> []" "context_clean (er_RequestDetails req)"
    "context_clean (er_RequestContext req)" "length (Values_Encode (exchange_form req)) \<le> maxFormSize"
  shows "\<exists>form. ParseForm (exchange_request (path, []) req) = Inr form \<and>
    parseRequest form = Inr \<lparr>xr_GrantType = GrantType, xr_SubjectToken = er_SubjectToken req,
      xr_SubjectTokenType = subject_token_type req, xr_RequestedTokenType = RequestedTokenType, xr_Audience = [],
      xr_Scope = er_Scope req, xr_RequestDetails = er_RequestDetails req, xr_RequestContext = er_RequestContext req\<rparr>"
  using assms by (rule exchange_form_received)

theorem exchange_request_received_witness:
  "\<exists>form. ParseForm (exchange_request (''/token_endpoint'', []) \<lparr>er_SubjectToken = ''t'', er_SubjectTokenType = [], er_Scope = ''read'',
       er_RequestDetails = Some [(''id'', JStr ''7'')], er_RequestContext = None\<rparr>) = Inr form \<and>
     (\<exists>r. parseRequest form = Inr r \<and> xr_RequestDetails r = Some [(''id'', JStr ''7'')] \<and>
        xr_SubjectTokenType r = SubjectTokenTypeAccessToken)"
proof -
  let ?req = "\<lparr>er_SubjectToken = ''t'', er_SubjectTokenType = [], er_Scope = ''read'',
    er_RequestDetails = Some [(''id'', JStr ''7'')], er_RequestContext = None\<rparr>"
  have "utf8_valid ''id''" "utf8_valid ''7''" by (rule ascii_utf8_valid, simp add: code_def)+
  then have "context_clean (er_RequestDetails ?req)" "context_clean (er_RequestContext ?req)"
    by (simp_all add: context_clean_def mwf_Cons)
  moreover have "length (Values_Encode (exchange_form ?req)) \<le> 500" by code_simp
  then have "length (Values_Encode (exchange_form ?req)) \<le> maxFormSize" by (simp add: maxFormSize_def)
  ultimately show ?thesis
    using exchange_request_received [of ?req "''/token_endpoint''"] by (auto simp: subject_token_type_def)
qed

text \<open>The network delivers the client's request to a handler and brings its answer back.\<close>

definition served_by :: "(error \<Rightarrow> string) \<Rightarrow> tts_env \<Rightarrow> Handler \<Rightarrow> http_do" where
  "served_by fmt env h url r =
     (case fst (ServeHTTP env h r) of
        None \<Rightarrow> Err (LibError ''EOF'')
      | Some resp \<Rightarrow> Ok (rs_Status resp, Ok (body_bytes fmt (rs_Body resp))))"

lemma ServeHTTP_OK_token:
  assumes "ServeHTTP env h r = (Some resp, h')" "rs_Status resp = StatusOK"
  shows "\<exists>c tok. issues env h c tok \<and> resp = token_response tok"
  using assms
proof (cases rule: ServeHTTP_OK_cases)
  case (1 form req)
  then show ?thesis using handleReplacement_OK_iff [of env h r req resp] assms(2) by blast
next
  case (2 form req)
  then show ?thesis using handle_issuance_OK_iff [of env h r req resp h'] assms(2) by blast
qed

lemma Exchange_served_iff:
  assumes "er_SubjectToken req \<noteq> []" "er_Scope req \<noteq> []" "url_Parse (cl_endpoint c @ ''/token_endpoint'') = Inr u"
    "\<forall>cl t. issues env h cl t \<longrightarrow> t \<noteq> [] \<and> utf8_valid t"
  shows "Exchange url_Parse (served_by fmt env h) c req = Inr tok \<longleftrightarrow>
    (\<exists>cl. issues env h cl tok) \<and> fst (ServeHTTP env h (exchange_request u req)) = Some (token_response tok)"
proof -
  obtain ro h' where s: "ServeHTTP env h (exchange_request u req) = (ro, h')" by fastforce
  have ex: "Exchange url_Parse (served_by fmt env h) c req =
      (case ro of None \<Rightarrow> Inl (Wrapf ''sending token exchange request: %w'' [] (LibError ''EOF''))
       | Some resp \<Rightarrow> exchange_result (rs_Status resp) (body_bytes fmt (rs_Body resp)))"
    using assms(1-3) s by (simp add: Exchange_def served_by_def split: option.splits)
  show ?thesis
  proof (cases ro)
    case (Some resp)
    show ?thesis
    proof (cases "rs_Status resp = StatusOK")
      case True
      then obtain cl t where t: "issues env h cl t" "resp = token_response t"
        using ServeHTTP_OK_token [of env h "exchange_request u req" resp h'] s Some by blast
      have res: "exchange_result (rs_Status resp) (body_bytes fmt (rs_Body resp)) = Inr x"
        if "issues env h cl' x" "resp = token_response x" for cl' x
        using exchange_result_token [of x fmt] assms(4) that by blast
      have e: "Exchange url_Parse (served_by fmt env h) c req = Inr t" using ex Some res [OF t] by simp
      show ?thesis
      proof
        assume "Exchange url_Parse (served_by fmt env h) c req = Inr tok"
        with e have "t = tok" by simp
        then show "(\<exists>cl. issues env h cl tok) \<and> fst (ServeHTTP env h (exchange_request u req)) = Some (token_response tok)"
          using t s Some by auto
      next
        assume "(\<exists>cl. issues env h cl tok) \<and> fst (ServeHTTP env h (exchange_request u req)) = Some (token_response tok)"
        then show "Exchange url_Parse (served_by fmt env h) c req = Inr tok" using res [of _ tok] s Some ex by auto
      qed
    next
      case False
      then show ?thesis using ex exchange_result_Ok [of "rs_Status resp"] s Some by (auto simp: token_response_def)
    qed
  qed (simp add: ex s)
qed

text \<open>
  C21. Client and service together: the client's \<open>Exchange\<close> returns a token exactly when the token endpoint answered its
  request with this token; every refusal of the endpoint is an error of the client.
\<close>

theorem exchange_returns_issued_token:
  assumes "er_SubjectToken req \<noteq> []" "er_Scope req \<noteq> []" "url_Parse (cl_endpoint c @ ''/token_endpoint'') = Inr u"
    "\<forall>cl t. issues env h cl t \<longrightarrow> t \<noteq> [] \<and> utf8_valid t"
  shows "Exchange url_Parse (served_by fmt env h) c req = Inr tok \<longleftrightarrow>
    (\<exists>cl. issues env h cl tok) \<and> fst (ServeHTTP env h (exchange_request u req)) = Some (token_response tok)"
  using assms by (rule Exchange_served_iff)

definition demo_exchange :: ExchangeRequest where
  "demo_exchange = \<lparr>er_SubjectToken = ''tok'', er_SubjectTokenType = SubjectTokenTypeTxnToken, er_Scope = ''read'',
     er_RequestDetails = None, er_RequestContext = None\<rparr>"

lemma demo_exchange_served:
  "\<exists>tok c. ServeHTTP demo_env demo_handler (exchange_request (path, []) demo_exchange) = (Some (token_response tok), demo_handler) \<and>
     issues demo_env demo_handler c tok"
proof -
  have "length (Values_Encode (exchange_form demo_exchange)) \<le> 500" by code_simp
  then have f: "ParseForm (exchange_request (path, []) demo_exchange) = Inr (exchange_form demo_exchange)"
    by (simp add: ParseForm_exchange maxFormSize_def)
  have "parseRequest (exchange_form demo_exchange) = Inr demo_req"
    by (simp add: parseRequest_Ok_iff exchange_form_get parse_context_def demo_req_def demo_exchange_def subject_token_type_def
        SubjectTokenTypeTxnToken_def)
  then show ?thesis using demo_handler_serves [OF _ f] by (simp add: exchange_request_def)
qed

lemma demo_issued_text: "issues demo_env demo_handler cl t \<Longrightarrow> t \<noteq> [] \<and> utf8_valid t"
  using ref_sign_ascii by (auto simp: issues_def token_New_Ok_iff demo_env_def)

theorem exchange_returns_issued_token_witness:
  "\<exists>tok. Exchange (\<lambda>_. Inr (''/token_endpoint'', [])) (served_by (\<lambda>_. []) demo_env demo_handler) (NewClient ''http://tts/'') demo_exchange = Inr tok"
proof -
  obtain tok c where s: "ServeHTTP demo_env demo_handler (exchange_request (''/token_endpoint'', []) demo_exchange) = (Some (token_response tok), demo_handler)"
    "issues demo_env demo_handler c tok"
    using demo_exchange_served by blast
  then show ?thesis
    using exchange_returns_issued_token [of demo_exchange "\<lambda>_. Inr (''/token_endpoint'', [])" "NewClient ''http://tts/''" "(''/token_endpoint'', [])"
        demo_env demo_handler "\<lambda>_. []" tok] demo_issued_text by (auto simp: demo_exchange_def)
qed

text \<open>
  C23. Behind the verification middleware, a request is answered 401 unless its token verifies; otherwise the handler
  runs with the verified claims in its context. An outbound call it makes through the propagating transport reaches the
  base transport with the same token if it has no token header of its own, and unchanged if it has one.
\<close>

theorem verified_token_propagates:
  assumes "jwt_Parse_spec Parse decode sig_ok"
    "VerifyTxToken (verify_Verify Parse Get now) (\<lambda>r ctx. reply (RoundTrip base (out r) ctx) ctx) r ctx v = (resp, v')"
  shows "(\<exists>e. resp = writeVerifyError e) \<or>
    (\<exists>claims ctx'. fst (verify_Verify Parse Get now (Values_Get (rq_Header r) HeaderName) v) = Inr claims \<and>
       ClaimsFromContext ctx' = Some claims \<and> TokenFromContext ctx' = Values_Get (rq_Header r) HeaderName \<and>
       resp = reply (base
         (if Values_Get (rq_Header (out r)) HeaderName = []
          then (out r)\<lparr>rq_Header := Values_Set HeaderName (Values_Get (rq_Header r) HeaderName) (rq_Header (out r))\<rparr>
          else out r) ctx') ctx')"
proof (cases "Values_Get (rq_Header r) HeaderName = []")
  case False
  let ?t = "Values_Get (rq_Header r) HeaderName"
  obtain vr v1 where v: "verify_Verify Parse Get now ?t v = (vr, v1)" by fastforce
  show ?thesis
  proof (cases vr)
    case (Inr claims)
    let ?ctx = "withToken (withClaims ctx claims) ?t"
    have "ClaimsFromContext ?ctx = Some claims" "TokenFromContext ?ctx = ?t"
      by (simp_all add: ClaimsFromContext_def TokenFromContext_def withToken_def withClaims_def non_nil_def)
    then show ?thesis
      using assms(2) v Inr False by (intro disjI2 exI [of _ claims] exI [of _ ?ctx]) (auto simp: VerifyTxToken_def RoundTrip_def Let_def)
  qed (use assms(2) v False in \<open>auto simp: VerifyTxToken_def Let_def\<close>)
qed (use assms(2) in \<open>auto simp: VerifyTxToken_def\<close>)

definition demo_incoming :: request where
  "demo_incoming = \<lparr>rq_Method = ''GET'', rq_Path = ''/'', rq_RawQuery = [], rq_Header = [(HeaderName, [''tok''])], rq_Body = []\<rparr>"

definition demo_outgoing :: request where
  "demo_outgoing = \<lparr>rq_Method = ''GET'', rq_Path = ''/next'', rq_RawQuery = [], rq_Header = [], rq_Body = []\<rparr>"

definition demo_base :: round_tripper where
  "demo_base req ctx = Inr (plain_ok (Values_Get (rq_Header req) HeaderName))"

definition demo_reply :: "response res \<Rightarrow> go_context \<Rightarrow> response" where
  "demo_reply res ctx = (case res of Inr x \<Rightarrow> x | Inl e \<Rightarrow> writeVerifyError e)"

definition demo_Get :: http_get where
  "demo_Get _ = Inr (JWKSHandler demo_manager demo_outgoing)"

lemma demo_remote_verified:
  "fst (verify_Verify demo_Parse demo_Get (demo_now + nanos) ''tok'' (verify_New ''u'' ''td'')) = Inr demo_old"
proof -
  have g: "demo_Get (vr_jwksURL (verify_New ''u'' ''td'')) = Inr (JWKSHandler demo_manager demo_outgoing)"
    "rq_Method demo_outgoing = ''GET''" by (simp_all add: demo_Get_def demo_outgoing_def)
  obtain ks where "fetchJWKS demo_Get (verify_New ''u'' ''td'') = (None, (verify_New ''u'' ''td'')\<lparr>vr_keys := ks\<rparr>)"
    "\<forall>k. map_of ks k = local_resolve (newLocalVerifier demo_manager ''td'') k"
    using fetchJWKS_manager [of demo_manager demo_Get "verify_New ''u'' ''td''" demo_outgoing "''td''"] demo_manager_ok g by blast
  then have r: "verify_resolve demo_Get (verify_New ''u'' ''td'') k = local_resolve (newLocalVerifier demo_manager ''td'') k" for k
    by (simp add: verify_resolve_def verify_New_def)
  show ?thesis
    using demo_verified unfolding local_accept_iff [OF demo_Parse_spec] verify_accept_iff [OF demo_Parse_spec] r
    by (simp add: newLocalVerifier_def verify_New_def)
qed

theorem verified_token_propagates_witness:
  "fst (VerifyTxToken (verify_Verify demo_Parse demo_Get (demo_now + nanos))
     (\<lambda>r ctx. demo_reply (RoundTrip demo_base demo_outgoing ctx) ctx) demo_incoming None (verify_New ''u'' ''td'')) = plain_ok ''tok''"
proof -
  let ?V = "VerifyTxToken (verify_Verify demo_Parse demo_Get (demo_now + nanos))
    (\<lambda>r ctx. demo_reply (RoundTrip demo_base demo_outgoing ctx) ctx) demo_incoming None (verify_New ''u'' ''td'')"
  have h: "Values_Get (rq_Header demo_incoming) HeaderName = ''tok''" "Values_Get (rq_Header demo_outgoing) HeaderName = []"
    by (simp_all add: demo_incoming_def demo_outgoing_def Values_Get_def)
  have "fst ?V \<noteq> writeVerifyError e" for e
    using demo_remote_verified h
    by (auto simp: VerifyTxToken_def demo_reply_def RoundTrip_def demo_base_def plain_ok_def writeVerifyError_def Let_def
        split: prod.splits if_splits)
  moreover have "Values_Get (Values_Set HeaderName ''tok'' (rq_Header demo_outgoing)) HeaderName = ''tok''"
    by (simp add: Values_Get_def Values_Set_def)
  ultimately show ?thesis
    using verified_token_propagates [OF demo_Parse_spec, where out = "\<lambda>_. demo_outgoing" and r = demo_incoming and Get = demo_Get and
        now = "demo_now + nanos" and reply = demo_reply and base = demo_base and ctx = None and v = "verify_New ''u'' ''td''" and
        resp = "fst ?V" and v' = "snd ?V"] h
    by (auto simp: demo_reply_def demo_base_def)
qed

end
