(* ===== verification/ExtAuth.thy ===== *)
theory ExtAuth
  imports PolicyFlow SdkClient
begin

text \<open>
  The ext-auth server in verification mode (\<open>pkg/extauth/server.go\<close>): Envoy asks it about every request to a service, and it
  answers from the request's transaction token and the verification rules.

  Of Envoy's messages the model has the fields the code reads or writes. An answer allows a request when its status code is
  OK, which is also what a missing status reads as. The message of a denial is an error value (\<open>Prelude\<close>), and its body is the
  JSON object of code and message. Go's \<open>sort.Slice\<close> leaves the order of equal keys open; rules with the same namespace and
  name do not occur in what the rule client hands over, and the model keeps their order. The names of request headers differ
  also when case is ignored, as Envoy lower-cases them.
\<close>

subsection \<open>Messages\<close>

datatype grpc_code = codes_OK | codes_InvalidArgument | codes_PermissionDenied | codes_Unauthenticated | codes_Internal

fun code_String :: "grpc_code \<Rightarrow> string" where
  "code_String codes_OK = ''OK''"
| "code_String codes_InvalidArgument = ''InvalidArgument''"
| "code_String codes_PermissionDenied = ''PermissionDenied''"
| "code_String codes_Unauthenticated = ''Unauthenticated''"
| "code_String codes_Internal = ''Internal''"

record HttpRequest =
  hr_Path :: string
  hr_Method :: string
  hr_Headers :: "(string \<times> string) list"
  hr_Body :: string

record Peer =
  peer_Principal :: string
  peer_Address :: "string option"

record CheckRequest =
  cq_Http :: "HttpRequest option"
  cq_Source :: "Peer option"

datatype http_answer = OkHttpResponse "(string \<times> string) list" | DeniedHttpResponse nat http_body

record CheckResponse =
  cp_Status :: "(grpc_code \<times> error option) option"
  cp_HttpResponse :: http_answer

definition allowed :: CheckResponse where
  "allowed = \<lparr>cp_Status = Some (codes_OK, None), cp_HttpResponse = OkHttpResponse []\<rparr>"

definition denied :: "grpc_code \<Rightarrow> error \<Rightarrow> CheckResponse" where
  "denied c msg =
     (let httpCode =
        (if c = codes_PermissionDenied then StatusForbidden
         else if c = codes_InvalidArgument then StatusBadRequest
         else StatusUnauthorized)
      in \<lparr>cp_Status = Some (c, Some msg), cp_HttpResponse = DeniedHttpResponse httpCode (MessageError (code_String c) msg)\<rparr>)"

definition allowedWithHeaders :: "(string \<times> string) list \<Rightarrow> CheckResponse" where
  "allowedWithHeaders headers = \<lparr>cp_Status = None, cp_HttpResponse = OkHttpResponse headers\<rparr>"

text \<open>How Envoy reads an answer.\<close>

definition allows :: "CheckResponse \<Rightarrow> bool" where
  "allows r \<longleftrightarrow> (case cp_Status r of None \<Rightarrow> True | Some (c, _) \<Rightarrow> c = codes_OK)"

subsection \<open>Helpers\<close>

definition getHeader :: "(string \<times> string) list \<Rightarrow> string \<Rightarrow> string" where
  "getHeader headers name =
     (case map_of headers (ToLower name) of
        Some v \<Rightarrow> v
      | None \<Rightarrow> (case map_of headers name of Some v \<Rightarrow> v | None \<Rightarrow> []))"

definition strip_query :: "string \<Rightarrow> string" where
  "strip_query requestPath = (case Index requestPath CHR ''?'' of Some idx \<Rightarrow> take idx requestPath | None \<Rightarrow> requestPath)"

definition matchPath :: "string \<Rightarrow> string \<Rightarrow> bool" where
  "matchPath requestPath pattern =
     (let p = strip_query requestPath in p = pattern \<or> HasPrefix p (pattern @ ''/''))"

definition scopeContains :: "string \<Rightarrow> string \<Rightarrow> bool" where
  "scopeContains scopeString required = list_ex (\<lambda>s. s = required) (Fields scopeString)"

definition scopeIsBroader :: "string \<Rightarrow> string \<Rightarrow> bool" where
  "scopeIsBroader broader narrower =
     (if list_ex (\<lambda>s. s \<notin> set (Fields broader)) (Fields narrower) then False
      else length (Fields broader) > length (Fields narrower))"

definition headersToCEL :: "(string \<times> string) list \<Rightarrow> gomap" where
  "headersToCEL headers = mput_all (map (\<lambda>(k, v). (ToLower k, JStr v)) headers) []"

text \<open>The fields of a claims value as \<open>json.Marshal\<close> names them; the integers are read back as floating point numbers.\<close>

definition claims_json :: "Claims \<Rightarrow> json" where
  "claims_json c =
     JObj ([(''iss'', JStr (Issuer c)), (''iat'', JNum (float64 (of_int (IssuedAt c)))), (''exp'', JNum (float64 (of_int (ExpiresAt c)))),
            (''aud'', JStr (Audience c)), (''txn'', JStr (TransactionID c)), (''sub'', JStr (Subject c)),
            (''scope'', JStr (Scope c)), (''req_wl'', JStr (RequestingWorkload c))] @
           (case TransactionContext c of Some (kv # m) \<Rightarrow> [(''tctx'', JObj (kv # m))] | _ \<Rightarrow> []) @
           (case RequesterContext c of Some (kv # m) \<Rightarrow> [(''rctx'', JObj (kv # m))] | _ \<Rightarrow> []))"

definition claimsToMap :: "Claims \<Rightarrow> gomap option res" where
  "claimsToMap c = json_Unmarshal_map (json_Marshal (claims_json c))"

subsection \<open>The server\<close>

record verificationRuleSet =
  rset_rule :: VerificationRule
  rset_celPrograms :: "CelProgram list"

record ExtAuthServer =
  ea_verifier :: Verifier
  ea_verificationRules :: "verificationRuleSet list option"
  ea_ttsClient :: "Client option"

record extauth_env =
  xe_Parse :: "Verifier jwt_parse"
  xe_Get :: http_get
  xe_now :: int
  xe_url_Parse :: "string \<Rightarrow> (string \<times> string) res"
  xe_Do :: http_do

definition extauth_NewServer :: "Verifier \<Rightarrow> ExtAuthServer" where
  "extauth_NewServer verifier = \<lparr>ea_verifier = verifier, ea_verificationRules = None, ea_ttsClient = None\<rparr>"

definition compile_cel :: "cel_NewEnv \<Rightarrow> CELRule \<Rightarrow> CelProgram list" where
  "compile_cel NewEnv c =
     (case celverify_Compile NewEnv [\<lparr>cv_Name = cr_Name c, cv_CEL = cr_CEL c, cv_Message = cr_Message c\<rparr>] of
        Inl _ \<Rightarrow> []
      | Inr programs \<Rightarrow> programs)"

definition compileVerificationRuleCEL :: "cel_NewEnv \<Rightarrow> VerificationRule \<Rightarrow> CelProgram list" where
  "compileVerificationRuleCEL NewEnv r =
     (if vr_CELRules r = [] then [] else concat (map (compile_cel NewEnv) (vr_CELRules r)))"

definition SetVerificationRules :: "cel_NewEnv \<Rightarrow> VerificationRule list \<Rightarrow> ExtAuthServer \<Rightarrow> ExtAuthServer" where
  "SetVerificationRules NewEnv rules s =
     (let sorted_rules = sort_key (\<lambda>r. (vr_Namespace r, vr_Name r)) rules;
          snapshot = map (\<lambda>r. \<lparr>rset_rule = r, rset_celPrograms = compileVerificationRuleCEL NewEnv r\<rparr>) sorted_rules
      in s\<lparr>ea_verificationRules := Some snapshot\<rparr>)"

definition loadVerificationRules :: "ExtAuthServer \<Rightarrow> verificationRuleSet list" where
  "loadVerificationRules s = (case ea_verificationRules s of Some p \<Rightarrow> p | None \<Rightarrow> [])"

definition SetTTSClient :: "Client \<Rightarrow> ExtAuthServer \<Rightarrow> ExtAuthServer" where
  "SetTTSClient client s = s\<lparr>ea_ttsClient := Some client\<rparr>"

definition isExcluded :: "ExtAuthServer \<Rightarrow> string \<Rightarrow> string \<Rightarrow> bool" where
  "isExcluded s path method =
     list_ex (\<lambda>rs. list_ex (\<lambda>ep. matchPath path (ep_Path ep) \<and> EqualFold method (ep_Method ep))
       (vr_ExcludedEndpoints (rset_rule rs))) (loadVerificationRules s)"

definition cel_context :: "Claims \<Rightarrow> string \<Rightarrow> string \<Rightarrow> (string \<times> string) list \<Rightarrow> CelContext res" where
  "cel_context claims path method headers =
     bindr (claimsToMap claims) (Wrapf ''converting txtoken claims for CEL: %w'' []) (\<lambda>txMap.
     Ok \<lparr>cx_TxToken = txMap,
         cx_Request = Some (mput_all [(''path'', JStr path), (''method'', JStr method), (''headers'', JObj (headersToCEL headers))] [])\<rparr>)"

fun check_tctx_fields :: "VerificationRule \<Rightarrow> Claims \<Rightarrow> string list \<Rightarrow> error option" where
  "check_tctx_fields rule claims [] = None"
| "check_tctx_fields rule claims (field # rest) =
     (case TransactionContext claims of
        None \<Rightarrow> Some (Errorf ''tctx is nil but field %q is required (rule: %s)'' [field, vr_Name rule])
      | Some tctx \<Rightarrow>
          (case map_of tctx field of
             None \<Rightarrow> Some (Errorf ''required tctx field %q missing (rule: %s)'' [field, vr_Name rule])
           | Some _ \<Rightarrow> check_tctx_fields rule claims rest))"

definition check_rule :: "Claims \<Rightarrow> CelContext res \<Rightarrow> verificationRuleSet \<Rightarrow> error option" where
  "check_rule claims celCtx rs =
     (let rule = rset_rule rs
      in if vr_RequiredScope rule \<noteq> [] \<and> \<not> scopeContains (Scope claims) (vr_RequiredScope rule)
           then Some (Errorf ''token scope %q does not contain required scope %q (rule: %s)''
                  [Scope claims, vr_RequiredScope rule, vr_Name rule])
         else
           (case check_tctx_fields rule claims (vr_RequiredTctxFields rule) of
              Some e \<Rightarrow> Some e
            | None \<Rightarrow>
                if rset_celPrograms rs \<noteq> [] then
                  (case celCtx of
                     Inl e \<Rightarrow> Some e
                   | Inr ctx \<Rightarrow> celverify_Evaluate (rset_celPrograms rs) ctx)
                else None))"

fun check_rules :: "Claims \<Rightarrow> CelContext res \<Rightarrow> verificationRuleSet list \<Rightarrow> error option" where
  "check_rules claims celCtx [] = None"
| "check_rules claims celCtx (rs # rest) =
     (case check_rule claims celCtx rs of
        Some e \<Rightarrow> Some e
      | None \<Rightarrow> check_rules claims celCtx rest)"

definition checkVerificationRules ::
    "ExtAuthServer \<Rightarrow> Claims \<Rightarrow> string \<Rightarrow> string \<Rightarrow> (string \<times> string) list \<Rightarrow> error option" where
  "checkVerificationRules s claims path method headers =
     check_rules claims (cel_context claims path method headers) (loadVerificationRules s)"

definition narrows :: "Claims \<Rightarrow> VerificationRule \<Rightarrow> bool" where
  "narrows claims rule \<longleftrightarrow>
     vr_AutoNarrow rule \<and> vr_RequiredScope rule \<noteq> [] \<and> Scope claims \<noteq> vr_RequiredScope rule \<and>
     scopeIsBroader (Scope claims) (vr_RequiredScope rule)"

definition autoNarrow :: "extauth_env \<Rightarrow> ExtAuthServer \<Rightarrow> Claims \<Rightarrow> string \<Rightarrow> string" where
  "autoNarrow env s claims originalToken =
     (case ea_ttsClient s of
        None \<Rightarrow> []
      | Some client \<Rightarrow>
          (case find (narrows claims) (map rset_rule (loadVerificationRules s)) of
             None \<Rightarrow> []
           | Some rule \<Rightarrow>
               (case Exchange (xe_url_Parse env) (xe_Do env) client
                       \<lparr>er_SubjectToken = originalToken, er_SubjectTokenType = SubjectTokenTypeTxnToken,
                        er_Scope = vr_RequiredScope rule, er_RequestDetails = None, er_RequestContext = None\<rparr> of
                  Inl _ \<Rightarrow> []
                | Inr narrowedToken \<Rightarrow> narrowedToken)))"

definition extauth_Check :: "extauth_env \<Rightarrow> CheckRequest \<Rightarrow> ExtAuthServer \<Rightarrow> CheckResponse \<times> ExtAuthServer" where
  "extauth_Check env req s =
     (case cq_Http req of
        None \<Rightarrow> (denied codes_InvalidArgument (Errorf ''missing HTTP request attributes'' []), s)
      | Some httpReq \<Rightarrow>
          (let txTokenStr = getHeader (hr_Headers httpReq) HeaderName;
               path = hr_Path httpReq; method = hr_Method httpReq
           in if isExcluded s path method then (allowed, s)
              else if txTokenStr = [] then (denied codes_Unauthenticated (Errorf ''missing Txn-Token header'' []), s)
              else
                (case verify_Verify (xe_Parse env) (xe_Get env) (xe_now env) txTokenStr (ea_verifier s) of
                   (Inl err, v) \<Rightarrow>
                     (denied codes_Unauthenticated (Wrapf ''TxToken verification failed: %v'' [] err), s\<lparr>ea_verifier := v\<rparr>)
                 | (Inr claims, v) \<Rightarrow>
                     (case checkVerificationRules s claims path method (hr_Headers httpReq) of
                        Some err \<Rightarrow> (denied codes_PermissionDenied err, s\<lparr>ea_verifier := v\<rparr>)
                      | None \<Rightarrow>
                          (let narrowedToken = autoNarrow env s claims txTokenStr
                           in (if narrowedToken \<noteq> [] then allowedWithHeaders [(HeaderName, narrowedToken)] else allowed,
                               s\<lparr>ea_verifier := v\<rparr>))))))"

subsection \<open>Lemmas\<close>

interpretation xr: rule_evaluator "\<lambda>rs c. check_rules (fst c) (snd c) rs" "\<lambda>r c. check_rule (fst c) (snd c) r"
  by unfold_locales simp_all

lemma strip_query_eq: "strip_query p = takeWhile (\<lambda>c. c \<noteq> CHR ''?'') p"
proof (cases "CHR ''?'' \<in> set p")
  case True
  then show ?thesis by (simp add: strip_query_def Index_def Contains_def takeWhile_eq_take [symmetric])
next
  case False
  then have "takeWhile (\<lambda>c. c \<noteq> CHR ''?'') p = p" by (intro takeWhile_eq_all_conv [THEN iffD2]) auto
  with False show ?thesis unfolding strip_query_def Index_def Contains_def by (simp only: if_False option.case)
qed

lemma scopeContains_iff: "scopeContains s t \<longleftrightarrow> t \<in> set (Fields s)"
  by (auto simp: scopeContains_def list_ex_iff)

lemma check_tctx_fields_None_iff:
  "check_tctx_fields rule claims fs = None \<longleftrightarrow>
     fs = [] \<or> (\<exists>tctx. TransactionContext claims = Some tctx \<and> set fs \<subseteq> dom (map_of tctx))"
  by (induction fs) (auto split: option.splits)

text \<open>A verification rule holds of a token and a request: scope, context fields, and every expression that compiles.\<close>

definition rule_satisfied :: "cel_NewEnv \<Rightarrow> Claims \<Rightarrow> CelContext res \<Rightarrow> VerificationRule \<Rightarrow> bool" where
  "rule_satisfied NewEnv claims celCtx rule \<longleftrightarrow>
     (vr_RequiredScope rule = [] \<or> vr_RequiredScope rule \<in> set (Fields (Scope claims))) \<and>
     (vr_RequiredTctxFields rule = [] \<or>
       (\<exists>tctx. TransactionContext claims = Some tctx \<and> set (vr_RequiredTctxFields rule) \<subseteq> dom (map_of tctx))) \<and>
     (\<forall>c\<in>set (vr_CELRules rule). cel_ok (celverify_NewEnv NewEnv) (cr_CEL c) \<longrightarrow>
       (\<exists>ctx. celCtx = Inr ctx \<and> cel_holds (celverify_NewEnv NewEnv) (cr_CEL c) (verification_activation ctx)))"

lemma compile_cel_programs:
  "(\<forall>p\<in>set (compile_cel NewEnv c). vp_program p act = Inr (CelBool True)) \<longleftrightarrow>
     (cel_ok (celverify_NewEnv NewEnv) (cr_CEL c) \<longrightarrow> cel_holds (celverify_NewEnv NewEnv) (cr_CEL c) act)"
  "compile_cel NewEnv c \<noteq> [] \<longleftrightarrow> cel_ok (celverify_NewEnv NewEnv) (cr_CEL c)"
proof -
  let ?r = "\<lparr>cv_Name = cr_Name c, cv_CEL = cr_CEL c, cv_Message = cr_Message c\<rparr>"
  have ok: "is_Ok (celverify_Compile NewEnv [?r]) \<longleftrightarrow> cel_ok (celverify_NewEnv NewEnv) (cr_CEL c)"
    by (simp add: celverify_Compile_Ok_iff)
  have progs: "length ps = 1 \<and> (vp_program (hd ps) act = Inr (CelBool True) \<longleftrightarrow> cel_holds (celverify_NewEnv NewEnv) (cr_CEL c) act)"
    if "celverify_Compile NewEnv [?r] = Inr ps" for ps act
    using that unfolding celverify_Compile_single by (auto simp: cel_holds_def)
  show "(\<forall>p\<in>set (compile_cel NewEnv c). vp_program p act = Inr (CelBool True)) \<longleftrightarrow>
     (cel_ok (celverify_NewEnv NewEnv) (cr_CEL c) \<longrightarrow> cel_holds (celverify_NewEnv NewEnv) (cr_CEL c) act)"
    "compile_cel NewEnv c \<noteq> [] \<longleftrightarrow> cel_ok (celverify_NewEnv NewEnv) (cr_CEL c)"
    using ok progs [of _ act]
    by (cases "celverify_Compile NewEnv [?r]"; fastforce simp: compile_cel_def length_Suc_conv)+
qed

lemma check_rule_None_iff:
  "check_rule claims celCtx \<lparr>rset_rule = r, rset_celPrograms = compileVerificationRuleCEL NewEnv r\<rparr> = None \<longleftrightarrow>
     rule_satisfied NewEnv claims celCtx r"
proof -
  let ?ps = "compileVerificationRuleCEL NewEnv r"
  have ps: "set ?ps = (\<Union>c\<in>set (vr_CELRules r). set (compile_cel NewEnv c))" by (simp add: compileVerificationRuleCEL_def)
  have none: "?ps = [] \<longleftrightarrow> (\<forall>c\<in>set (vr_CELRules r). \<not> cel_ok (celverify_NewEnv NewEnv) (cr_CEL c))"
    unfolding set_empty [symmetric] ps using compile_cel_programs(2) by auto
  have eval: "celverify_Evaluate ?ps ctx = None \<longleftrightarrow>
      (\<forall>c\<in>set (vr_CELRules r). cel_ok (celverify_NewEnv NewEnv) (cr_CEL c) \<longrightarrow>
         cel_holds (celverify_NewEnv NewEnv) (cr_CEL c) (verification_activation ctx))" for ctx
    unfolding celverify_Evaluate_None_iff ps using compile_cel_programs(1) by auto
  let ?E = "if ?ps \<noteq> [] then (case celCtx of Inl e \<Rightarrow> Some e | Inr ctx \<Rightarrow> celverify_Evaluate ?ps ctx) else None"
  have E: "?E = None \<longleftrightarrow>
      (\<forall>c\<in>set (vr_CELRules r). cel_ok (celverify_NewEnv NewEnv) (cr_CEL c) \<longrightarrow>
         (\<exists>ctx. celCtx = Inr ctx \<and> cel_holds (celverify_NewEnv NewEnv) (cr_CEL c) (verification_activation ctx)))"
  proof (cases celCtx)
    case (Inl e)
    then show ?thesis using none by (cases "?ps = []") auto
  next
    case (Inr ctx)
    then have "?E = celverify_Evaluate ?ps ctx" by (cases "?ps = []") simp_all
    with eval [of ctx] Inr show ?thesis by simp
  qed
  have "check_rule claims celCtx \<lparr>rset_rule = r, rset_celPrograms = ?ps\<rparr> = None \<longleftrightarrow>
      (vr_RequiredScope r = [] \<or> scopeContains (Scope claims) (vr_RequiredScope r)) \<and>
      check_tctx_fields r claims (vr_RequiredTctxFields r) = None \<and> ?E = None"
    unfolding check_rule_def Let_def verificationRuleSet.simps
    by (cases "check_tctx_fields r claims (vr_RequiredTctxFields r)") simp_all
  then show ?thesis unfolding E rule_satisfied_def scopeContains_iff check_tctx_fields_None_iff .
qed

lemma loaded_rules:
  "loadVerificationRules (SetVerificationRules NewEnv rules s) =
     map (\<lambda>r. \<lparr>rset_rule = r, rset_celPrograms = compileVerificationRuleCEL NewEnv r\<rparr>)
       (sort_key (\<lambda>r. (vr_Namespace r, vr_Name r)) rules)"
  by (simp add: loadVerificationRules_def SetVerificationRules_def Let_def)

lemma SetVerificationRules_verifier [simp]:
  "ea_verifier (SetVerificationRules NewEnv rules s) = ea_verifier s"
  "ea_ttsClient (SetVerificationRules NewEnv rules s) = ea_ttsClient s"
  by (simp_all add: SetVerificationRules_def Let_def)

lemma checkVerificationRules_None_iff:
  "checkVerificationRules (SetVerificationRules NewEnv rules s) claims path method headers = None \<longleftrightarrow>
     (\<forall>r\<in>set rules. rule_satisfied NewEnv claims (cel_context claims path method headers) r)"
  using xr.accept_iff [of "(claims, cel_context claims path method headers)"]
  by (simp add: checkVerificationRules_def loaded_rules check_rule_None_iff)

lemma isExcluded_iff:
  "isExcluded (SetVerificationRules NewEnv rules s) path method \<longleftrightarrow>
     (\<exists>r\<in>set rules. \<exists>ep\<in>set (vr_ExcludedEndpoints r). matchPath path (ep_Path ep) \<and> EqualFold method (ep_Method ep))"
  by (auto simp: isExcluded_def loaded_rules list_ex_iff)

lemma allows_simps [simp]:
  "allows allowed" "allows (allowedWithHeaders hs)" "allows (denied c e) \<longleftrightarrow> c = codes_OK"
  by (simp_all add: allows_def allowed_def allowedWithHeaders_def denied_def Let_def)

lemma Check_allows_iff:
  assumes "cq_Http req = Some http"
  shows "allows (fst (extauth_Check env req s)) \<longleftrightarrow>
     isExcluded s (hr_Path http) (hr_Method http) \<or>
     (getHeader (hr_Headers http) HeaderName \<noteq> [] \<and>
      (\<exists>claims v. verify_Verify (xe_Parse env) (xe_Get env) (xe_now env) (getHeader (hr_Headers http) HeaderName) (ea_verifier s) = (Inr claims, v) \<and>
         checkVerificationRules s claims (hr_Path http) (hr_Method http) (hr_Headers http) = None))"
proof -
  obtain res v where "verify_Verify (xe_Parse env) (xe_Get env) (xe_now env) (getHeader (hr_Headers http) HeaderName) (ea_verifier s) = (res, v)"
    by fastforce
  with assms show ?thesis by (cases res) (auto simp: extauth_Check_def Let_def split: option.splits)
qed

subsection \<open>Properties\<close>

text \<open>
  C3. The verification server lets a request through exactly when its path and method are excluded by some rule, or it
  carries a token that verifies and every rule is satisfied. The rules of all namespaces and services apply to every
  request, and so do their exclusions; an expression that does not compile is skipped, while the scope and context fields of
  its rule stay required.
\<close>

theorem request_allowed_iff:
  assumes "cq_Http req = Some http"
  shows "allows (fst (extauth_Check env req (SetVerificationRules NewEnv rules s))) \<longleftrightarrow>
     (\<exists>r\<in>set rules. \<exists>ep\<in>set (vr_ExcludedEndpoints r). matchPath (hr_Path http) (ep_Path ep) \<and> EqualFold (hr_Method http) (ep_Method ep)) \<or>
     (getHeader (hr_Headers http) HeaderName \<noteq> [] \<and>
      (\<exists>claims v. verify_Verify (xe_Parse env) (xe_Get env) (xe_now env) (getHeader (hr_Headers http) HeaderName) (ea_verifier s) = (Inr claims, v) \<and>
        (\<forall>r\<in>set rules. rule_satisfied NewEnv claims (cel_context claims (hr_Path http) (hr_Method http) (hr_Headers http)) r)))"
  unfolding Check_allows_iff [OF assms] isExcluded_iff checkVerificationRules_None_iff by simp

text \<open>
  C24. The order in which the rule client hands over the rules is irrelevant: lists with the same rules under distinct
  names give the same server state, hence the same answers and the same error messages.
\<close>

theorem rule_order_irrelevant:
  assumes "mset rules = mset rules'" "distinct (map (\<lambda>r. (vr_Namespace r, vr_Name r)) rules)"
  shows "extauth_Check env req (SetVerificationRules NewEnv rules s) = extauth_Check env req (SetVerificationRules NewEnv rules' s)"
proof -
  let ?k = "\<lambda>r. (vr_Namespace r, vr_Name r)"
  have "sort_key ?k rules = sort_key ?k rules'"
  proof (rule map_sorted_distinct_set_unique [of ?k])
    show "set (sort_key ?k rules) = set (sort_key ?k rules')" using mset_eq_imp_set_eq [OF assms(1)] by simp
    have d': "distinct (map ?k rules')" using assms by (metis mset_eq_imp_distinct_iff mset_map)
    have "mset (map ?k (sort_key ?k xs)) = mset (map ?k xs)" for xs by simp
    then show "distinct (map ?k (sort_key ?k rules))" "distinct (map ?k (sort_key ?k rules'))"
      using assms(2) d' mset_eq_imp_distinct_iff by blast+
    show "inj_on ?k (set (sort_key ?k rules) \<union> set (sort_key ?k rules'))"
      using assms mset_eq_imp_set_eq [OF assms(1)] by (simp add: distinct_map)
  qed simp_all
  then have "SetVerificationRules NewEnv rules s = SetVerificationRules NewEnv rules' s" by (simp add: SetVerificationRules_def)
  then show ?thesis by simp
qed

text \<open>
  A required scope with a blank in it can never be met: the scope of a token is split at blanks before the comparison,
  so such a rule refuses every request that no rule excludes.
\<close>

theorem multiword_scope_refuses:
  assumes "cq_Http req = Some http" "rule \<in> set rules" "CHR '' '' \<in> set (vr_RequiredScope rule)"
    "\<not> isExcluded (SetVerificationRules NewEnv rules s) (hr_Path http) (hr_Method http)"
  shows "\<not> allows (fst (extauth_Check env req (SetVerificationRules NewEnv rules s)))"
proof -
  have "vr_RequiredScope rule \<notin> set (Fields sc)" for sc
    using Fields_no_space [of "vr_RequiredScope rule" sc "CHR '' ''"] assms(3) by (auto simp: ascii_space_def)
  then have "\<not> rule_satisfied NewEnv claims ctx rule" for claims ctx using assms(3) by (auto simp: rule_satisfied_def)
  then have "checkVerificationRules (SetVerificationRules NewEnv rules s) claims p m hs \<noteq> None" for claims p m hs
    unfolding checkVerificationRules_None_iff using assms(2) by blast
  then show ?thesis unfolding Check_allows_iff [OF assms(1)] using assms(4) by blast
qed

lemma token_response_inject:
  assumes "token_response t = token_response t'" "t \<noteq> []" "utf8_valid t" "t' \<noteq> []" "utf8_valid t'"
  shows "t = t'"
proof -
  have "Inr t = (Inr t' :: string res)"
    by (rule trans [OF sym [OF exchange_result_token [OF assms(2,3), unfolded assms(1)]] exchange_result_token [OF assms(4,5)]])
  then show ?thesis by simp
qed

text \<open>What a served replacement request returns.\<close>

lemma Exchange_replacement:
  assumes ok: "Exchange url_Parse (served_by fmt tenv h) client req = Inr tok"
    and req: "er_SubjectTokenType req = SubjectTokenTypeTxnToken" "er_SubjectToken req \<noteq> []" "er_Scope req \<noteq> []"
    and url: "url_Parse (cl_endpoint client @ ''/token_endpoint'') = Inr (path, [])"
    and toks: "\<forall>cl t. issues tenv h cl t \<longrightarrow> t \<noteq> [] \<and> utf8_valid t"
    and ver: "h_verifier h = Some verify"
  shows "\<exists>old cl. verify (h_keyManager h) (te_now tenv) (er_SubjectToken req) = Inr old \<and>
     set (Fields (er_Scope req)) \<subseteq> set (Fields (Scope old)) \<and> issues tenv h cl tok \<and> Scope cl = er_Scope req \<and>
     Subject cl = Subject old \<and> TransactionID cl = TransactionID old \<and> TransactionContext cl = TransactionContext old"
proof -
  let ?r = "exchange_request (path, []) req"
  obtain h' cl0 where served: "ServeHTTP tenv h ?r = (Some (token_response tok), h')" and cl0: "issues tenv h cl0 tok"
    using ok Exchange_served_iff [of req url_Parse client "(path, [])" tenv h fmt tok, OF req(2,3) url toks] by (metis prod.collapse)
  have status: "rs_Status (token_response tok) = StatusOK" by (simp add: token_response_def)
  have form: "xr_SubjectTokenType x = SubjectTokenTypeTxnToken \<and> xr_SubjectToken x = er_SubjectToken req \<and> xr_Scope x = er_Scope req"
    if "ParseForm ?r = Inr f" "parseRequest f = Inr x" for f x
    using that req(1) by (auto simp: ParseForm_exchange parseRequest_Ok_iff exchange_form_get subject_token_type_def SubjectTokenTypeTxnToken_def)
  from served status show ?thesis
  proof (cases rule: ServeHTTP_OK_cases)
    case (1 f x)
    then obtain existing tok' where "verify (h_keyManager h) (te_now tenv) (xr_SubjectToken x) = Inr existing"
      "isScopeSubset (xr_Scope x) (Scope existing)" "issues tenv h (replacement_claims h ?r x existing) tok'"
      "token_response tok = token_response tok'"
      using handleReplacement_OK_iff [of tenv h ?r x "token_response tok"] status ver by auto
    moreover from this(3,4) have "tok' = tok"
      using toks cl0 token_response_inject [of tok tok'] by blast
    ultimately show ?thesis
      using form [OF 1(2,3)] by (auto simp: isScopeSubset_iff replacement_claims_def)
  next
    case (2 f x)
    then show ?thesis using form [OF 2(2,3)] by simp
  qed
qed

text \<open>
  C10. Auto-narrowing, with ext-auth server, client library and token service together: a token the verification server
  puts in place of the incoming one was issued by the token service for the same subject, transaction and context as the
  incoming token, with the required scope of a rule that asks for narrowing, and that scope is contained in the scope of the
  incoming token.
\<close>

theorem narrowed_token_is_weaker:
  assumes "xe_Do env = served_by fmt tenv h" "ea_ttsClient s = Some client"
    and "xe_url_Parse env (cl_endpoint client @ ''/token_endpoint'') = Inr (path, [])"
    and "\<forall>cl t. issues tenv h cl t \<longrightarrow> t \<noteq> [] \<and> utf8_valid t" "h_verifier h = Some verify"
    and "cq_Http req = Some http" "fst (extauth_Check env req s) = allowedWithHeaders [(HeaderName, tok)]"
  shows "\<exists>rs old cl. rs \<in> set (loadVerificationRules s) \<and> vr_AutoNarrow (rset_rule rs) \<and>
     verify (h_keyManager h) (te_now tenv) (getHeader (hr_Headers http) HeaderName) = Inr old \<and>
     issues tenv h cl tok \<and> Scope cl = vr_RequiredScope (rset_rule rs) \<and>
     set (Fields (Scope cl)) \<subseteq> set (Fields (Scope old)) \<and>
     Subject cl = Subject old \<and> TransactionID cl = TransactionID old \<and> TransactionContext cl = TransactionContext old"
proof -
  let ?tok = "getHeader (hr_Headers http) HeaderName"
  have neq: "allowed \<noteq> allowedWithHeaders hs" "denied c e \<noteq> allowedWithHeaders hs" for hs c e
    by (simp_all add: allowed_def allowedWithHeaders_def denied_def Let_def)
  obtain claims where narrowed: "autoNarrow env s claims ?tok = tok" and tok: "tok \<noteq> []" "?tok \<noteq> []"
    using assms(6,7) neq
    by (auto simp: extauth_Check_def Let_def allowedWithHeaders_def split: if_splits sum.splits option.splits prod.splits)
  then obtain rule where rule: "find (narrows claims) (map rset_rule (loadVerificationRules s)) = Some rule"
    and ex: "Exchange (xe_url_Parse env) (served_by fmt tenv h) client
      \<lparr>er_SubjectToken = ?tok, er_SubjectTokenType = SubjectTokenTypeTxnToken, er_Scope = vr_RequiredScope rule,
       er_RequestDetails = None, er_RequestContext = None\<rparr> = Inr tok"
    using assms(1,2) by (auto simp: autoNarrow_def split: option.splits sum.splits)
  from find_Some_split [OF rule] have "narrows claims rule" "rule \<in> rset_rule ` set (loadVerificationRules s)" by simp_all
  then obtain rs where "rs \<in> set (loadVerificationRules s)" "rule = rset_rule rs" "vr_AutoNarrow rule" "vr_RequiredScope rule \<noteq> []"
    by (auto simp: narrows_def)
  then show ?thesis using Exchange_replacement [of "xe_url_Parse env" fmt tenv h client _ tok path verify, OF ex _ _ _ assms(3-5)] tok by fastforce
qed

subsection \<open>A concrete server\<close>

definition demo_xenv :: extauth_env where
  "demo_xenv = \<lparr>xe_Parse = demo_Parse, xe_Get = demo_Get, xe_now = demo_now + nanos,
     xe_url_Parse = (\<lambda>_. Inr (''/token_endpoint'', [])), xe_Do = served_by (\<lambda>_. []) demo_env demo_handler\<rparr>"

definition demo_server :: ExtAuthServer where
  "demo_server = SetTTSClient (NewClient ''http://tts/'') (extauth_NewServer (verify_New ''u'' ''td''))"

definition demo_vrule :: "string \<Rightarrow> string \<Rightarrow> VerificationRule" where
  "demo_vrule name required = \<lparr>vr_Namespace = ''shop'', vr_Name = name, vr_ServiceName = ''cart'', vr_RequiredScope = required,
     vr_RequiredTctxFields = [], vr_CELRules = [\<lparr>cr_Name = ''bad'', cr_CEL = ''((('', cr_Message = []\<rparr>],
     vr_ExcludedEndpoints = [\<lparr>ep_Path = ''/healthz'', ep_Method = ''GET''\<rparr>], vr_AutoNarrow = True\<rparr>"

definition demo_check :: "string \<Rightarrow> CheckRequest" where
  "demo_check path = \<lparr>cq_Http = Some \<lparr>hr_Path = path, hr_Method = ''GET'', hr_Headers = [(''txn-token'', ''tok'')], hr_Body = []\<rparr>,
     cq_Source = None\<rparr>"

lemma demo_http: "cq_Http (demo_check path) = Some \<lparr>hr_Path = path, hr_Method = ''GET'', hr_Headers = [(''txn-token'', ''tok'')], hr_Body = []\<rparr>"
  by (simp add: demo_check_def)

lemma demo_header: "getHeader [(''txn-token'', ''tok'')] HeaderName = ''tok''"
  by code_simp

lemma demo_token_verified:
  "\<exists>v. verify_Verify (xe_Parse demo_xenv) (xe_Get demo_xenv) (xe_now demo_xenv) ''tok'' (ea_verifier demo_server) = (Inr demo_old, v)"
  using demo_remote_verified by (simp add: demo_xenv_def demo_server_def SetTTSClient_def extauth_NewServer_def prod_eq_iff)

lemma demo_scope: "Scope demo_old = ''read write''"
  by (simp add: demo_old_def issued_claims_def demo_claims_def)

lemma demo_cel_refused: "\<not> cel_ok (celverify_NewEnv demo_NewEnv) ''(((''"
  by (simp add: cel_ok_def celverify_NewEnv_def demo_NewEnv_def)

lemma demo_satisfied: "rule_satisfied demo_NewEnv demo_old ctx (demo_vrule n ''read'')"
  by (simp add: rule_satisfied_def demo_vrule_def demo_cel_refused demo_scope Fields_demo)

lemma demo_not_excluded:
  "\<not> isExcluded (SetVerificationRules NewEnv [demo_vrule n required] demo_server) ''/buy'' m"
  by (simp add: isExcluded_iff demo_vrule_def matchPath_def strip_query_eq HasPrefix_def)

theorem request_allowed_iff_witness:
  "allows (fst (extauth_Check demo_xenv (demo_check ''/buy'') (SetVerificationRules demo_NewEnv [demo_vrule ''r'' ''read''] demo_server))) \<and>
   \<not> allows (fst (extauth_Check demo_xenv (demo_check ''/buy'') (SetVerificationRules demo_NewEnv [demo_vrule ''r'' ''pay''] demo_server)))"
proof -
  obtain v where v: "verify_Verify (xe_Parse demo_xenv) (xe_Get demo_xenv) (xe_now demo_xenv) ''tok'' (ea_verifier demo_server) = (Inr demo_old, v)"
    using demo_token_verified by blast
  have "\<not> rule_satisfied demo_NewEnv demo_old ctx (demo_vrule ''r'' ''pay'')" for ctx
    by (simp add: rule_satisfied_def demo_vrule_def demo_scope Fields_demo)
  moreover have "\<not> (\<exists>r\<in>set [demo_vrule ''r'' required]. \<exists>ep\<in>set (vr_ExcludedEndpoints r). matchPath ''/buy'' (ep_Path ep) \<and> EqualFold ''GET'' (ep_Method ep))" for required
    using demo_not_excluded [of undefined "''r''" required "''GET''"] unfolding isExcluded_iff .
  ultimately show ?thesis
    unfolding request_allowed_iff [OF demo_http] by (simp add: demo_header v demo_satisfied)
qed

theorem rule_order_irrelevant_witness:
  "extauth_Check demo_xenv (demo_check ''/buy'') (SetVerificationRules demo_NewEnv [demo_vrule ''r'' ''read'', demo_vrule ''q'' ''write''] demo_server) =
   extauth_Check demo_xenv (demo_check ''/buy'') (SetVerificationRules demo_NewEnv [demo_vrule ''q'' ''write'', demo_vrule ''r'' ''read''] demo_server)"
  by (rule rule_order_irrelevant) (simp_all add: demo_vrule_def)

theorem multiword_scope_refuses_witness:
  "\<not> allows (fst (extauth_Check demo_xenv (demo_check ''/buy'') (SetVerificationRules demo_NewEnv [demo_vrule ''r'' ''read write''] demo_server)))"
  by (rule multiword_scope_refuses [OF demo_http, of "demo_vrule ''r'' ''read write''"])
    (simp_all add: demo_not_excluded, simp add: demo_vrule_def)

lemma demo_narrowed:
  "\<exists>tok. fst (extauth_Check demo_xenv (demo_check ''/buy'') (SetVerificationRules demo_NewEnv [demo_vrule ''r'' ''read''] demo_server)) =
     allowedWithHeaders [(HeaderName, tok)]"
proof -
  let ?s = "SetVerificationRules demo_NewEnv [demo_vrule ''r'' ''read''] demo_server"
  obtain v where v: "verify_Verify (xe_Parse demo_xenv) (xe_Get demo_xenv) (xe_now demo_xenv) ''tok'' (ea_verifier ?s) = (Inr demo_old, v)"
    using demo_token_verified by auto
  have rules: "checkVerificationRules ?s demo_old p m hs = None" for p m hs
    by (simp add: checkVerificationRules_None_iff demo_satisfied)
  obtain tok c where served: "ServeHTTP demo_env demo_handler (exchange_request (''/token_endpoint'', []) demo_exchange) = (Some (token_response tok), demo_handler)"
    and iss: "issues demo_env demo_handler c tok" using demo_exchange_served by blast
  have ex: "Exchange (xe_url_Parse demo_xenv) (xe_Do demo_xenv) (NewClient ''http://tts/'') demo_exchange = Inr tok"
    using Exchange_served_iff [of demo_exchange "xe_url_Parse demo_xenv" "NewClient ''http://tts/''" "(''/token_endpoint'', [])" demo_env demo_handler "\<lambda>_. []" tok]
      served iss demo_issued_text by (auto simp: demo_exchange_def demo_xenv_def)
  have "narrows demo_old (demo_vrule ''r'' ''read'')"
    by (simp add: narrows_def demo_vrule_def demo_scope scopeIsBroader_def Fields_demo)
  then have "find (narrows demo_old) (map rset_rule (loadVerificationRules ?s)) = Some (demo_vrule ''r'' ''read'')"
    by (simp add: loaded_rules)
  moreover have "vr_RequiredScope (demo_vrule ''r'' ''read'') = ''read''" by (simp add: demo_vrule_def)
  moreover have "ea_ttsClient ?s = Some (NewClient ''http://tts/'')" by (simp add: demo_server_def SetTTSClient_def)
  ultimately have "autoNarrow demo_xenv ?s demo_old ''tok'' = tok" using ex by (simp add: autoNarrow_def demo_exchange_def)
  moreover have "tok \<noteq> []" using demo_issued_text [OF iss] by simp
  ultimately show ?thesis using v rules demo_not_excluded
    by (intro exI [of _ tok]) (simp add: extauth_Check_def demo_http demo_header Let_def)
qed

theorem narrowed_token_is_weaker_witness:
  "\<exists>tok cl. fst (extauth_Check demo_xenv (demo_check ''/buy'') (SetVerificationRules demo_NewEnv [demo_vrule ''r'' ''read''] demo_server)) =
     allowedWithHeaders [(HeaderName, tok)] \<and> issues demo_env demo_handler cl tok \<and> Scope cl = ''read''"
proof -
  let ?s = "SetVerificationRules demo_NewEnv [demo_vrule ''r'' ''read''] demo_server"
  obtain tok where tok: "fst (extauth_Check demo_xenv (demo_check ''/buy'') ?s) = allowedWithHeaders [(HeaderName, tok)]"
    using demo_narrowed by blast
  have "xe_Do demo_xenv = served_by (\<lambda>_. []) demo_env demo_handler" "ea_ttsClient ?s = Some (NewClient ''http://tts/'')"
    "xe_url_Parse demo_xenv (cl_endpoint (NewClient ''http://tts/'') @ ''/token_endpoint'') = Inr (''/token_endpoint'', [])"
    "h_verifier demo_handler = Some (\<lambda>km. local_Verify demo_Parse (newLocalVerifier km ''td''))"
    by (simp_all add: demo_xenv_def demo_server_def SetTTSClient_def demo_handler_def SetVerifier_def)
  from narrowed_token_is_weaker [OF this(1-3) _ this(4) demo_http tok] demo_issued_text
  obtain rs cl where "rs \<in> set (loadVerificationRules ?s)" "issues demo_env demo_handler cl tok" "Scope cl = vr_RequiredScope (rset_rule rs)"
    by blast
  moreover from this(1) have "rset_rule rs = demo_vrule ''r'' ''read''" by (simp add: loaded_rules)
  ultimately show ?thesis using tok by (auto simp: demo_vrule_def)
qed

end
