(* ===== verification/Identity.thy ===== *)
theory Identity
  imports GoStrings
begin

text \<open>
  Workload identity (\<open>pkg/extauth/identity.go\<close>): parsing SPIFFE principals and the cache from pod addresses to
  service accounts. A pod is what the code reads of \<open>corev1.Pod\<close>.

  The locale \<open>keyed_store\<close> is the contract of a map that is changed by inserting and deleting: the cache is one instance,
  the rule maps of the rule clients are others.
\<close>

subsection \<open>Keyed stores\<close>

locale keyed_store =
  fixes get :: "'s \<Rightarrow> 'k \<Rightarrow> 'v option"
    and put :: "'k \<Rightarrow> 'v \<Rightarrow> 's \<Rightarrow> 's"
    and del :: "'k \<Rightarrow> 's \<Rightarrow> 's"
  assumes get_put: "get (put k v s) k' = (if k' = k then Some v else get s k')"
    and get_del: "get (del k s) k' = (if k' = k then None else get s k')"
begin

text \<open>A sequence of insertions (\<open>Some v\<close>) and deletions (\<open>None\<close>): the last one for a key decides.\<close>

definition apply_ops :: "('k \<times> 'v option) list \<Rightarrow> 's \<Rightarrow> 's" where
  "apply_ops ops s = foldl (\<lambda>s (k, vo). case vo of Some v \<Rightarrow> put k v s | None \<Rightarrow> del k s) s ops"

lemma apply_ops_simps [simp]:
  "apply_ops [] s = s"
  "apply_ops ((k, Some v) # ops) s = apply_ops ops (put k v s)"
  "apply_ops ((k, None) # ops) s = apply_ops ops (del k s)"
  by (simp_all add: apply_ops_def)

lemma get_apply_ops:
  "get (apply_ops ops s) k = (case map_of (rev ops) k of Some vo \<Rightarrow> vo | None \<Rightarrow> get s k)"
proof (induction ops arbitrary: s)
  case (Cons op ops)
  obtain k0 vo where op: "op = (k0, vo)" by fastforce
  show ?case using Cons by (cases vo) (auto simp: op get_put get_del map_add_def split: option.splits)
qed simp

lemma apply_ops_frame: "k \<notin> fst ` set ops \<Longrightarrow> get (apply_ops ops s) k = get s k"
proof -
  assume "k \<notin> fst ` set ops"
  then have "map_of (rev ops) k = None" by (simp add: map_of_eq_None_iff)
  then show ?thesis by (simp add: get_apply_ops)
qed

lemma apply_ops_last: "get (apply_ops (ops @ [(k, vo)]) s) k = vo"
  by (simp add: get_apply_ops)

end

subsection \<open>Data\<close>

record podInfo =
  pi_Name :: string
  pi_Namespace :: string
  pi_ServiceAccount :: string

record WorkloadIdentity =
  wi_Subject :: string
  wi_Namespace :: string
  wi_ServiceAccount :: string

record Pod =
  pod_Name :: string
  pod_Namespace :: string
  pod_ServiceAccountName :: string
  pod_PodIP :: string

record IdentityResolver =
  ir_pods :: "(string \<times> podInfo) list"

subsection \<open>Operations\<close>

definition NewIdentityResolver :: IdentityResolver where
  "NewIdentityResolver = \<lparr>ir_pods = []\<rparr>"

definition workload_identity :: "string \<Rightarrow> string \<Rightarrow> WorkloadIdentity" where
  "workload_identity ns sa =
     \<lparr>wi_Subject = ''system:serviceaccount:'' @ ns @ '':'' @ sa, wi_Namespace = ns, wi_ServiceAccount = sa\<rparr>"

definition ResolveFromPrincipal :: "string \<Rightarrow> WorkloadIdentity res" where
  "ResolveFromPrincipal princ =
     (if princ = [] then Err (Errorf ''empty principal'' [])
      else if \<not> HasPrefix princ ''spiffe://'' then Err (Errorf ''principal %q is not a SPIFFE URI'' [princ])
      else
        let path = TrimPrefix princ ''spiffe://'' in
        case Index path CHR ''/'' of
          None \<Rightarrow> Err (Errorf ''invalid SPIFFE URI %q: no path after trust domain'' [princ])
        | Some slashIdx \<Rightarrow>
            let parts = Split (TrimPrefix (drop slashIdx path) ''/'') CHR ''/'' in
            if length parts < 4 \<or> parts ! 0 \<noteq> ''ns'' \<or> parts ! 2 \<noteq> ''sa''
              then Err (Errorf ''invalid SPIFFE URI %q: expected /ns/<namespace>/sa/<sa>'' [princ])
            else Ok (workload_identity (parts ! 1) (parts ! 3)))"

definition strip_port :: "string \<Rightarrow> string" where
  "strip_port podIP =
     (case LastIndex podIP CHR '':'' of
        Some idx \<Rightarrow> if 0 < idx \<and> \<not> Contains podIP CHR '']'' then take idx podIP else podIP
      | None \<Rightarrow> podIP)"

definition ResolveFromPodIP :: "IdentityResolver \<Rightarrow> string \<Rightarrow> WorkloadIdentity res" where
  "ResolveFromPodIP r podIP =
     (if podIP = [] then Err (Errorf ''empty pod IP'' [])
      else
        let ip = strip_port podIP in
        case map_of (ir_pods r) ip of
          None \<Rightarrow> Err (Errorf ''pod with IP %s not found in cache'' [ip])
        | Some info \<Rightarrow> Ok (workload_identity (pi_Namespace info) (pi_ServiceAccount info)))"

definition pod_info :: "Pod \<Rightarrow> podInfo" where
  "pod_info pod = \<lparr>pi_Name = pod_Name pod, pi_Namespace = pod_Namespace pod, pi_ServiceAccount = pod_ServiceAccountName pod\<rparr>"

definition UpdatePod :: "Pod \<Rightarrow> IdentityResolver \<Rightarrow> IdentityResolver" where
  "UpdatePod pod r =
     (if pod_PodIP pod = [] then r else r\<lparr>ir_pods := mput (pod_PodIP pod) (pod_info pod) (ir_pods r)\<rparr>)"

definition DeletePod :: "Pod \<Rightarrow> IdentityResolver \<Rightarrow> IdentityResolver" where
  "DeletePod pod r =
     (if pod_PodIP pod = [] then r else r\<lparr>ir_pods := mdel (pod_PodIP pod) (ir_pods r)\<rparr>)"

definition Resolve :: "IdentityResolver \<Rightarrow> string \<Rightarrow> string \<Rightarrow> WorkloadIdentity res" where
  "Resolve r princ sourceIP =
     (if princ \<noteq> [] then ResolveFromPrincipal princ
      else if sourceIP \<noteq> [] then ResolveFromPodIP r sourceIP
      else Err (Errorf ''no identity information available: both principal and source IP are empty'' []))"

subsection \<open>Lemmas\<close>

definition spiffe_uri :: "string \<Rightarrow> string list \<Rightarrow> string" where
  "spiffe_uri td parts = ''spiffe://'' @ td @ ''/'' @ Join parts CHR ''/''"

lemma ResolveFromPrincipal_uri:
  assumes "CHR ''/'' \<notin> set td" "\<forall>p\<in>set parts. CHR ''/'' \<notin> set p" "parts \<noteq> []"
  shows "ResolveFromPrincipal (spiffe_uri td parts) =
    (if 4 \<le> length parts \<and> parts ! 0 = ''ns'' \<and> parts ! 2 = ''sa'' then Inr (workload_identity (parts ! 1) (parts ! 3))
     else Inl (Errorf ''invalid SPIFFE URI %q: expected /ns/<namespace>/sa/<sa>'' [spiffe_uri td parts]))"
proof -
  let ?u = "spiffe_uri td parts"
  have u: "?u = ''spiffe://'' @ (td @ CHR ''/'' # Join parts CHR ''/'')" by (simp add: spiffe_uri_def)
  have t: "TrimPrefix ?u ''spiffe://'' = td @ CHR ''/'' # Join parts CHR ''/''"
    unfolding u by (rule TrimPrefix_append)
  have h: "HasPrefix ?u ''spiffe://''" unfolding u by (rule HasPrefix_append)
  have i: "Index (td @ CHR ''/'' # Join parts CHR ''/'') CHR ''/'' = Some (length td)"
    using assms(1) by (rule Index_append_sep)
  have "TrimPrefix (''/'' @ Join parts CHR ''/'') ''/'' = Join parts CHR ''/''" by (rule TrimPrefix_append)
  then have p: "Split (TrimPrefix (CHR ''/'' # Join parts CHR ''/'') ''/'') CHR ''/'' = parts"
    using Split_Join [OF assms(3,2)] by simp
  have "?u \<noteq> []" by (simp add: u)
  then show ?thesis by (auto simp: ResolveFromPrincipal_def h t i p Let_def not_less)
qed

interpretation pod_cache: keyed_store "\<lambda>r. map_of (ir_pods r)"
  "\<lambda>ip info r. r\<lparr>ir_pods := mput ip info (ir_pods r)\<rparr>" "\<lambda>ip r. r\<lparr>ir_pods := mdel ip (ir_pods r)\<rparr>"
  by unfold_locales (simp_all add: map_of_mdel)

text \<open>An event of the pod informer, as an operation on the cache.\<close>

datatype pod_event = PodUpdated Pod | PodDeleted Pod

fun pod_step :: "IdentityResolver \<Rightarrow> pod_event \<Rightarrow> IdentityResolver" where
  "pod_step r (PodUpdated p) = UpdatePod p r"
| "pod_step r (PodDeleted p) = DeletePod p r"

fun event_ops :: "pod_event \<Rightarrow> (string \<times> podInfo option) list" where
  "event_ops (PodUpdated p) = (if pod_PodIP p = [] then [] else [(pod_PodIP p, Some (pod_info p))])"
| "event_ops (PodDeleted p) = (if pod_PodIP p = [] then [] else [(pod_PodIP p, None)])"

lemma pod_step_ops: "pod_step r e = pod_cache.apply_ops (event_ops e) r"
  by (cases e) (auto simp: UpdatePod_def DeletePod_def)

lemma pod_steps_ops: "foldl pod_step r es = pod_cache.apply_ops (concat (map event_ops es)) r"
  by (induction es rule: rev_induct)
    (simp_all add: pod_step_ops pod_cache.apply_ops_def)

lemma mwf_pod_steps: "mwf (ir_pods r) \<Longrightarrow> mwf (ir_pods (foldl pod_step r es))"
proof (induction es arbitrary: r)
  case (Cons e es)
  then have "mwf (ir_pods (pod_step r e))" by (cases e) (auto simp: UpdatePod_def DeletePod_def mwf_mdel)
  then show ?case using Cons.IH by simp
qed simp

lemma strip_port_none: "CHR '':'' \<notin> set ip \<Longrightarrow> strip_port ip = ip"
  by (simp add: strip_port_def LastIndex_def Contains_def)

lemma LastIndex_append_sep:
  assumes "c \<notin> set r"
  shows "LastIndex (s @ c # r) c = Some (length s)"
proof -
  have "takeWhile (\<lambda>x. x \<noteq> c) (rev (s @ c # r)) = rev r" using assms by (simp add: takeWhile_append)
  then show ?thesis by (simp add: LastIndex_def Contains_def)
qed

lemma strip_port_append:
  assumes "CHR '':'' \<notin> set port" "ip \<noteq> []" "CHR '']'' \<notin> set ip" "CHR '']'' \<notin> set port"
  shows "strip_port (ip @ CHR '':'' # port) = ip"
  using assms by (simp add: strip_port_def LastIndex_append_sep Contains_def)

subsection \<open>Properties\<close>

text \<open>
  C34. A SPIFFE principal of the documented form resolves to the service account it names, whatever the pod cache and
  the source address are.
\<close>

theorem spiffe_principal_resolves:
  assumes "CHR ''/'' \<notin> set td" "CHR ''/'' \<notin> set ns" "CHR ''/'' \<notin> set sa"
  shows "Resolve r (''spiffe://'' @ td @ ''/ns/'' @ ns @ ''/sa/'' @ sa) ip = Inr (workload_identity ns sa)"
proof -
  have "spiffe_uri td [''ns'', ns, ''sa'', sa] = ''spiffe://'' @ td @ ''/ns/'' @ ns @ ''/sa/'' @ sa"
    by (simp add: spiffe_uri_def)
  then show ?thesis
    using ResolveFromPrincipal_uri [of td "[''ns'', ns, ''sa'', sa]"] assms by (simp add: Resolve_def)
qed

theorem spiffe_principal_resolves_witness:
  "Resolve NewIdentityResolver (''spiffe://'' @ ''td'' @ ''/ns/'' @ ''prod'' @ ''/sa/'' @ ''web'') [] =
     Inr (workload_identity ''prod'' ''web'')"
  using spiffe_principal_resolves [of "''td''" "''prod''" "''web''" NewIdentityResolver "[]"] by simp

text \<open>What the pod events say of an address: the last update or deletion for it decides.\<close>

fun latest_pod :: "pod_event list \<Rightarrow> string \<Rightarrow> podInfo option" where
  "latest_pod [] ip = None"
| "latest_pod (PodUpdated p # es) ip = (if pod_PodIP p = ip then Some (pod_info p) else latest_pod es ip)"
| "latest_pod (PodDeleted p # es) ip = (if pod_PodIP p = ip then None else latest_pod es ip)"

lemma pod_steps_latest:
  "ip \<noteq> [] \<Longrightarrow> map_of (ir_pods (foldl pod_step NewIdentityResolver es)) ip = latest_pod (rev es) ip"
proof (induction es rule: rev_induct)
  case (snoc e es)
  then show ?case by (cases e) (auto simp: pod_step_ops pod_cache.get_apply_ops)
qed (simp add: NewIdentityResolver_def)

text \<open>
  C35. Pod cache. After any sequence of informer events, an IPv4 address, with or without a port, resolves to the service
  account of the last pod that was updated with this address, and is unknown when it was deleted since or never seen.
\<close>

theorem pod_address_resolves:
  assumes "ip \<noteq> []" "CHR '':'' \<notin> set ip" "CHR '']'' \<notin> set ip" "CHR '':'' \<notin> set port" "CHR '']'' \<notin> set port"
    "addr = ip \<or> addr = ip @ '':'' @ port"
  shows "ResolveFromPodIP (foldl pod_step NewIdentityResolver es) addr =
    (case latest_pod (rev es) ip of
       Some info \<Rightarrow> Inr (workload_identity (pi_Namespace info) (pi_ServiceAccount info))
     | None \<Rightarrow> Inl (Errorf ''pod with IP %s not found in cache'' [ip]))"
proof -
  have "strip_port addr = ip" using assms strip_port_none [of ip] strip_port_append [of port ip] by auto
  moreover have "addr \<noteq> []" using assms by auto
  ultimately show ?thesis using pod_steps_latest [OF assms(1), of es] by (simp add: ResolveFromPodIP_def)
qed

theorem pod_address_resolves_witness:
  "ResolveFromPodIP (foldl pod_step NewIdentityResolver
     [PodUpdated \<lparr>pod_Name = ''p'', pod_Namespace = ''prod'', pod_ServiceAccountName = ''web'', pod_PodIP = ''10.0.0.4''\<rparr>])
     (''10.0.0.4'' @ '':'' @ ''80'') = Inr (workload_identity ''prod'' ''web'')"
  using pod_address_resolves [of "''10.0.0.4''" "''80''" "''10.0.0.4'' @ '':'' @ ''80''"
      "[PodUpdated \<lparr>pod_Name = ''p'', pod_Namespace = ''prod'', pod_ServiceAccountName = ''web'', pod_PodIP = ''10.0.0.4''\<rparr>]"]
  by (simp add: pod_info_def)

text \<open>
  An IPv6 address without brackets loses its last group before the lookup: a pod cached under such an address is
  found under it only if the truncated text is cached too.
\<close>

theorem ipv6_address_truncated:
  assumes "CHR '':'' \<notin> set grp" "front \<noteq> []" "CHR '']'' \<notin> set front" "CHR '']'' \<notin> set grp"
  shows "ResolveFromPodIP r (front @ '':'' @ grp) =
    (case map_of (ir_pods r) front of
       Some info \<Rightarrow> Inr (workload_identity (pi_Namespace info) (pi_ServiceAccount info))
     | None \<Rightarrow> Inl (Errorf ''pod with IP %s not found in cache'' [front]))"
  using strip_port_append [of grp front] assms by (simp add: ResolveFromPodIP_def)

theorem ipv6_address_truncated_witness:
  "ResolveFromPodIP (UpdatePod \<lparr>pod_Name = ''p'', pod_Namespace = ''prod'', pod_ServiceAccountName = ''web'', pod_PodIP = ''fd00::1''\<rparr>
     NewIdentityResolver) ''fd00::1'' = Inl (Errorf ''pod with IP %s not found in cache'' [''fd00:''])"
  using ipv6_address_truncated [of "''1''" "''fd00:''"
      "UpdatePod \<lparr>pod_Name = ''p'', pod_Namespace = ''prod'', pod_ServiceAccountName = ''web'', pod_PodIP = ''fd00::1''\<rparr> NewIdentityResolver"]
  by (simp add: UpdatePod_def NewIdentityResolver_def)

end
