(* ===== verification/TokenFlow.thy ===== *)
theory TokenFlow
  imports Demo
begin

text \<open>
  The life of a transaction token across components: issued by the token endpoint, verified in process and by the
  SDK, replaced by a narrower one, and refused after its key has been rotated away or it has expired. The
  properties rest on the contract \<open>token_verifier\<close> of the two verifiers and on the lemmas of the handler.
\<close>

subsection \<open>Managers with distinct key ids\<close>

definition kids_distinct :: "Manager \<Rightarrow> bool" where
  "kids_distinct m \<longleftrightarrow> distinct (map kid (entries m))"

lemma manager_current:
  assumes "manager_ok m"
  shows "kid (current m) \<noteq> []" "utf8_valid (kid (current m))" "rsa_key_ok (privateKey (current m))"
  using assms by (simp_all add: manager_ok_def entries_def entry_ok_def)

lemma Rotate_entries:
  "Rotate G m rand = (None, m', rand') \<Longrightarrow> entries m' = [current m', current m]"
  by (erule Rotate_cases) (simp_all add: entries_def)

lemma resolve_current:
  "manager_ok m \<Longrightarrow> kids_distinct m \<Longrightarrow>
     local_resolve (newLocalVerifier m a) (kid (current m)) = Some (rsa_PublicKey (privateKey (current m)))"
  by (rule local_resolve_entry) (simp_all add: kids_distinct_def entries_def)

lemma resolve_rotated:
  assumes "generator_ok G" "manager_ok m" "Rotate G m rand = (None, m', rand')" "kid (current m') \<noteq> kid (current m)"
  shows "local_resolve (newLocalVerifier m' a) (kid (current m)) = Some (rsa_PublicKey (privateKey (current m)))"
  using Rotate_ok [OF assms(1-3)] Rotate_entries [OF assms(3)] assms(4)
  by (intro local_resolve_entry) auto

lemma resolve_dropped:
  assumes "Rotate G m rand = (None, m1, rand1)" "Rotate G m1 rand1 = (None, m2, rand2)"
    "kid (current m) \<notin> {kid (current m1), kid (current m2)}"
  shows "local_resolve (newLocalVerifier m2 a) (kid (current m)) = None"
  using Rotate_entries [OF assms(2)] assms(3) by (intro local_resolve_None) simp

subsection \<open>Replacement\<close>

text \<open>
  What a replacement keeps of the token it replaces, and that its scope is not wider. A token without a transaction
  id gets a fresh one.
\<close>

definition narrowed :: "string \<Rightarrow> Claims \<Rightarrow> Claims \<Rightarrow> bool" where
  "narrowed uuid old new \<longleftrightarrow>
     Subject new = Subject old \<and> TransactionContext new = TransactionContext old \<and>
     RequesterContext new = RequesterContext old \<and> TransactionID new = txn_of uuid old \<and>
     set (Fields (Scope new)) \<subseteq> set (Fields (Scope old))"

lemma issued_replacement_narrowed:
  assumes "isScopeSubset (xr_Scope req) (Scope old)"
  shows "narrowed uuid old (issued_claims (replacement_claims h r req old) (txn_of uuid (replacement_claims h r req old)) now l)"
  using assms
  by (simp add: narrowed_def issued_claims_def replacement_claims_def txn_of_def isScopeSubset_iff)

lemma issued_verifies:
  assumes "jwt_Parse_spec Parse decode sig_ok" "jwt_Sign_spec (te_sign env) decode sig_ok" "issues env h c tok"
    "issue_clean (te_uuid env) (te_now env) c (h_lifetime h)" "manager_ok (h_keyManager h)"
    "local_resolve v (kid (current (h_keyManager h))) = Some (rsa_PublicKey (privateKey (current (h_keyManager h))))"
    "lv_audience v = Audience c" "alive (te_now env) (h_lifetime h) now'"
  shows "local_Verify Parse v now' tok =
    Inr (issued_claims c (txn_of (te_uuid env) c) (te_now env) (h_lifetime h))"
  using token_verifier.issued_accepted [OF local_token_verifier [OF assms(1)] assms(2) assms(3) [unfolded issues_def]
      assms(4) manager_current(2,1) [OF assms(5)] assms(6,7,8)]
  by simp

text \<open>
  C1. Token replacement. When the token endpoint answers a replacement request with 200, the presented transaction
  token was verified, every requested scope was granted by it, and the token in the response, for as long as it lives,
  verifies to claims with the same subject, transaction context, requester context and transaction id and a
  scope that is not wider.
\<close>

theorem replacement_narrows:
  assumes "jwt_Parse_spec Parse decode sig_ok" "jwt_Sign_spec (te_sign env) decode sig_ok"
    "h_verifier h = Some (\<lambda>km. local_Verify Parse (newLocalVerifier km (h_trustDomain h)))"
    "manager_ok (h_keyManager h)" "kids_distinct (h_keyManager h)"
    "ParseForm r = Inr form" "FormValue form ''subject_token_type'' = SubjectTokenTypeTxnToken"
    "ServeHTTP env h r = (Some resp, h')" "rs_Status resp = StatusOK"
  shows "\<exists>old req tok.
    local_Verify Parse (newLocalVerifier (h_keyManager h) (h_trustDomain h)) (te_now env)
      (FormValue form ''subject_token'') = Inr old \<and>
    parseRequest form = Inr req \<and> resp = token_response tok \<and> h' = h \<and>
    set (Fields (FormValue form ''scope'')) \<subseteq> set (Fields (Scope old)) \<and>
    (\<forall>now'. issue_clean (te_uuid env) (te_now env) (replacement_claims h r req old) (h_lifetime h) \<longrightarrow>
       alive (te_now env) (h_lifetime h) now' \<longrightarrow>
       (\<exists>new. local_Verify Parse (newLocalVerifier (h_keyManager h) (h_trustDomain h)) now' tok = Inr new \<and>
          narrowed (te_uuid env) old new))"
  using assms(8,9)
proof (cases rule: ServeHTTP_OK_cases)
  case (1 form' req)
  then have req: "parseRequest form = Inr req" using assms(6) by simp
  then have f: "xr_SubjectToken req = FormValue form ''subject_token''" "xr_Scope req = FormValue form ''scope''"
    by (auto simp: parseRequest_Ok_iff)
  obtain old tok where v: "local_Verify Parse (newLocalVerifier (h_keyManager h) (h_trustDomain h)) (te_now env)
      (xr_SubjectToken req) = Inr old" and sub: "isScopeSubset (xr_Scope req) (Scope old)"
    and iss: "issues env h (replacement_claims h r req old) tok" and tok: "resp = token_response tok"
    using handleReplacement_OK_iff [of env h r req resp] 1(5) assms(3,9) by auto
  have "local_Verify Parse (newLocalVerifier (h_keyManager h) (h_trustDomain h)) now' tok =
      Inr (issued_claims (replacement_claims h r req old) (txn_of (te_uuid env) (replacement_claims h r req old))
        (te_now env) (h_lifetime h))"
    if "issue_clean (te_uuid env) (te_now env) (replacement_claims h r req old) (h_lifetime h)"
      "alive (te_now env) (h_lifetime h) now'" for now'
    by (rule issued_verifies [OF assms(1,2) iss that(1) assms(4) resolve_current [OF assms(4,5)] _ that(2)])
      (simp add: newLocalVerifier_def replacement_claims_def)
  then show ?thesis
    using v sub tok req f 1(6) issued_replacement_narrowed [OF sub] isScopeSubset_iff by metis
next
  case (2 form' req)
  then show ?thesis using assms(6,7) by (auto simp: parseRequest_Ok_iff)
qed

lemma demo_replacement_clean:
  "issue_clean (te_uuid demo_env) (te_now demo_env) (replacement_claims demo_handler demo_request demo_req demo_old)
     (h_lifetime demo_handler)"
proof -
  have "identifyWorkload demo_request = ''api''" by (simp add: identifyWorkload_def demo_request_def Values_Get_def)
  then show ?thesis
    by (simp add: issue_clean_def claims_clean_def context_clean_def txn_of_def replacement_claims_def demo_env_def
        demo_handler_def SetVerifier_def NewHandler_def demo_req_def demo_old_def issued_claims_def demo_claims_def
        empty_claims_def ascii_literal demo_times ascii_utf8_valid mwf_Cons)
qed

theorem replacement_narrows_witness:
  "\<exists>tok new. fst (ServeHTTP demo_env demo_handler demo_request) = Some (token_response tok) \<and>
     local_Verify demo_Parse (newLocalVerifier demo_manager ''td'') (demo_now + 2 * nanos) tok = Inr new \<and>
     narrowed ''u2'' demo_old new"
proof -
  obtain resp where resp: "ServeHTTP demo_env demo_handler demo_request = (Some resp, demo_handler)" "rs_Status resp = StatusOK"
    using demo_served by blast
  have h: "h_verifier demo_handler = Some (\<lambda>km. local_Verify demo_Parse (newLocalVerifier km (h_trustDomain demo_handler)))"
    "h_keyManager demo_handler = demo_manager" "h_trustDomain demo_handler = ''td''" "h_lifetime demo_handler = demo_lifetime"
    and e: "te_now demo_env = demo_now + nanos" "te_uuid demo_env = ''u2''" "te_sign demo_env = ref_sign"
    by (simp_all add: demo_handler_def SetVerifier_def NewHandler_def demo_env_def)
  have pre: "jwt_Sign_spec (te_sign demo_env) demo_decode demo_sig_ok" "manager_ok (h_keyManager demo_handler)"
    "kids_distinct (h_keyManager demo_handler)"
    using demo_sign_spec demo_manager_ok by (simp_all add: e h kids_distinct_def)
  show ?thesis
    using replacement_narrows [OF demo_Parse_spec pre(1) h(1) pre(2,3) demo_ParseForm demo_form_values(3) resp]
      demo_verified demo_replacement_clean demo_times(6) resp(1)
    by (auto simp: h(2-4) e demo_form_values demo_parseRequest)
qed

subsection \<open>Issued tokens verify, and stop verifying\<close>

text \<open>
  C8. A token issued by the service is accepted by its in-process verifier with exactly the claims it was issued with,
  until the second it expires, and this still holds after one key rotation.
\<close>

theorem issued_token_verifies:
  assumes "jwt_Parse_spec Parse decode sig_ok" "jwt_Sign_spec (te_sign env) decode sig_ok" "issues env h c tok"
    "issue_clean (te_uuid env) (te_now env) c (h_lifetime h)" "generator_ok G" "manager_ok (h_keyManager h)"
    "kids_distinct (h_keyManager h)" "alive (te_now env) (h_lifetime h) now'"
    "m = h_keyManager h \<or>
      (\<exists>rand rand'. Rotate G (h_keyManager h) rand = (None, m, rand') \<and> kid (current m) \<noteq> kid (current (h_keyManager h)))"
  shows "local_Verify Parse (newLocalVerifier m (Audience c)) now' tok =
    Inr (issued_claims c (txn_of (te_uuid env) c) (te_now env) (h_lifetime h))"
proof (rule issued_verifies [OF assms(1-4,6) _ _ assms(8)])
  show "local_resolve (newLocalVerifier m (Audience c)) (kid (current (h_keyManager h))) =
      Some (rsa_PublicKey (privateKey (current (h_keyManager h))))"
    using assms(9) resolve_current [OF assms(6,7)] resolve_rotated [OF assms(5,6)] by blast
qed (simp add: newLocalVerifier_def)

definition demo_gen :: "nat key_generator" where
  "demo_gen n bits = (Ok \<lparr>rsa_PublicKey = \<lparr>rsa_N = 3127 + n, rsa_E = 17\<rparr>, rsa_D = 0\<rparr>, n + 1)"

lemma demo_gen_ok: "generator_ok demo_gen"
  by (auto simp: generator_ok_def demo_gen_def rsa_key_ok_def)

definition demo_rotated :: "nat \<Rightarrow> Manager \<Rightarrow> Manager" where
  "demo_rotated n m = fst (snd (Rotate demo_gen m n))"

lemma demo_Rotate: "Rotate demo_gen m n = (None, demo_rotated n m, n + 1)"
  by (simp add: demo_rotated_def Rotate_def generateKey_def demo_gen_def)

lemma demo_rotated_kid: "length (kid (current (demo_rotated n m))) = 16"
  by (simp add: demo_rotated_def Rotate_def generateKey_def demo_gen_def length_computeKid)

lemma demo_rotated_kid_new: "kid (current (demo_rotated n m)) \<noteq> kid (current demo_manager)"
  using demo_rotated_kid [of n m] by (auto simp: demo_manager_def demo_entry_def)

lemma demo_handler_fields:
  "h_keyManager demo_handler = demo_manager" "h_lifetime demo_handler = demo_lifetime"
  "te_now demo_env = demo_now + nanos" "te_uuid demo_env = ''u2''" "te_sign demo_env = ref_sign"
  by (simp_all add: demo_handler_def SetVerifier_def NewHandler_def demo_env_def)

lemma demo_issues: "\<exists>tok. issues demo_env demo_handler demo_claims tok"
  by (simp add: issues_def token_New_Ok_iff demo_handler_fields ref_sign_def validateRequired_None_iff demo_claims_def
      del: Join.simps json_Marshal.simps)

lemma demo_issue_clean: "issue_clean (te_uuid demo_env) (te_now demo_env) demo_claims (h_lifetime demo_handler)"
  using demo_clean demo_times by (simp add: issue_clean_def demo_handler_fields txn_of_def demo_claims_def)

lemmas demo_pre = demo_Parse_spec demo_sign_spec [folded demo_handler_fields(5)] demo_issue_clean
  demo_manager_ok(1) [folded demo_handler_fields(1)]

lemma demo_kids_distinct: "kids_distinct (h_keyManager demo_handler)"
  using demo_manager_ok(2) by (simp add: kids_distinct_def demo_handler_fields)

lemma demo_alive: "alive (te_now demo_env) (h_lifetime demo_handler) (demo_now + 2 * nanos)"
  using demo_times(6) by (simp add: demo_handler_fields)

theorem issued_token_verifies_witness:
  "\<exists>tok. issues demo_env demo_handler demo_claims tok \<and>
     local_Verify demo_Parse (newLocalVerifier (demo_rotated 0 demo_manager) ''td'') (demo_now + 2 * nanos) tok =
       Inr (issued_claims demo_claims ''t1'' (demo_now + nanos) demo_lifetime)"
proof -
  obtain tok where tok: "issues demo_env demo_handler demo_claims tok" using demo_issues by blast
  have "Audience demo_claims = ''td''" "txn_of ''u2'' demo_claims = ''t1''" by (simp_all add: demo_claims_def txn_of_def)
  moreover have "\<exists>rand rand'. Rotate demo_gen (h_keyManager demo_handler) rand = (None, demo_rotated 0 demo_manager, rand') \<and>
      kid (current (demo_rotated 0 demo_manager)) \<noteq> kid (current (h_keyManager demo_handler))"
    using demo_Rotate demo_rotated_kid_new by (auto simp: demo_handler_fields)
  ultimately show ?thesis
    using issued_token_verifies [OF demo_pre(1,2) tok demo_pre(3) demo_gen_ok demo_pre(4) demo_kids_distinct demo_alive,
        of "demo_rotated 0 demo_manager"] tok
    by (auto simp: demo_handler_fields)
qed

text \<open>
  C9. A token issued by the service is accepted by an SDK verifier that fetches the service's JWKS document, whether or
  not it has the key cached, with exactly the claims it was issued with.
\<close>

theorem issued_token_verifies_remotely:
  assumes "jwt_Parse_spec Parse decode sig_ok" "jwt_Sign_spec (te_sign env) decode sig_ok" "issues env h c tok"
    "issue_clean (te_uuid env) (te_now env) c (h_lifetime h)" "manager_ok (h_keyManager h)"
    "kids_distinct (h_keyManager h)" "alive (te_now env) (h_lifetime h) now'" "vr_audience v = Audience c"
    "Get (vr_jwksURL v) = Inr (JWKSHandler (h_keyManager h) r)" "rq_Method r = ''GET''"
    "map_of (vr_keys v) (kid (current (h_keyManager h))) \<in>
       {None, Some (rsa_PublicKey (privateKey (current (h_keyManager h))))}"
  shows "fst (verify_Verify Parse Get now' tok v) =
    Inr (issued_claims c (txn_of (te_uuid env) c) (te_now env) (h_lifetime h))"
proof -
  let ?k = "kid (current (h_keyManager h))"
  obtain ks where ks: "fetchJWKS Get v = (None, v\<lparr>vr_keys := ks\<rparr>)"
    "map_of ks ?k = local_resolve (newLocalVerifier (h_keyManager h) []) ?k"
    using fetchJWKS_manager [of "h_keyManager h" Get v r "[]"] assms(5,6,9,10) by (auto simp: kids_distinct_def)
  have "verify_resolve Get v ?k = Some (rsa_PublicKey (privateKey (current (h_keyManager h))))"
    using assms(11) ks resolve_current [OF assms(5,6), of "[]"] by (auto simp: verify_resolve_def)
  then show ?thesis
    using token_verifier.issued_accepted [OF verify_token_verifier [OF assms(1)] assms(2) assms(3) [unfolded issues_def]
        assms(4) manager_current(2,1) [OF assms(5)] _ assms(8,7)] by blast
qed

definition demo_get :: request where
  "demo_get = \<lparr>rq_Method = ''GET'', rq_Path = ''/.well-known/jwks.json'', rq_RawQuery = [], rq_Header = [], rq_Body = []\<rparr>"

theorem issued_token_verifies_remotely_witness:
  "\<exists>tok. issues demo_env demo_handler demo_claims tok \<and>
     fst (verify_Verify demo_Parse (\<lambda>_. Inr (JWKSHandler demo_manager demo_get)) (demo_now + 2 * nanos) tok
       (verify_New ''http://tts/.well-known/jwks.json'' ''td'')) =
       Inr (issued_claims demo_claims ''t1'' (demo_now + nanos) demo_lifetime)"
proof -
  obtain tok where tok: "issues demo_env demo_handler demo_claims tok" using demo_issues by blast
  have "txn_of ''u2'' demo_claims = ''t1''" by (simp add: demo_claims_def txn_of_def)
  moreover have "rq_Method demo_get = ''GET''" by (simp add: demo_get_def)
  moreover have "vr_audience (verify_New ''http://tts/.well-known/jwks.json'' ''td'') = Audience demo_claims"
    by (simp add: verify_New_def demo_claims_def)
  moreover have "vr_keys (verify_New ''http://tts/.well-known/jwks.json'' ''td'') = []" by (simp add: verify_New_def)
  ultimately show ?thesis
    using issued_token_verifies_remotely [OF demo_pre(1,2) tok demo_pre(3,4) demo_kids_distinct demo_alive,
        of "verify_New ''http://tts/.well-known/jwks.json'' ''td''" "\<lambda>_. Inr (JWKSHandler demo_manager demo_get)" demo_get] tok
    by (auto simp: demo_handler_fields)
qed

text \<open>
  C17. After two key rotations with fresh key ids the in-process verifier refuses a token, and so does an SDK verifier that
  has not cached its key. An SDK verifier that has cached the key does not ask again: it goes on accepting the token, with
  the claims it was issued with, as long as the token has not expired and the audience is the one it expects.
\<close>

theorem rotated_away_key_refused:
  assumes "jwt_Parse_spec ParseL decode sig_ok" "jwt_Parse_spec ParseV decode sig_ok"
    "jwt_Sign_spec (te_sign env) decode sig_ok" "issues env h c tok"
    "issue_clean (te_uuid env) (te_now env) c (h_lifetime h)" "generator_ok G" "manager_ok (h_keyManager h)"
    "Rotate G (h_keyManager h) rand = (None, m1, rand1)" "Rotate G m1 rand1 = (None, m2, rand2)"
    "kid (current (h_keyManager h)) \<notin> {kid (current m1), kid (current m2)}"
    "Get (vr_jwksURL v) = Inr (JWKSHandler m2 r)" "rq_Method r = ''GET''"
  shows "local_Verify ParseL (newLocalVerifier m2 a) now' tok \<noteq> Inr c' \<and>
    (map_of (vr_keys v) (kid (current (h_keyManager h))) = None \<longrightarrow> fst (verify_Verify ParseV Get now' tok v) \<noteq> Inr c') \<and>
    (map_of (vr_keys v) (kid (current (h_keyManager h))) = Some (rsa_PublicKey (privateKey (current (h_keyManager h)))) \<and>
      vr_audience v = Audience c \<and> alive (te_now env) (h_lifetime h) now' \<longrightarrow>
      fst (verify_Verify ParseV Get now' tok v) = Inr (issued_claims c (txn_of (te_uuid env) c) (te_now env) (h_lifetime h)))"
proof (intro conjI impI)
  let ?k = "kid (current (h_keyManager h))"
  note issued = assms(4) [unfolded issues_def] and key = manager_current(2,1) [OF assms(7)]
  have none: "local_resolve (newLocalVerifier m2 x) ?k = None" for x
    using resolve_dropped [OF assms(8,9)] assms(10) by simp
  then show "local_Verify ParseL (newLocalVerifier m2 a) now' tok \<noteq> Inr c'"
    using token_verifier.issued_unknown_kid [OF local_token_verifier [OF assms(1)] assms(3) issued assms(5) key(1),
        of "newLocalVerifier m2 a" now' c'] by simp
  have m2: "manager_ok m2" by (rule Rotate_ok [OF assms(6) Rotate_ok [OF assms(6-8)] assms(9)])
  obtain ks where ks: "fetchJWKS Get v = (None, v\<lparr>vr_keys := ks\<rparr>)" "map_of ks ?k = None"
    using fetchJWKS_kids [of m2 Get v r ?k] m2 assms(11,12) Rotate_entries [OF assms(9)] assms(10) by auto
  assume "map_of (vr_keys v) ?k = None"
  with ks have "verify_resolve Get v ?k = None" by (simp add: verify_resolve_def)
  then show "fst (verify_Verify ParseV Get now' tok v) \<noteq> Inr c'"
    by (rule token_verifier.issued_unknown_kid [OF verify_token_verifier [OF assms(2)] assms(3) issued assms(5) key(1)])
next
  let ?k = "kid (current (h_keyManager h))" and ?pub = "rsa_PublicKey (privateKey (current (h_keyManager h)))"
  assume cached: "map_of (vr_keys v) ?k = Some ?pub \<and> vr_audience v = Audience c \<and> alive (te_now env) (h_lifetime h) now'"
  then have "verify_resolve Get v ?k = Some ?pub" by (simp add: verify_resolve_def)
  then show "fst (verify_Verify ParseV Get now' tok v) = Inr (issued_claims c (txn_of (te_uuid env) c) (te_now env) (h_lifetime h))"
    using token_verifier.issued_accepted [OF verify_token_verifier [OF assms(2)] assms(3) assms(4) [unfolded issues_def]
        assms(5) manager_current(2,1) [OF assms(7)]] cached by blast
qed

theorem rotated_away_key_refused_witness:
  "\<exists>tok. issues demo_env demo_handler demo_claims tok \<and>
     local_Verify demo_Parse (newLocalVerifier (demo_rotated 1 (demo_rotated 0 demo_manager)) ''td'') demo_now tok \<noteq>
       Inr demo_old \<and>
     fst (verify_Verify demo_Parse (\<lambda>_. Inr (JWKSHandler (demo_rotated 1 (demo_rotated 0 demo_manager)) demo_get)) demo_now tok
       (verify_New ''u'' ''td'')) \<noteq> Inr demo_old \<and>
     fst (verify_Verify demo_Parse (\<lambda>_. Inr (JWKSHandler (demo_rotated 1 (demo_rotated 0 demo_manager)) demo_get)) (demo_now + 2 * nanos) tok
       ((verify_New ''u'' ''td'')\<lparr>vr_keys := [(kid (current demo_manager), rsa_PublicKey (privateKey (current demo_manager)))]\<rparr>)) =
       Inr (issued_claims demo_claims ''t1'' (demo_now + nanos) demo_lifetime)"
proof -
  obtain tok where tok: "issues demo_env demo_handler demo_claims tok" using demo_issues by blast
  have g: "rq_Method demo_get = ''GET''" and k: "vr_keys (verify_New ''u'' ''td'') = []"
    by (simp_all add: demo_get_def verify_New_def)
  have r: "Rotate demo_gen (h_keyManager demo_handler) 0 = (None, demo_rotated 0 demo_manager, 1)"
    "Rotate demo_gen (demo_rotated 0 demo_manager) 1 = (None, demo_rotated 1 (demo_rotated 0 demo_manager), 2)"
    by (simp_all add: demo_Rotate demo_handler_fields)
  have n: "kid (current (h_keyManager demo_handler)) \<notin>
      {kid (current (demo_rotated 0 demo_manager)), kid (current (demo_rotated 1 (demo_rotated 0 demo_manager)))}"
    using demo_rotated_kid_new by (metis demo_handler_fields(1) insertE singletonD)
  let ?Get = "\<lambda>_. Inr (JWKSHandler (demo_rotated 1 (demo_rotated 0 demo_manager)) demo_get)"
  let ?v = "(verify_New ''u'' ''td'')\<lparr>vr_keys := [(kid (current demo_manager), rsa_PublicKey (privateKey (current demo_manager)))]\<rparr>"
  have "txn_of (te_uuid demo_env) demo_claims = ''t1''" "Audience demo_claims = ''td''" "vr_audience ?v = ''td''"
    by (simp_all add: demo_claims_def txn_of_def verify_New_def)
  then show ?thesis
    using rotated_away_key_refused [OF demo_Parse_spec demo_pre(1,2) tok demo_pre(3) demo_gen_ok demo_pre(4) r n,
        of ?Get "verify_New ''u'' ''td''" demo_get "''td''" demo_now demo_old]
      rotated_away_key_refused [OF demo_Parse_spec demo_pre(1,2) tok demo_pre(3) demo_gen_ok demo_pre(4) r n,
        of ?Get ?v demo_get "''td''" "demo_now + 2 * nanos" demo_old] tok g k demo_alive
    by (auto simp: demo_handler_fields)
qed

text \<open>
  C18. No verifier accepts a token of the service once its lifetime has passed, whatever keys it holds.
\<close>

theorem expired_token_refused:
  assumes "jwt_Parse_spec ParseL decode sig_ok" "jwt_Parse_spec ParseV decode sig_ok"
    "jwt_Sign_spec (te_sign env) decode sig_ok" "issues env h c tok"
    "issue_clean (te_uuid env) (te_now env) c (h_lifetime h)" "manager_ok (h_keyManager h)"
    "Unix (te_now env + h_lifetime h) \<noteq> 0" "te_now env + h_lifetime h \<le> now'"
  shows "local_Verify ParseL lv now' tok \<noteq> Inr c' \<and> fst (verify_Verify ParseV Get now' tok v) \<noteq> Inr c'"
proof
  note issued = assms(4) [unfolded issues_def]
  note k = manager_current(2) [OF assms(6)]
  show "local_Verify ParseL lv now' tok \<noteq> Inr c'"
    using token_verifier.issued_expired [OF local_token_verifier [OF assms(1)] assms(3) issued assms(5) k assms(7,8), of lv c']
    by simp
  show "fst (verify_Verify ParseV Get now' tok v) \<noteq> Inr c'"
    by (rule token_verifier.issued_expired [OF verify_token_verifier [OF assms(2)] assms(3) issued assms(5) k assms(7,8)])
qed

theorem expired_token_refused_witness:
  "\<exists>tok. issues demo_env demo_handler demo_claims tok \<and>
     local_Verify demo_Parse (newLocalVerifier demo_manager ''td'') (demo_now + 100 * nanos) tok \<noteq> Inr demo_old"
proof -
  obtain tok where tok: "issues demo_env demo_handler demo_claims tok" using demo_issues by blast
  have t: "Unix (te_now demo_env + h_lifetime demo_handler) \<noteq> 0"
    "te_now demo_env + h_lifetime demo_handler \<le> demo_now + 100 * nanos"
    by (simp_all add: demo_handler_fields Unix_def demo_now_def demo_lifetime_def nanos_def)
  show ?thesis using expired_token_refused [OF demo_Parse_spec demo_pre(1,2) tok demo_pre(3,4) t] tok by blast
qed

lemma jwt_wf_regular:
  assumes "utf8_valid k" "json_clean (JObj claims)" "json_sorted (JObj claims)"
  shows "jwt_wf (regular_jwt k claims)"
proof -
  have "utf8_valid ''typ''" "utf8_valid ''alg''" "utf8_valid ''kid''" "utf8_valid ''JWT''" "utf8_valid ''RS256''"
    by (rule ascii_utf8_valid, simp add: code_def)+
  then show ?thesis using assms by (simp add: jwt_wf_def regular_jwt_def mwf_def)
qed

text \<open>
  C19. Tokens of another kind are not transaction tokens: whatever its claims and whatever key it is signed with, also the key
  of the token service, a signed token with the usual type header is refused by both verifiers.
\<close>

theorem regular_token_refused:
  assumes "jwt_Parse_spec ParseL decode sig_ok" "jwt_Parse_spec ParseV decode sig_ok" "jwt_Sign_spec sign decode sig_ok"
    and "createRegularJWT sign key k claims = Some tok"
    and "utf8_valid k" "json_clean (JObj claims)" "json_sorted (JObj claims)"
  shows "local_Verify ParseL lv now tok \<noteq> Inr c \<and> fst (verify_Verify ParseV Get now tok v) \<noteq> Inr c"
proof -
  have "sign (regular_jwt k claims) key = Inr tok" using assms(4) by (simp add: createRegularJWT_def split: sum.splits)
  then have d: "decode tok = Some (regular_jwt k claims)"
    using assms(3) jwt_wf_regular [OF assms(5-7)] unfolding jwt_Sign_spec_def by blast
  have "as_string (jwt_Header (regular_jwt k claims)) ''typ'' \<noteq> TypeHeader"
    by (simp add: regular_jwt_def as_string_def TypeHeader_def)
  then show ?thesis
    using token_verifier.accept_typ [OF local_token_verifier [OF assms(1)] _ d, where now = now and s = lv and c = c]
      token_verifier.accept_typ [OF verify_token_verifier [OF assms(2)] _ d, where now = now and s = v and c = c]
    by auto
qed

theorem regular_token_refused_witness:
  "\<exists>tok. createRegularJWT ref_sign demo_key ''k1'' [(''sub'', JStr ''alice'')] = Some tok \<and>
     local_Verify (ref_Parse ref_decode ref_sig_ok) (newLocalVerifier demo_manager ''td'') demo_now tok \<noteq> Inr demo_old"
proof -
  obtain tok where tok: "createRegularJWT ref_sign demo_key ''k1'' [(''sub'', JStr ''alice'')] = Some tok"
    by (simp add: createRegularJWT_def ref_sign_def)
  have "utf8_valid ''k1''" "utf8_valid ''sub''" "utf8_valid ''alice''" by (rule ascii_utf8_valid, simp add: code_def)+
  then show ?thesis
    using regular_token_refused [OF ref_Parse_spec ref_Parse_spec ref_sign_spec tok, of "newLocalVerifier demo_manager ''td''" demo_now demo_old]
      tok by (simp add: mwf_def)
qed

subsection \<open>Issuance\<close>

text \<open>
  C2. Issuance. When the token endpoint answers a request for a new token with 200, the subject token was accepted by
  the first authenticator configured for its issuer (signature, issuer, audience, claim rules and subject mapping), every
  issuance rule that is not limited to namespaces evaluated to true, and the response carries the token signed with the
  current key for the authenticated subject and the requested scope and contexts.
\<close>

theorem issuance_authorised:
  assumes "jwt_Parse_spec (te_Parse env) decode sig_ok" "ParseForm r = Inr form"
    "FormValue form ''subject_token_type'' \<noteq> SubjectTokenTypeTxnToken"
    "ServeHTTP env h r = (Some resp, h')" "rs_Status resp = StatusOK"
  shows "\<exists>req iss xs a ys info tok.
    parseRequest form = Inr req \<and> extractIssuer (xr_SubjectToken req) = Inr iss \<and>
    h_router h = xs @ a # ys \<and> (\<forall>x\<in>set xs. oa_issuerURL x \<noteq> iss) \<and> oa_issuerURL a = iss \<and>
    oidc_accepts decode sig_ok (te_Get env) (te_now env) (xr_SubjectToken req) a info \<and>
    (\<forall>rule\<in>set (loadIssuanceRules h). ir_TargetNamespaces rule = [] \<longrightarrow>
       ir_program rule (issuance_activation (issuance_context r req info)) = Inr (CelBool True)) \<and>
    issues env h (new_claims h r req info) tok \<and> resp = token_response tok"
  using assms(4,5)
proof (cases rule: ServeHTTP_OK_cases)
  case (1 form' req)
  then show ?thesis using assms(2,3) by (auto simp: parseRequest_Ok_iff)
next
  case (2 form' req)
  let ?Auth = "oidc_Authenticate (te_Parse env) (te_Get env) (te_now env)"
  obtain info auths tok where
    auth: "fst (router_Authenticate oidc_Matches ?Auth (xr_SubjectToken req) (h_router h)) = Some (Inr info)"
    and rules: "EvaluateIssuanceRules (loadIssuanceRules h) (issuance_context r req info) = None"
    and tok: "issues env h (new_claims h r req info) tok" "resp = token_response tok"
    using handle_issuance_OK_iff [of env h r req resp h'] 2(5) assms(5) by auto
  obtain iss xs a ys where route: "extractIssuer (xr_SubjectToken req) = Inr iss" "h_router h = xs @ a # ys"
    "\<forall>x\<in>set xs. \<not> oidc_Matches x iss" "oidc_Matches a iss" "fst (?Auth (xr_SubjectToken req) a) = Some (Inr info)"
    using auth unfolding authenticator.router_accepts_iff [OF oidc_authenticator [OF assms(1)]] by blast
  have acc: "oidc_accepts decode sig_ok (te_Get env) (te_now env) (xr_SubjectToken req) a info"
    using route(5) by (simp add: oidc_Authenticate_Ok_iff [OF assms(1)])
  have "\<forall>rule\<in>set (loadIssuanceRules h). ir_TargetNamespaces rule = [] \<longrightarrow>
       ir_program rule (issuance_activation (issuance_context r req info)) = Inr (CelBool True)"
    using rules by (simp add: EvaluateIssuanceRules_None_iff ruleAppliesToNamespace_iff)
  moreover have "\<forall>x\<in>set xs. oa_issuerURL x \<noteq> iss" "oa_issuerURL a = iss" "parseRequest form = Inr req"
    using route(3,4) 2(2,3) assms(2) by (auto simp: oidc_Matches_def)
  ultimately show ?thesis using route(1,2) acc tok by blast
qed

text \<open>A service with one authenticator, whose key is cached, and one issuance rule.\<close>

definition demo_subject :: string where
  "demo_subject = ''h.eyJpc3MiOiJpIn0.s''"

definition demo_subject_jwt :: jwt_token where
  "demo_subject_jwt = \<lparr>jwt_Method = SigningMethodRSA ''RS256'', jwt_Header = [(''kid'', JStr ''k1'')],
     jwt_Claims = [(''aud'', JStr ''a''), (''iss'', JStr ''i''), (''sub'', JStr ''bob'')]\<rparr>"

definition demo_subject_decode :: "string \<Rightarrow> jwt_token option" where
  "demo_subject_decode s = (if s = demo_subject then Some demo_subject_jwt else None)"

definition demo_auth :: OIDCAuthenticator where
  "demo_auth = \<lparr>oa_config = \<lparr>ac_Issuer = \<lparr>ic_URL = ''i'', ic_DiscoveryURL = [], ic_Audiences = [''a''], ic_AudienceMatchPolicy = []\<rparr>,
      ac_ClaimValidationRules = [], ac_ClaimMappings = \<lparr>cm_Subject = \<lparr>ce_Claim = ''sub'', ce_Expression = []\<rparr>, cm_Extra = []\<rparr>\<rparr>,
     oa_issuerURL = ''i'', oa_discoveryURL = [], oa_audiences = [(''a'', True)], oa_matchAny = True,
     oa_validationRules = [], oa_subjectProgram = None, oa_extraMappings = [], oa_jwksURL = [],
     oa_keys = [(''k1'', rsa_PublicKey demo_key)]\<rparr>"

definition demo_rule :: IssuanceRule where
  "demo_rule = \<lparr>ir_Name = ''always'', ir_program = (\<lambda>_. Inr (CelBool True)), ir_message = [], ir_TargetNamespaces = []\<rparr>"

definition demo_issuer :: Handler where
  "demo_issuer = SetIssuanceRules [demo_rule] (NewHandler [demo_auth] demo_manager ''tts'' ''td'' demo_lifetime)"

definition demo_issue_env :: tts_env where
  "demo_issue_env = demo_env\<lparr>te_Parse := ref_Parse demo_subject_decode (\<lambda>_ _. True)\<rparr>"

definition demo_issue_form :: Values where
  "demo_issue_form =
     mput_all [(''grant_type'', [GrantType]), (''subject_token'', [demo_subject]),
       (''subject_token_type'', [SubjectTokenTypeAccessToken]), (''requested_token_type'', [RequestedTokenType]),
       (''scope'', [''read''])] []"

definition demo_issue_request :: request where
  "demo_issue_request = \<lparr>rq_Method = ''POST'', rq_Path = ''/token_endpoint'', rq_RawQuery = [],
     rq_Header = [(''Content-Type'', [''application/x-www-form-urlencoded''])], rq_Body = Values_Encode demo_issue_form\<rparr>"

definition demo_issue_req :: TokenExchangeRequest where
  "demo_issue_req = \<lparr>xr_GrantType = GrantType, xr_SubjectToken = demo_subject, xr_SubjectTokenType = SubjectTokenTypeAccessToken,
     xr_RequestedTokenType = RequestedTokenType, xr_Audience = [], xr_Scope = ''read'',
     xr_RequestDetails = None, xr_RequestContext = None\<rparr>"

lemma demo_issuer_iss: "extractIssuer demo_subject = Inr ''i''"
  by code_simp

lemma demo_issue_ParseForm: "ParseForm demo_issue_request = Inr demo_issue_form"
proof (rule ParseForm_Encode)
  have "length (Values_Encode demo_issue_form) \<le> 500" by code_simp
  then show "length (Values_Encode demo_issue_form) \<le> maxFormSize" by (simp add: maxFormSize_def)
qed (simp_all add: demo_issue_request_def Values_Get_def demo_issue_form_def mwf_Cons)

lemma demo_issue_parseRequest: "parseRequest demo_issue_form = Inr demo_issue_req"
  by (simp add: parseRequest_Ok_iff FormValue_def Values_Get_def demo_issue_form_def map_of_mput_all parse_context_def
      demo_issue_req_def demo_subject_def SubjectTokenTypeAccessToken_def del: mput_all_simps)

lemma demo_auth_accepts:
  "oidc_Authenticate (ref_Parse demo_subject_decode (\<lambda>_ _. True)) Get now demo_subject demo_auth =
     (Some (Inr \<lparr>si_Subject = ''bob'', si_Extra = []\<rparr>), demo_auth)"
  by (simp add: oidc_Authenticate_def ref_Parse_def demo_subject_decode_def oidc_keyFunc_def demo_subject_jwt_def demo_auth_def
      claims_valid_def not_expired_def already_valid_def numeric_date_def oidc_subject_info_def validateAudience_def
      GetAudience_def evaluateSubjectMapping_def evaluateExtraMappings_def)

lemma demo_issuer_serves:
  assumes "rq_Method r = ''POST''" "ParseForm r = Inr form" "parseRequest form = Inr req"
    "xr_SubjectToken req = demo_subject" "xr_SubjectTokenType req \<noteq> SubjectTokenTypeTxnToken" "xr_Scope req \<noteq> []"
  shows "\<exists>tok. ServeHTTP demo_issue_env demo_issuer r = (Some (token_response tok), demo_issuer) \<and>
    issues demo_issue_env demo_issuer (new_claims demo_issuer r req \<lparr>si_Subject = ''bob'', si_Extra = []\<rparr>) tok"
proof -
  let ?info = "\<lparr>si_Subject = ''bob'', si_Extra = []\<rparr>"
  have "\<exists>tok. issues demo_issue_env demo_issuer (new_claims demo_issuer r req ?info) tok"
    using assms(6)
    by (simp add: issues_def token_New_Ok_iff demo_issue_env_def demo_env_def ref_sign_def validateRequired_None_iff
        new_claims_def demo_issuer_def SetIssuanceRules_def NewHandler_def
        del: Join.simps json_Marshal.simps)
  then obtain tok where tok: "issues demo_issue_env demo_issuer (new_claims demo_issuer r req ?info) tok" ..
  have "router_Authenticate oidc_Matches (oidc_Authenticate (te_Parse demo_issue_env) (te_Get demo_issue_env) (te_now demo_issue_env))
      (xr_SubjectToken req) (h_router demo_issuer) = (Some (Inr ?info), h_router demo_issuer)"
    using demo_auth_accepts
    by (simp add: router_Authenticate_def assms(4) demo_issuer_iss demo_issuer_def SetIssuanceRules_def
        NewHandler_def oidc_Matches_def demo_issue_env_def) (simp add: demo_auth_def)
  moreover have "EvaluateIssuanceRules (loadIssuanceRules demo_issuer) (issuance_context r req ?info) = None"
    by (simp add: loadIssuanceRules_def demo_issuer_def SetIssuanceRules_def demo_rule_def EvaluateIssuanceRules_None_iff
        del: EvaluateIssuanceRules.simps)
  ultimately have "handle_issuance demo_issue_env demo_issuer r req =
      (Some (token_response tok), demo_issuer) \<and> rs_Status (token_response tok) = StatusOK"
    unfolding handle_issuance_OK_iff using tok by (intro exI conjI) (assumption | simp)+
  with tok show ?thesis using assms(1-3,5) by (auto simp: ServeHTTP_def)
qed

lemma demo_issuance_served:
  "\<exists>resp. ServeHTTP demo_issue_env demo_issuer demo_issue_request = (Some resp, demo_issuer) \<and> rs_Status resp = StatusOK"
proof -
  have "rq_Method demo_issue_request = ''POST''" "xr_SubjectToken demo_issue_req = demo_subject"
    "xr_SubjectTokenType demo_issue_req \<noteq> SubjectTokenTypeTxnToken" "xr_Scope demo_issue_req \<noteq> []"
    by (simp_all add: demo_issue_request_def demo_issue_req_def SubjectTokenTypeAccessToken_def SubjectTokenTypeTxnToken_def)
  from demo_issuer_serves [OF this(1) demo_issue_ParseForm demo_issue_parseRequest this(2-4)] show ?thesis
    by (auto simp: token_response_def)
qed

theorem issuance_authorised_witness:
  "\<exists>info tok. oidc_accepts demo_subject_decode (\<lambda>_ _. True) (te_Get demo_issue_env) (te_now demo_issue_env) demo_subject demo_auth info \<and>
     fst (ServeHTTP demo_issue_env demo_issuer demo_issue_request) = Some (token_response tok)"
proof -
  obtain resp where resp: "ServeHTTP demo_issue_env demo_issuer demo_issue_request = (Some resp, demo_issuer)"
    "rs_Status resp = StatusOK" using demo_issuance_served by blast
  have spec: "jwt_Parse_spec (te_Parse demo_issue_env) demo_subject_decode (\<lambda>_ _. True)"
    using ref_Parse_spec by (simp add: demo_issue_env_def)
  have t: "FormValue demo_issue_form ''subject_token_type'' \<noteq> SubjectTokenTypeTxnToken"
    by (simp add: FormValue_def Values_Get_def demo_issue_form_def SubjectTokenTypeAccessToken_def SubjectTokenTypeTxnToken_def)
  have "h_router demo_issuer = [demo_auth]" by (simp add: demo_issuer_def SetIssuanceRules_def NewHandler_def)
  then show ?thesis
    using issuance_authorised [OF spec demo_issue_ParseForm t resp] resp(1)
    by (auto simp: demo_issue_parseRequest demo_issue_req_def Cons_eq_append_conv)
qed

end
