(* ===== verification/Generate.thy ===== *)
theory Generate
  imports ExtAuth Identity TokenFlow
begin

text \<open>
  The ext-auth server in generation mode (\<open>pkg/extauth/generate.go\<close>): at an entry point it matches a request against the
  generation rules, extracts the transaction context, asks the token service for a token and adds it to the request. The
  order in which Go ranges over the context mapping of a rule is the parameter \<open>iter\<close>.
\<close>

subsection \<open>Matching\<close>

fun match_segments :: "string list \<Rightarrow> string list \<Rightarrow> bool" where
  "match_segments (r # rs) (p # ps) =
     (if HasPrefix p ''{'' \<and> HasSuffix p ''}'' then match_segments rs ps
      else if r \<noteq> p then False
      else match_segments rs ps)"
| "match_segments _ _ = True"

definition matchEndpointPath :: "string \<Rightarrow> string \<Rightarrow> bool" where
  "matchEndpointPath requestPath pattern =
     (let reqParts = Split (Trim (strip_query requestPath) CHR ''/'') CHR ''/'';
          patParts = Split (Trim pattern CHR ''/'') CHR ''/''
      in if length reqParts \<noteq> length patParts then False else match_segments reqParts patParts)"

subsection \<open>Extraction\<close>

definition extractSourceAddress :: "CheckRequest \<Rightarrow> string" where
  "extractSourceAddress req =
     (case cq_Source req of
        Some src \<Rightarrow> (case peer_Address src of Some a \<Rightarrow> a | None \<Rightarrow> [])
      | None \<Rightarrow> [])"

definition extractTctxField :: "HttpRequest \<Rightarrow> TctxFieldMapping \<Rightarrow> string res" where
  "extractTctxField httpReq mapping =
     (if fm_Source mapping = ''body'' then
        (if hr_Body httpReq = [] then Ok []
         else
           bindr (json_Unmarshal_map (hr_Body httpReq)) (Wrapf ''failed to parse request body as JSON: %w'' []) (\<lambda>parsed.
           case map_of (case parsed of None \<Rightarrow> [] | Some m \<Rightarrow> m) (fm_Field mapping) of
             None \<Rightarrow> Ok []
           | Some (JStr v) \<Rightarrow> Ok v
           | Some v \<Rightarrow> Ok (json_Marshal v)))
      else if fm_Source mapping = ''query'' then
        (case Index (hr_Path httpReq) CHR ''?'' of
           Some idx \<Rightarrow>
             (case ParseQuery (drop (idx + 1) (hr_Path httpReq)) of
                (_, Some err) \<Rightarrow> Err (Wrapf ''failed to parse query string: %w'' [] err)
              | (query, None) \<Rightarrow> Ok (Values_Get query (fm_Field mapping)))
         | None \<Rightarrow> Ok [])
      else if fm_Source mapping = ''header'' then Ok (getHeader (hr_Headers httpReq) (ToLower (fm_Field mapping)))
      else if fm_Source mapping = ''path'' then Ok []
      else Err (Errorf ''unknown tctxMapping source: %q'' [fm_Source mapping]))"

text \<open>The loop over the mapping: the details so far, or the denial that ends it.\<close>

fun extract_fields :: "HttpRequest \<Rightarrow> (string \<times> TctxFieldMapping) list \<Rightarrow> gomap \<Rightarrow> CheckResponse + gomap" where
  "extract_fields httpReq [] details = Inr details"
| "extract_fields httpReq ((fieldName, mapping) # ms) details =
     (case extractTctxField httpReq mapping of
        Inl err \<Rightarrow>
          if fm_Required mapping
            then Inl (denied codes_InvalidArgument (Wrapf ''required tctx field %q extraction failed: %v'' [fieldName] err))
          else extract_fields httpReq ms details
      | Inr val \<Rightarrow>
          if val \<noteq> [] then extract_fields httpReq ms (mput fieldName (JStr val) details)
          else if fm_Required mapping
            then Inl (denied codes_InvalidArgument (Errorf ''required tctx field %q is missing'' [fieldName]))
          else extract_fields httpReq ms details)"

subsection \<open>The server\<close>

record GenerationServer =
  gs_ttsClient :: Client
  gs_identityResolver :: IdentityResolver
  gs_generationRules :: "GenerationRule list"

definition NewGenerationServer :: "Client \<Rightarrow> IdentityResolver \<Rightarrow> GenerationServer" where
  "NewGenerationServer ttsClient resolver =
     \<lparr>gs_ttsClient = ttsClient, gs_identityResolver = resolver, gs_generationRules = []\<rparr>"

definition SetGenerationRules :: "GenerationRule list \<Rightarrow> GenerationServer \<Rightarrow> GenerationServer" where
  "SetGenerationRules rules s = s\<lparr>gs_generationRules := rules\<rparr>"

definition findMatchingRule :: "GenerationServer \<Rightarrow> string \<Rightarrow> string \<Rightarrow> GenerationRule option" where
  "findMatchingRule s path method =
     find (\<lambda>rule. EqualFold (ep_Method (gr_Endpoint rule)) method \<and>
                  matchEndpointPath (strip_query path) (ep_Path (gr_Endpoint rule))) (gs_generationRules s)"

definition kubernetes_sa_type :: string where
  "kubernetes_sa_type = ''urn:ietf:params:oauth:token-type:kubernetes-sa''"

definition subject_of :: "GenerationServer \<Rightarrow> CheckRequest \<Rightarrow> string \<Rightarrow> (string \<times> string) res" where
  "subject_of s req authHeader =
     (if authHeader \<noteq> [] \<and> HasPrefix authHeader ''Bearer ''
        then Ok (TrimPrefix authHeader ''Bearer '', SubjectTokenTypeAccessToken)
      else
        (let principal = (case cq_Source req of Some src \<Rightarrow> peer_Principal src | None \<Rightarrow> []);
             sourceIP = extractSourceAddress req
         in bindr (Resolve (gs_identityResolver s) principal sourceIP) (Wrapf ''failed to resolve workload identity: %v'' [])
              (\<lambda>identity. Ok (wi_Subject identity, kubernetes_sa_type))))"

definition request_context :: "CheckRequest \<Rightarrow> string \<Rightarrow> gomap" where
  "request_context req authHeader =
     (let sourceAddr = extractSourceAddress req;
          rctx = (if sourceAddr \<noteq> [] then mput ''req_ip'' (JStr sourceAddr) [] else [])
      in if authHeader \<noteq> [] then mput ''authn'' (JStr ''oidc'') rctx else mput ''authn'' (JStr ''kubernetes-sa'') rctx)"

definition generation_Check ::
    "((string \<times> TctxFieldMapping) list \<Rightarrow> (string \<times> TctxFieldMapping) list) \<Rightarrow> extauth_env \<Rightarrow> CheckRequest \<Rightarrow>
       GenerationServer \<Rightarrow> CheckResponse" where
  "generation_Check iter env req s =
     (case cq_Http req of
        None \<Rightarrow> denied codes_InvalidArgument (Errorf ''missing HTTP request attributes'' [])
      | Some httpReq \<Rightarrow>
          (case findMatchingRule s (hr_Path httpReq) (hr_Method httpReq) of
             None \<Rightarrow> allowed
           | Some rule \<Rightarrow>
               (let authHeader = getHeader (hr_Headers httpReq) ''Authorization''
                in case subject_of s req authHeader of
                     Inl err \<Rightarrow> denied codes_Unauthenticated err
                   | Inr (subjectToken, subjectTokenType) \<Rightarrow>
                       (case extract_fields httpReq (iter (gr_TctxMapping rule)) [(''purpose'', JStr (gr_Purpose rule))] of
                          Inl resp \<Rightarrow> resp
                        | Inr requestDetails \<Rightarrow>
                            (case Exchange (xe_url_Parse env) (xe_Do env) (gs_ttsClient s)
                                    \<lparr>er_SubjectToken = subjectToken, er_SubjectTokenType = subjectTokenType,
                                     er_Scope = gr_Scope rule, er_RequestDetails = Some requestDetails,
                                     er_RequestContext = Some (request_context req authHeader)\<rparr> of
                               Inl err \<Rightarrow> denied codes_Internal (Wrapf ''token exchange failed: %v'' [] err)
                             | Inr txToken \<Rightarrow> allowedWithHeaders [(HeaderName, txToken)])))))"

subsection \<open>Lemmas\<close>

text \<open>The value a mapping takes from the request; what cannot be extracted counts as empty.\<close>

definition field_value :: "HttpRequest \<Rightarrow> TctxFieldMapping \<Rightarrow> string" where
  "field_value http m = (case extractTctxField http m of Inr v \<Rightarrow> v | Inl _ \<Rightarrow> [])"

definition fields_present :: "HttpRequest \<Rightarrow> (string \<times> TctxFieldMapping) list \<Rightarrow> bool" where
  "fields_present http ms \<longleftrightarrow> (\<forall>(f, m)\<in>set ms. fm_Required m \<longrightarrow> field_value http m \<noteq> [])"

definition field_entries :: "HttpRequest \<Rightarrow> (string \<times> TctxFieldMapping) list \<Rightarrow> gomap" where
  "field_entries http ms =
     map (\<lambda>(f, m). (f, JStr (field_value http m))) (filter (\<lambda>(f, m). field_value http m \<noteq> []) ms)"

text \<open>The transaction context of a rule for a request, with no reference to the order of the mapping.\<close>

definition rule_context :: "HttpRequest \<Rightarrow> GenerationRule \<Rightarrow> gomap" where
  "rule_context http rule = mput_all (field_entries http (gr_TctxMapping rule)) [(''purpose'', JStr (gr_Purpose rule))]"

lemma field_list_simps [simp]:
  "fields_present http []" "field_entries http [] = []"
  "fields_present http ((f, m) # ms) \<longleftrightarrow> (fm_Required m \<longrightarrow> field_value http m \<noteq> []) \<and> fields_present http ms"
  "field_entries http ((f, m) # ms) =
     (if field_value http m \<noteq> [] then (f, JStr (field_value http m)) # field_entries http ms else field_entries http ms)"
  by (simp_all add: fields_present_def field_entries_def)

lemma extract_fields_Inr_iff:
  "extract_fields http ms d = Inr d' \<longleftrightarrow> fields_present http ms \<and> d' = mput_all (field_entries http ms) d"
proof (induction ms arbitrary: d)
  case (Cons fm ms)
  obtain f m where fm: "fm = (f, m)" by fastforce
  show ?case by (cases "extractTctxField http m") (auto simp: fm Cons field_value_def)
qed auto

lemma extract_fields_Inl:
  "extract_fields http ms d = Inl resp \<Longrightarrow> \<exists>e. resp = denied codes_InvalidArgument e"
  by (induction ms arbitrary: d) (auto split: sum.splits if_splits)

lemma field_entries_keys: "map fst (field_entries http ms) = map fst (filter (\<lambda>(f, m). field_value http m \<noteq> []) ms)"
  by (auto simp: field_entries_def)

lemma map_of_distinct_mset:
  assumes "distinct (map fst xs)" "mset xs = mset ys"
  shows "map_of xs = map_of ys"
proof -
  have "distinct (map fst ys)" using assms by (metis mset_eq_imp_distinct_iff mset_map)
  with assms(1) show ?thesis using mset_eq_imp_set_eq [OF assms(2)] by (intro map_of_inject_set [THEN iffD2])
qed

lemma rule_context_order:
  assumes "distinct (map fst (gr_TctxMapping rule))" "mset ms = mset (gr_TctxMapping rule)"
  shows "mput_all (field_entries http ms) [(''purpose'', JStr (gr_Purpose rule))] = rule_context http rule"
    "fields_present http ms = fields_present http (gr_TctxMapping rule)"
proof -
  let ?es = "field_entries http ms" and ?fs = "field_entries http (gr_TctxMapping rule)"
  have m: "mset ?es = mset ?fs" using assms(2) by (simp add: field_entries_def)
  have "distinct (map fst ?fs)" unfolding field_entries_keys using assms(1) by (rule distinct_map_filter)
  then have d: "distinct (map fst (rev ?fs))" by (simp add: rev_map [symmetric])
  have "map_of (rev ?fs) = map_of (rev ?es)" by (rule map_of_distinct_mset [OF d]) (simp add: m)
  then show "mput_all ?es [(''purpose'', JStr (gr_Purpose rule))] = rule_context http rule"
    unfolding rule_context_def by (intro mwf_ext) (simp_all add: map_of_mput_all mwf_Cons del: mput_all_simps)
  show "fields_present http ms = fields_present http (gr_TctxMapping rule)"
    using mset_eq_imp_set_eq [OF assms(2)] by (simp add: fields_present_def)
qed

lemma answers_distinct [simp]:
  "allowed \<noteq> allowedWithHeaders hs" "allowedWithHeaders hs \<noteq> allowed" "denied c e \<noteq> allowedWithHeaders hs"
  "allowedWithHeaders hs \<noteq> denied c e"
  "allowedWithHeaders hs = allowedWithHeaders hs' \<longleftrightarrow> hs = hs'"
  by (auto simp: allowed_def allowedWithHeaders_def denied_def Let_def)

text \<open>The exchange request for a matched rule.\<close>

definition generation_exchange :: "CheckRequest \<Rightarrow> HttpRequest \<Rightarrow> GenerationRule \<Rightarrow> string \<Rightarrow> string \<Rightarrow> ExchangeRequest" where
  "generation_exchange req http rule subj ty =
     \<lparr>er_SubjectToken = subj, er_SubjectTokenType = ty, er_Scope = gr_Scope rule,
      er_RequestDetails = Some (rule_context http rule),
      er_RequestContext = Some (request_context req (getHeader (hr_Headers http) ''Authorization''))\<rparr>"

text \<open>The answer to a request a rule matches: the order of the mapping only shows in the message of a denial.\<close>

lemma generation_Check_matched:
  assumes "cq_Http req = Some http" "findMatchingRule s (hr_Path http) (hr_Method http) = Some rule"
    and "mset (iter (gr_TctxMapping rule)) = mset (gr_TctxMapping rule)" "distinct (map fst (gr_TctxMapping rule))"
  shows "(\<exists>c e. generation_Check iter env req s = denied c e \<and> c \<noteq> codes_OK) \<or>
     (\<exists>subj ty tok. generation_Check iter env req s = allowedWithHeaders [(HeaderName, tok)] \<and>
       subject_of s req (getHeader (hr_Headers http) ''Authorization'') = Inr (subj, ty) \<and>
       fields_present http (gr_TctxMapping rule) \<and>
       Exchange (xe_url_Parse env) (xe_Do env) (gs_ttsClient s) (generation_exchange req http rule subj ty) = Inr tok)"
proof (cases "subject_of s req (getHeader (hr_Headers http) ''Authorization'')")
  case (Inr st)
  obtain subj ty where st: "st = (subj, ty)" by fastforce
  let ?x = "extract_fields http (iter (gr_TctxMapping rule)) [(''purpose'', JStr (gr_Purpose rule))]"
  show ?thesis
  proof (cases ?x)
    case (Inl resp)
    then show ?thesis using extract_fields_Inl [OF Inl] assms(1,2) Inr st by (auto simp: generation_Check_def Let_def)
  next
    case x: (Inr d)
    then have d: "d = rule_context http rule" "fields_present http (gr_TctxMapping rule)"
      using rule_context_order [OF assms(4,3), of http] by (simp_all add: extract_fields_Inr_iff)
    then have c: "generation_Check iter env req s =
        (case Exchange (xe_url_Parse env) (xe_Do env) (gs_ttsClient s) (generation_exchange req http rule subj ty) of
           Inl err \<Rightarrow> denied codes_Internal (Wrapf ''token exchange failed: %v'' [] err)
         | Inr tok \<Rightarrow> allowedWithHeaders [(HeaderName, tok)])"
      using assms(1,2) Inr st x by (simp add: generation_Check_def generation_exchange_def Let_def)
    show ?thesis using c d(2) Inr st
      by (cases "Exchange (xe_url_Parse env) (xe_Do env) (gs_ttsClient s) (generation_exchange req http rule subj ty)") auto
  qed
qed (use assms(1,2) in \<open>auto simp: generation_Check_def Let_def\<close>)

lemma generation_Check_token_iff:
  assumes "cq_Http req = Some http" "findMatchingRule s (hr_Path http) (hr_Method http) = Some rule"
    and "mset (iter (gr_TctxMapping rule)) = mset (gr_TctxMapping rule)" "distinct (map fst (gr_TctxMapping rule))"
  shows "generation_Check iter env req s = allowedWithHeaders [(HeaderName, tok)] \<longleftrightarrow>
     (\<exists>subj ty. subject_of s req (getHeader (hr_Headers http) ''Authorization'') = Inr (subj, ty) \<and>
       fields_present http (gr_TctxMapping rule) \<and>
       Exchange (xe_url_Parse env) (xe_Do env) (gs_ttsClient s) (generation_exchange req http rule subj ty) = Inr tok)"
    (is "?l \<longleftrightarrow> ?r")
proof
  assume ?l
  then show ?r using generation_Check_matched [of req http s rule iter env, OF assms] by auto
next
  assume r: ?r
  then have "extract_fields http (iter (gr_TctxMapping rule)) [(''purpose'', JStr (gr_Purpose rule))] = Inr (rule_context http rule)"
    using rule_context_order [OF assms(4,3), of http] by (auto simp: extract_fields_Inr_iff)
  with r show ?l using assms(1,2) by (auto simp: generation_Check_def generation_exchange_def Let_def)
qed

subsubsection \<open>Paths\<close>








text \<open>The first match of a list is independent of its order exactly when no two different elements match.\<close>

lemma find_order_irrelevant_iff:
  "(\<forall>ys. mset ys = mset xs \<longrightarrow> find P ys = find P xs) \<longleftrightarrow> (\<forall>x\<in>set xs. \<forall>y\<in>set xs. P x \<and> P y \<longrightarrow> x = y)" (is "?l \<longleftrightarrow> ?r")
proof
  assume l: ?l
  have "find P xs = Some x" if x: "x \<in> set xs" "P x" for x
  proof -
    have "mset (x # remove1 x xs) = mset xs" using x(1) by simp
    then have "find P (x # remove1 x xs) = find P xs" using l by blast
    then show ?thesis using x(2) by simp
  qed
  then show ?r by (metis option.inject)
next
  assume r: ?r
  show ?l
  proof (intro allI impI)
    fix ys assume ys: "mset ys = mset xs"
    show "find P ys = find P xs"
    proof (cases "find P xs")
      case None
      then have "find P ys = None" using mset_eq_imp_set_eq [OF ys] by (simp add: find_None_iff)
      then show ?thesis using None by simp
    next
      case (Some x)
      from find_Some_split [OF this] have x: "P x" "x \<in> set ys" using mset_eq_imp_set_eq [OF ys] by auto
      then obtain y where y: "find P ys = Some y" by (cases "find P ys") (auto simp: find_None_iff)
      from find_Some_split [OF this] x r mset_eq_imp_set_eq [OF ys] Some y show ?thesis by auto
    qed
  qed
qed

text \<open>What a served request for a new token returns.\<close>

lemma Exchange_issuance:
  assumes ok: "Exchange url_Parse (served_by fmt tenv h) client req = Inr tok"
    and req: "subject_token_type req \<noteq> SubjectTokenTypeTxnToken" "er_SubjectToken req \<noteq> []" "er_Scope req \<noteq> []"
    and url: "url_Parse (cl_endpoint client @ ''/token_endpoint'') = Inr (path, [])"
    and toks: "\<forall>cl t. issues tenv h cl t \<longrightarrow> t \<noteq> [] \<and> utf8_valid t"
  shows "\<exists>x info auths. length (Values_Encode (exchange_form req)) \<le> maxFormSize \<and> parseRequest (exchange_form req) = Inr x \<and>
     router_Authenticate oidc_Matches (oidc_Authenticate (te_Parse tenv) (te_Get tenv) (te_now tenv))
       (er_SubjectToken req) (h_router h) = (Some (Inr info), auths) \<and>
     EvaluateIssuanceRules (loadIssuanceRules h) (issuance_context (exchange_request (path, []) req) x info) = None \<and>
     issues tenv h (new_claims h (exchange_request (path, []) req) x info) tok"
proof -
  let ?r = "exchange_request (path, []) req"
  obtain h' cl0 where served: "ServeHTTP tenv h ?r = (Some (token_response tok), h')" and cl0: "issues tenv h cl0 tok"
    using ok Exchange_served_iff [of req url_Parse client "(path, [])" tenv h fmt tok, OF req(2,3) url toks] by (metis prod.collapse)
  have status: "rs_Status (token_response tok) = StatusOK" by (simp add: token_response_def)
  have form: "f = exchange_form req \<and> length (Values_Encode (exchange_form req)) \<le> maxFormSize \<and>
      xr_SubjectTokenType x = subject_token_type req \<and> xr_SubjectToken x = er_SubjectToken req"
    if "ParseForm ?r = Inr f" "parseRequest f = Inr x" for f x
    using that by (auto simp: ParseForm_exchange parseRequest_Ok_iff exchange_form_get)
  from served status show ?thesis
  proof (cases rule: ServeHTTP_OK_cases)
    case (1 f x)
    then show ?thesis using form [OF 1(2,3)] req(1) by simp
  next
    case (2 f x)
    then obtain info auths tok' where *: "router_Authenticate oidc_Matches
          (oidc_Authenticate (te_Parse tenv) (te_Get tenv) (te_now tenv)) (xr_SubjectToken x) (h_router h) = (Some (Inr info), auths)"
        "EvaluateIssuanceRules (loadIssuanceRules h) (issuance_context ?r x info) = None"
        "issues tenv h (new_claims h ?r x info) tok'" "token_response tok = token_response tok'"
      using handle_issuance_OK_iff [of tenv h ?r x "token_response tok" h'] status by auto
    from *(3,4) have "tok' = tok" using toks cl0 token_response_inject [of tok tok'] by blast
    with * form [OF 2(2,3)] 2(3) show ?thesis by auto
  qed
qed

lemma Exchange_nonempty: "Exchange url_Parse Do c req = Inr tok \<Longrightarrow> tok \<noteq> [] \<and> er_SubjectToken req \<noteq> [] \<and> er_Scope req \<noteq> []"
  by (auto simp: Exchange_def Let_def exchange_result_def bindr_Ok_iff split: if_splits sum.splits)

text \<open>A bearer token is passed on as an access token; everything else is resolved to a workload.\<close>

lemma subject_of_cases:
  assumes "subject_of s req a = Inr (subj, ty)"
  obtains (bearer) "a = ''Bearer '' @ subj" "ty = SubjectTokenTypeAccessToken"
  | (workload) wid where "\<not> HasPrefix a ''Bearer ''" "subj = wi_Subject wid" "ty = kubernetes_sa_type"
      "Resolve (gs_identityResolver s) (case cq_Source req of Some src \<Rightarrow> peer_Principal src | None \<Rightarrow> []) (extractSourceAddress req) = Inr wid"
proof (cases "a \<noteq> [] \<and> HasPrefix a ''Bearer ''")
  case True
  then obtain r where "a = ''Bearer '' @ r" unfolding HasPrefix_iff by blast
  moreover have "TrimPrefix (''Bearer '' @ r) ''Bearer '' = r" by (rule TrimPrefix_append)
  ultimately show ?thesis using assms True by (intro bearer) (auto simp: subject_of_def)
next
  case False
  moreover have "\<not> HasPrefix [] ''Bearer ''" by (simp add: HasPrefix_def)
  ultimately have "\<not> HasPrefix a ''Bearer ''" by auto
  with False show ?thesis using assms workload by (auto simp: subject_of_def Let_def bindr_Ok_iff)
qed

subsection \<open>Properties\<close>

text \<open>
  C4. Generation, with ext-auth server, client library and token service together: a token that the generation server adds
  to a request with a bearer token was issued by the token service, which authenticated the bearer token; it is for the
  authenticated subject, has the scope of the first matching rule, and its transaction context is the purpose of the rule
  with every mapped field that the request has, all required ones among them, in whatever order the mapping is traversed.
\<close>

theorem injected_token_carries_context:
  assumes "cq_Http req = Some http" "findMatchingRule s (hr_Path http) (hr_Method http) = Some rule"
    and "mset (iter (gr_TctxMapping rule)) = mset (gr_TctxMapping rule)" "distinct (map fst (gr_TctxMapping rule))"
    and "getHeader (hr_Headers http) ''Authorization'' = ''Bearer '' @ bearer"
    and "xe_Do env = served_by fmt tenv h" "xe_url_Parse env (cl_endpoint (gs_ttsClient s) @ ''/token_endpoint'') = Inr (path, [])"
    and "\<forall>cl t. issues tenv h cl t \<longrightarrow> t \<noteq> [] \<and> utf8_valid t"
    and "context_clean (Some (rule_context http rule))"
      "context_clean (Some (request_context req (getHeader (hr_Headers http) ''Authorization'')))"
    and "generation_Check iter env req s = allowedWithHeaders [(HeaderName, tok)]"
  shows "\<exists>info auths cl.
     router_Authenticate oidc_Matches (oidc_Authenticate (te_Parse tenv) (te_Get tenv) (te_now tenv)) bearer (h_router h) =
       (Some (Inr info), auths) \<and>
     issues tenv h cl tok \<and> Subject cl = si_Subject info \<and> Scope cl = gr_Scope rule \<and>
     (\<forall>(f, m)\<in>set (gr_TctxMapping rule). fm_Required m \<longrightarrow> field_value http m \<noteq> []) \<and>
     TransactionContext cl = Some (rule_context http rule) \<and>
     RequesterContext cl = Some (request_context req (getHeader (hr_Headers http) ''Authorization''))"
proof -
  let ?a = "getHeader (hr_Headers http) ''Authorization''"
  obtain subj ty where subj: "subject_of s req ?a = Inr (subj, ty)" and fp: "fields_present http (gr_TctxMapping rule)"
    and ex: "Exchange (xe_url_Parse env) (served_by fmt tenv h) (gs_ttsClient s) (generation_exchange req http rule subj ty) = Inr tok"
    using generation_Check_token_iff [of req http s rule iter env tok, OF assms(1-4)] assms(6,11) by auto
  from subj assms(5) have s: "subj = bearer" "ty = SubjectTokenTypeAccessToken"
    by (auto elim: subject_of_cases simp: HasPrefix_def)
  let ?x = "generation_exchange req http rule bearer SubjectTokenTypeAccessToken"
  have x: "er_SubjectToken ?x = bearer" "er_Scope ?x = gr_Scope rule" "er_RequestDetails ?x = Some (rule_context http rule)"
    "er_RequestContext ?x = Some (request_context req ?a)" "subject_token_type ?x \<noteq> SubjectTokenTypeTxnToken"
    by (simp_all add: generation_exchange_def subject_token_type_def SubjectTokenTypeAccessToken_def SubjectTokenTypeTxnToken_def)
  have ne: "er_SubjectToken ?x \<noteq> []" "er_Scope ?x \<noteq> []" using Exchange_nonempty [OF ex [unfolded s]] by auto
  obtain y info auths where y: "length (Values_Encode (exchange_form ?x)) \<le> maxFormSize" "parseRequest (exchange_form ?x) = Inr y"
      "router_Authenticate oidc_Matches (oidc_Authenticate (te_Parse tenv) (te_Get tenv) (te_now tenv)) bearer (h_router h) = (Some (Inr info), auths)"
      "issues tenv h (new_claims h (exchange_request (path, []) ?x) y info) tok"
    using Exchange_issuance [OF ex [unfolded s] x(5) ne assms(7,8)] x(1) by auto
  have "xr_Scope y = gr_Scope rule \<and> xr_RequestDetails y = Some (rule_context http rule) \<and> xr_RequestContext y = Some (request_context req ?a)"
    using exchange_form_received [OF ne _ _ y(1), of path] assms(9,10) y(2) by (auto simp: x ParseForm_exchange)
  then show ?thesis
    using y(3,4) fp by (intro exI [of _ info] exI [of _ auths] exI [of _ "new_claims h (exchange_request (path, []) ?x) y info"])
      (simp add: new_claims_def fields_present_def)
qed

text \<open>
  C11. A request that matches a generation rule goes on only with a token: the answer is a denial, or it allows the
  request and sets the token header to a token obtained from the token service.
\<close>

theorem matched_request_gets_token:
  assumes "cq_Http req = Some http" "findMatchingRule s (hr_Path http) (hr_Method http) = Some rule"
    and "mset (iter (gr_TctxMapping rule)) = mset (gr_TctxMapping rule)" "distinct (map fst (gr_TctxMapping rule))"
    and "allows (generation_Check iter env req s)"
  shows "\<exists>subj ty tok. tok \<noteq> [] \<and> generation_Check iter env req s = allowedWithHeaders [(HeaderName, tok)] \<and>
     subject_of s req (getHeader (hr_Headers http) ''Authorization'') = Inr (subj, ty) \<and>
     Exchange (xe_url_Parse env) (xe_Do env) (gs_ttsClient s) (generation_exchange req http rule subj ty) = Inr tok"
  using generation_Check_matched [of req http s rule iter env, OF assms(1-4)] assms(5) Exchange_nonempty by fastforce



text \<open>
  C37. The first matching rule decides, so the order in which the rule client hands the rules over, which is that of a Go
  map, matters exactly when two different rules match the request.
\<close>

theorem rule_choice_order:
  "(\<forall>rules'. mset rules' = mset rules \<longrightarrow>
      findMatchingRule (SetGenerationRules rules' s) path method = findMatchingRule (SetGenerationRules rules s) path method) \<longleftrightarrow>
   (\<forall>r\<in>set rules. \<forall>r'\<in>set rules.
      EqualFold (ep_Method (gr_Endpoint r)) method \<and> matchEndpointPath path (ep_Path (gr_Endpoint r)) \<and>
      EqualFold (ep_Method (gr_Endpoint r')) method \<and> matchEndpointPath path (ep_Path (gr_Endpoint r')) \<longrightarrow> r = r')"
proof -
  let ?P = "\<lambda>r. EqualFold (ep_Method (gr_Endpoint r)) method \<and> matchEndpointPath path (ep_Path (gr_Endpoint r))"
  have "strip_query (strip_query path) = strip_query path" by (simp add: strip_query_eq takeWhile_idem)
  then have f: "findMatchingRule (SetGenerationRules rs s) path method = find ?P rs" for rs
    by (simp add: findMatchingRule_def SetGenerationRules_def matchEndpointPath_def)
  show ?thesis unfolding f find_order_irrelevant_iff by blast
qed



text \<open>
  The requester context labels every request with an Authorization header as authenticated by OIDC, also when the
  header is not a bearer token and the subject is therefore the workload that the request came from.
\<close>

theorem authn_label:
  assumes "subject_of s req authHeader = Inr (subj, ty)" "authHeader \<noteq> []" "\<not> HasPrefix authHeader ''Bearer ''"
  shows "ty = kubernetes_sa_type \<and> map_of (request_context req authHeader) ''authn'' = Some (JStr ''oidc'')"
  using assms by (auto elim: subject_of_cases simp: HasPrefix_def request_context_def Let_def)

subsection \<open>A concrete entry point\<close>

definition demo_genv :: extauth_env where
  "demo_genv = demo_xenv\<lparr>xe_Do := served_by (\<lambda>_. []) demo_issue_env demo_issuer\<rparr>"

definition demo_grule :: "string \<Rightarrow> GenerationRule" where
  "demo_grule name = \<lparr>gr_Namespace = ''shop'', gr_Name = name, gr_Endpoint = \<lparr>ep_Path = ''/ds/{id}'', ep_Method = ''POST''\<rparr>,
     gr_Purpose = ''audit'', gr_Scope = ''read'',
     gr_TctxMapping = [(''region'', \<lparr>fm_Source = ''header'', fm_Field = ''X-Region'', fm_Required = True\<rparr>)],
     gr_TctxEnrichments = [], gr_RctxFields = [], gr_TokenLifetime = []\<rparr>"

definition demo_generator :: "GenerationRule list \<Rightarrow> GenerationServer" where
  "demo_generator rules =
     SetGenerationRules rules (NewGenerationServer (NewClient ''http://tts/'') NewIdentityResolver)"

definition demo_entry_http :: "string \<Rightarrow> HttpRequest" where
  "demo_entry_http authz = \<lparr>hr_Path = ''/ds/42?v=1'', hr_Method = ''POST'',
     hr_Headers = [(''authorization'', authz), (''x-region'', ''eu'')], hr_Body = []\<rparr>"

definition demo_entry_check :: "string \<Rightarrow> string \<Rightarrow> CheckRequest" where
  "demo_entry_check authz princ =
     \<lparr>cq_Http = Some (demo_entry_http authz), cq_Source = Some \<lparr>peer_Principal = princ, peer_Address = None\<rparr>\<rparr>"

lemma demo_entry_fields:
  "cq_Http (demo_entry_check a p) = Some (demo_entry_http a)"
  "cq_Source (demo_entry_check a p) = Some \<lparr>peer_Principal = p, peer_Address = None\<rparr>"
  "gs_ttsClient (demo_generator rs) = NewClient ''http://tts/''" "gs_identityResolver (demo_generator rs) = NewIdentityResolver"
  by (simp_all add: demo_entry_check_def demo_generator_def SetGenerationRules_def NewGenerationServer_def)

lemma demo_matches: "matchEndpointPath ''/ds/42'' ''/ds/{id}''" "strip_query ''/ds/42?v=1'' = ''/ds/42''"
  by code_simp+

lemma demo_rule_found:
  "findMatchingRule (demo_generator (demo_grule n # rs)) (hr_Path (demo_entry_http a)) (hr_Method (demo_entry_http a)) = Some (demo_grule n)"
  by (simp add: findMatchingRule_def demo_generator_def SetGenerationRules_def demo_entry_http_def demo_grule_def demo_matches)

lemma demo_lower: "ToLower ''Authorization'' = ''authorization''" "ToLower ''X-Region'' = ''x-region''" "ToLower ''x-region'' = ''x-region''"
  by code_simp+

lemma demo_authorization: "getHeader (hr_Headers (demo_entry_http a)) ''Authorization'' = a"
  by (simp add: getHeader_def demo_entry_http_def demo_lower)

lemma demo_mapping:
  "gr_TctxMapping (demo_grule n) = [(''region'', \<lparr>fm_Source = ''header'', fm_Field = ''X-Region'', fm_Required = True\<rparr>)]"
  "distinct (map fst (gr_TctxMapping (demo_grule n)))" "gr_Scope (demo_grule n) = ''read''"
  by (simp_all add: demo_grule_def)

lemma demo_region: "field_value (demo_entry_http a) \<lparr>fm_Source = ''header'', fm_Field = ''X-Region'', fm_Required = True\<rparr> = ''eu''"
  by (simp add: field_value_def extractTctxField_def demo_entry_http_def getHeader_def demo_lower)

lemma demo_contexts:
  "rule_context (demo_entry_http a) (demo_grule n) = [(''purpose'', JStr ''audit''), (''region'', JStr ''eu'')]"
  "b \<noteq> [] \<Longrightarrow> request_context (demo_entry_check a p) b = [(''authn'', JStr ''oidc'')]"
proof -
  have "mput ''region'' (JStr ''eu'') [(''purpose'', JStr ''audit'')] = [(''purpose'', JStr ''audit''), (''region'', JStr ''eu'')]"
    by code_simp
  then show "rule_context (demo_entry_http a) (demo_grule n) = [(''purpose'', JStr ''audit''), (''region'', JStr ''eu'')]"
    by (simp add: rule_context_def demo_mapping demo_region) (simp add: demo_grule_def)
qed (simp add: request_context_def extractSourceAddress_def demo_entry_fields)

lemma demo_contexts_clean:
  "context_clean (Some (rule_context (demo_entry_http a) (demo_grule n)))"
  "b \<noteq> [] \<Longrightarrow> context_clean (Some (request_context (demo_entry_check a p) b))"
proof -
  have "utf8_valid ''purpose''" "utf8_valid ''audit''" "utf8_valid ''region''" "utf8_valid ''eu''" "utf8_valid ''authn''" "utf8_valid ''oidc''"
    by (rule ascii_utf8_valid, simp add: code_def)+
  moreover have "''purpose'' < ''region''" by code_simp
  ultimately show "context_clean (Some (rule_context (demo_entry_http a) (demo_grule n)))"
    "b \<noteq> [] \<Longrightarrow> context_clean (Some (request_context (demo_entry_check a p) b))"
    by (simp_all add: demo_contexts context_clean_def mwf_Cons)
qed

lemma demo_issuer_text: "issues demo_issue_env demo_issuer cl t \<Longrightarrow> t \<noteq> [] \<and> utf8_valid t"
  using ref_sign_ascii by (auto simp: issues_def token_New_Ok_iff demo_issue_env_def demo_env_def)

lemma demo_genv_fields:
  "xe_Do demo_genv = served_by (\<lambda>_. []) demo_issue_env demo_issuer" "xe_url_Parse demo_genv url = Inr (''/token_endpoint'', [])"
  by (simp_all add: demo_genv_def demo_xenv_def)

definition demo_bearer :: string where
  "demo_bearer = ''Bearer '' @ demo_subject"

lemma demo_subject_of: "subject_of s req demo_bearer = Inr (demo_subject, SubjectTokenTypeAccessToken)"
proof -
  have "TrimPrefix (''Bearer '' @ demo_subject) ''Bearer '' = demo_subject" by (rule TrimPrefix_append)
  moreover have "HasPrefix (''Bearer '' @ demo_subject) ''Bearer ''" by (rule HasPrefix_append)
  ultimately show ?thesis by (simp add: subject_of_def demo_bearer_def)
qed

lemma demo_bearer_nonempty: "demo_bearer \<noteq> []"
  by (simp add: demo_bearer_def)

lemma demo_injected:
  "\<exists>tok. generation_Check id demo_genv (demo_entry_check demo_bearer []) (demo_generator [demo_grule ''r'']) =
     allowedWithHeaders [(HeaderName, tok)]"
proof -
  let ?a = demo_bearer
  let ?x = "generation_exchange (demo_entry_check ?a []) (demo_entry_http ?a) (demo_grule ''r'') demo_subject SubjectTokenTypeAccessToken"
  have x: "?x = \<lparr>er_SubjectToken = demo_subject, er_SubjectTokenType = SubjectTokenTypeAccessToken, er_Scope = ''read'',
      er_RequestDetails = Some [(''purpose'', JStr ''audit''), (''region'', JStr ''eu'')],
      er_RequestContext = Some [(''authn'', JStr ''oidc'')]\<rparr>"
    by (simp add: generation_exchange_def demo_contexts demo_authorization demo_mapping demo_bearer_nonempty)
  have ne: "er_SubjectToken ?x \<noteq> []" "er_Scope ?x \<noteq> []" unfolding x by (simp_all add: demo_subject_def)
  have xf: "er_SubjectToken ?x = demo_subject" "subject_token_type ?x = SubjectTokenTypeAccessToken" "er_Scope ?x = ''read''"
    unfolding x by (simp_all add: subject_token_type_def SubjectTokenTypeAccessToken_def)
  have "length (Values_Encode (exchange_form ?x)) \<le> 1000" unfolding x by code_simp
  then have len: "length (Values_Encode (exchange_form ?x)) \<le> maxFormSize" by (simp add: maxFormSize_def)
  have clean: "context_clean (er_RequestDetails ?x)" "context_clean (er_RequestContext ?x)"
    using demo_contexts_clean demo_bearer_nonempty by (simp_all add: generation_exchange_def demo_authorization)
  obtain form y where f: "ParseForm (exchange_request (''/token_endpoint'', []) ?x) = Inr form" "parseRequest form = Inr y"
    "xr_SubjectToken y = demo_subject" "xr_SubjectTokenType y = SubjectTokenTypeAccessToken" "xr_Scope y = ''read''"
    using exchange_form_received [OF ne clean len, of "''/token_endpoint''", unfolded xf]
    by (elim exE conjE, intro that) (assumption | simp)+
  have "rq_Method (exchange_request (''/token_endpoint'', []) ?x) = ''POST''" by (simp add: exchange_request_def)
  from demo_issuer_serves [OF this f(1,2,3)] f(4,5) obtain tok cl where
    "ServeHTTP demo_issue_env demo_issuer (exchange_request (''/token_endpoint'', []) ?x) = (Some (token_response tok), demo_issuer)"
    "issues demo_issue_env demo_issuer cl tok"
    by (auto simp: SubjectTokenTypeAccessToken_def SubjectTokenTypeTxnToken_def)
  then have "Exchange (xe_url_Parse demo_genv) (xe_Do demo_genv) (NewClient ''http://tts/'') ?x = Inr tok"
    using Exchange_served_iff [of ?x "xe_url_Parse demo_genv" "NewClient ''http://tts/''" "(''/token_endpoint'', [])" demo_issue_env demo_issuer "\<lambda>_. []" tok,
        OF ne demo_genv_fields(2)] demo_issuer_text
    unfolding demo_genv_fields(1) by auto
  then show ?thesis
    using generation_Check_token_iff [of "demo_entry_check ?a []" "demo_entry_http ?a" "demo_generator [demo_grule ''r'']" "demo_grule ''r''" id demo_genv tok,
        OF demo_entry_fields(1) demo_rule_found _ demo_mapping(2)]
    by (intro exI [of _ tok]) (simp add: demo_authorization demo_subject_of demo_entry_fields demo_mapping(1) demo_region)
qed

theorem injected_token_carries_context_witness:
  "\<exists>tok cl. generation_Check id demo_genv (demo_entry_check demo_bearer []) (demo_generator [demo_grule ''r'']) =
       allowedWithHeaders [(HeaderName, tok)] \<and> issues demo_issue_env demo_issuer cl tok \<and> Scope cl = ''read'' \<and>
     TransactionContext cl = Some [(''purpose'', JStr ''audit''), (''region'', JStr ''eu'')]"
proof -
  let ?a = demo_bearer
  obtain tok where tok: "generation_Check id demo_genv (demo_entry_check ?a []) (demo_generator [demo_grule ''r'']) = allowedWithHeaders [(HeaderName, tok)]"
    using demo_injected by blast
  have "\<forall>cl t. issues demo_issue_env demo_issuer cl t \<longrightarrow> t \<noteq> [] \<and> utf8_valid t" using demo_issuer_text by blast
  moreover have "context_clean (Some (request_context (demo_entry_check ?a []) (getHeader (hr_Headers (demo_entry_http ?a)) ''Authorization'')))"
    using demo_contexts_clean(2) demo_bearer_nonempty by (simp add: demo_authorization)
  moreover have auth: "getHeader (hr_Headers (demo_entry_http ?a)) ''Authorization'' = ''Bearer '' @ demo_subject"
    unfolding demo_authorization by (rule demo_bearer_def)
  ultimately show ?thesis
    using injected_token_carries_context [of "demo_entry_check ?a []" "demo_entry_http ?a" "demo_generator [demo_grule ''r'']" "demo_grule ''r''" id
        demo_subject demo_genv "\<lambda>_. []" demo_issue_env demo_issuer "''/token_endpoint''" tok,
        OF demo_entry_fields(1) demo_rule_found _ demo_mapping(2) auth demo_genv_fields(1) demo_genv_fields(2) _
        demo_contexts_clean(1) _ tok] tok
    by (auto simp: demo_contexts demo_mapping(3))
qed

theorem matched_request_gets_token_witness:
  "\<exists>tok. tok \<noteq> [] \<and> generation_Check id demo_genv (demo_entry_check demo_bearer []) (demo_generator [demo_grule ''r'']) =
     allowedWithHeaders [(HeaderName, tok)]"
proof -
  let ?a = demo_bearer
  have "allows (generation_Check id demo_genv (demo_entry_check ?a []) (demo_generator [demo_grule ''r'']))" using demo_injected by auto
  then show ?thesis
    using matched_request_gets_token [of "demo_entry_check ?a []" "demo_entry_http ?a" "demo_generator [demo_grule ''r'']" "demo_grule ''r''" id demo_genv,
        OF demo_entry_fields(1) demo_rule_found _ demo_mapping(2)] by auto
qed

lemma demo_resolved:
  "Resolve NewIdentityResolver ''spiffe://td/ns/prod/sa/web'' [] = Inr (workload_identity ''prod'' ''web'')"
  using ResolveFromPrincipal_uri [of "''td''" "[''ns'', ''prod'', ''sa'', ''web'']"] by (simp add: spiffe_uri_def Resolve_def)

lemma demo_source:
  "extractSourceAddress (demo_entry_check a p) = []"
  by (simp add: extractSourceAddress_def demo_entry_fields)


theorem rule_choice_order_witness:
  "\<exists>rules'. mset rules' = mset [demo_grule ''a'', demo_grule ''b''] \<and>
     findMatchingRule (SetGenerationRules rules' (demo_generator [])) ''/ds/42'' ''POST'' \<noteq>
     findMatchingRule (SetGenerationRules [demo_grule ''a'', demo_grule ''b''] (demo_generator [])) ''/ds/42'' ''POST''"
proof -
  have "demo_grule ''a'' \<noteq> demo_grule ''b''" by (simp add: demo_grule_def)
  moreover have "ep_Method (gr_Endpoint (demo_grule n)) = ''POST''" "ep_Path (gr_Endpoint (demo_grule n)) = ''/ds/{id}''" for n
    by (simp_all add: demo_grule_def)
  ultimately show ?thesis
    using rule_choice_order [of "[demo_grule ''a'', demo_grule ''b'']" "demo_generator []" "''/ds/42''" "''POST''"] demo_matches(1) by auto
qed

theorem authn_label_witness:
  "subject_of (demo_generator []) (demo_entry_check ''Basic x'' ''spiffe://td/ns/prod/sa/web'') ''Basic x'' =
     Inr (''system:serviceaccount:prod:web'', kubernetes_sa_type) \<and>
   map_of (request_context (demo_entry_check ''Basic x'' ''spiffe://td/ns/prod/sa/web'') ''Basic x'') ''authn'' = Some (JStr ''oidc'')"
proof -
  have h: "\<not> HasPrefix ''Basic x'' ''Bearer ''" by (simp add: HasPrefix_def)
  have "subject_of (demo_generator []) (demo_entry_check ''Basic x'' ''spiffe://td/ns/prod/sa/web'') ''Basic x'' =
      Inr (''system:serviceaccount:prod:web'', kubernetes_sa_type)"
    by (simp add: subject_of_def h demo_entry_fields demo_source demo_resolved Let_def workload_identity_def)
  from this authn_label [OF this _ h] show ?thesis by simp
qed

end
