(* ===== verification/Programs.thy ===== *)
theory Programs
  imports Generate
begin

text \<open>
  The programs (\<open>cmd/extauth/main.go\<close>, \<open>cmd/tts/main.go\<close>, \<open>cmd/controller/main.go\<close>): how the components are wired
  together at start-up, what ends a program before it serves, and what a running program does with the messages of the rule
  server and with requests to its health endpoints.

  Flags are records with the values that matter to the wiring, and the outcomes of opening listeners, reading files and setting
  up controllers are arguments. Listening addresses, dialing, logging, signals and shutdown are not modelled.
\<close>

datatype 'p outcome = Exit nat | Fatal error | Running 'p

subsection \<open>The ext-auth adapter\<close>

record extauth_flags =
  ef_version :: bool
  ef_tts :: string
  ef_jwks :: string
  ef_trustDomain :: string
  ef_mode :: string

datatype adapter = VerificationAdapter ExtAuthServer | GenerationAdapter GenerationServer

text \<open>The rule client's setters act on the server of the mode.\<close>

fun set_verification :: "cel_NewEnv \<Rightarrow> VerificationRule list \<Rightarrow> adapter \<Rightarrow> adapter" where
  "set_verification NewEnv rules (VerificationAdapter s) = VerificationAdapter (SetVerificationRules NewEnv rules s)"
| "set_verification NewEnv rules (GenerationAdapter g) = GenerationAdapter g"

fun set_generation :: "GenerationRule list \<Rightarrow> adapter \<Rightarrow> adapter" where
  "set_generation rules (VerificationAdapter s) = VerificationAdapter s"
| "set_generation rules (GenerationAdapter g) = GenerationAdapter (SetGenerationRules rules g)"

text \<open>
  A turn of a stream's loop installs the rules and then records that it has. Several goroutines may be in a turn, since
  one can outlive its connection: \<open>xp_installed\<close> and \<open>xp_marked\<close> count, for each stream, the turns that have executed the
  first statement and the second.
\<close>

datatype rule_stream = GenerationStream | VerificationStream

record extauth_process =
  xp_adapter :: adapter
  xp_client :: "adapter RuleClient"
  xp_installed :: "rule_stream \<Rightarrow> nat"
  xp_marked :: "rule_stream \<Rightarrow> nat"

definition extauth_main :: "cel_NewEnv \<Rightarrow> extauth_flags \<Rightarrow> error option \<Rightarrow> extauth_process outcome" where
  "extauth_main NewEnv flags listen =
     (if ef_version flags then Exit 0
      else
        (case listen of
           Some err \<Rightarrow> Fatal (Wrapf ''Failed to listen: %v'' [] err)
         | None \<Rightarrow>
             (let rc = NewRuleClient
              in if ef_mode flags = ''verify'' then
                   (let verifier = verify_New (ef_jwks flags) (ef_trustDomain flags)
                    in Running \<lparr>xp_adapter = VerificationAdapter (extauth_NewServer verifier),
                                xp_client = SetVerificationSetter (set_verification NewEnv) rc,
                                xp_installed = (\<lambda>_. 0), xp_marked = (\<lambda>_. 0)\<rparr>)
                 else if ef_mode flags = ''generate'' then
                   (let ttsClient = NewClient (ef_tts flags)
                    in Running \<lparr>xp_adapter = GenerationAdapter (NewGenerationServer ttsClient NewIdentityResolver),
                                xp_client = SetGenerationSetter set_generation rc,
                                xp_installed = (\<lambda>_. 0), xp_marked = (\<lambda>_. 0)\<rparr>)
                 else Fatal (Errorf ''Unknown mode: %s (use 'verify' or 'generate')'' [ef_mode flags]))))"

definition adapter_Check ::
    "((string \<times> TctxFieldMapping) list \<Rightarrow> (string \<times> TctxFieldMapping) list) \<Rightarrow> extauth_env \<Rightarrow> CheckRequest \<Rightarrow> adapter \<Rightarrow>
       CheckResponse \<times> adapter" where
  "adapter_Check iter env req a =
     (case a of
        VerificationAdapter s \<Rightarrow> (let (resp, s') = extauth_Check env req s in (resp, VerificationAdapter s'))
      | GenerationAdapter g \<Rightarrow> (generation_Check iter env req g, GenerationAdapter g))"

datatype probe = ProbeHealthz | ProbeReadyz

definition extauth_health :: "extauth_process \<Rightarrow> request \<Rightarrow> response" where
  "extauth_health p r =
     (case mux_route [([], ''/healthz'', ProbeHealthz), ([], ''/readyz'', ProbeReadyz)] r of
        Routed ProbeHealthz \<Rightarrow> plain_ok []
      | Routed ProbeReadyz \<Rightarrow>
          if \<not> RuleClient_Ready (xp_client p)
            then http_Error (Errorf ''rules not yet synced'' []) StatusServiceUnavailable
          else plain_ok []
      | Redirect path \<Rightarrow> \<lparr>rs_Status = StatusMovedPermanently, rs_Header = [(''Location'', [path])], rs_Body = Bytes []\<rparr>
      | NotAllowed \<Rightarrow> http_Error (LibError ''Method Not Allowed'') StatusMethodNotAllowed
      | NotFound \<Rightarrow> http_Error (LibError ''404 page not found'') StatusNotFound)"

text \<open>
  What happens to a running adapter: a goroutine of a stream handles a message, with whatever rules it holds, and installs
  the rules; it records that it has; or Envoy asks about a request.
\<close>

inductive extauth_step :: "extauth_process \<Rightarrow> extauth_process \<Rightarrow> bool" where
  verification_install: "install_verification iter resp (xp_client p, m, xp_adapter p) = Some (m', a) \<Longrightarrow>
    extauth_step p (p\<lparr>xp_adapter := a,
      xp_installed := (xp_installed p)(VerificationStream := Suc (xp_installed p VerificationStream))\<rparr>)"
| verification_mark: "xp_marked p VerificationStream < xp_installed p VerificationStream \<Longrightarrow>
    extauth_step p (p\<lparr>xp_client := mark_verification (xp_client p),
      xp_marked := (xp_marked p)(VerificationStream := Suc (xp_marked p VerificationStream))\<rparr>)"
| generation_install: "install_generation iter' resp' (xp_client p, n, xp_adapter p) = Some (n', a) \<Longrightarrow>
    extauth_step p (p\<lparr>xp_adapter := a,
      xp_installed := (xp_installed p)(GenerationStream := Suc (xp_installed p GenerationStream))\<rparr>)"
| generation_mark: "xp_marked p GenerationStream < xp_installed p GenerationStream \<Longrightarrow>
    extauth_step p (p\<lparr>xp_client := mark_generation (xp_client p),
      xp_marked := (xp_marked p)(GenerationStream := Suc (xp_marked p GenerationStream))\<rparr>)"
| check_request: "adapter_Check iter'' env req (xp_adapter p) = (resp'', a) \<Longrightarrow> extauth_step p (p\<lparr>xp_adapter := a\<rparr>)"

inductive_cases extauth_stepE: "extauth_step p p'"

subsection \<open>The token service\<close>

record tts_flags =
  tf_version :: bool
  tf_config :: string
  tf_controllerAddr :: string

type_synonym issuance_client = "Handler option TtsRuleClient"

text \<open>\<open>tp_marking\<close>: the goroutine of the rule client has installed rules and is about to record it.\<close>

record tts_process =
  tp_server :: "issuance_client option Server"
  tp_client :: "issuance_client option"
  tp_marking :: bool

text \<open>The readiness check that is registered when rules are streamed; the rule client is not nil then.\<close>

definition rules_synced :: "issuance_client option \<Rightarrow> error option" where
  "rules_synced rc =
     (case rc of
        Some c \<Rightarrow> if \<not> TtsRuleClient_Ready c then Some (Errorf ''issuance rules not yet synced'' []) else None
      | None \<Rightarrow> None)"

definition tts_main ::
    "cel_NewEnv \<Rightarrow> (string \<Rightarrow> string res) \<Rightarrow> (string \<Rightarrow> Config res) \<Rightarrow> 'r key_generator \<Rightarrow> unit jwt_parse \<Rightarrow> tts_flags \<Rightarrow> 'r \<Rightarrow>
       tts_process outcome \<times> 'r" where
  "tts_main NewEnv ReadFile yaml_Unmarshal GenerateKey Parse flags rand =
     (if tf_version flags then (Exit 0, rand)
      else
        (case LoadConfig ReadFile yaml_Unmarshal (tf_config flags) of
           Inl err \<Rightarrow> (Fatal (Wrapf ''Failed to load config: %v'' [] err), rand)
         | Inr cfg \<Rightarrow>
             (case NewServer NewEnv GenerateKey Parse cfg rand of
                (Inl err, rand') \<Rightarrow> (Fatal (Wrapf ''Failed to create TTS server: %v'' [] err), rand')
              | (Inr server, rand') \<Rightarrow>
                  if tf_controllerAddr flags \<noteq> [] then
                    (Running \<lparr>tp_server = SetReadyCheck (Some rules_synced) server,
                              tp_client = Some (NewTtsRuleClient (HandlerSetter_SetIssuanceRules NewEnv)), tp_marking = False\<rparr>, rand')
                  else (Running \<lparr>tp_server = server, tp_client = None, tp_marking = False\<rparr>, rand'))))"

definition tts_serve :: "tts_env \<Rightarrow> request \<Rightarrow> tts_process \<Rightarrow> response option \<times> tts_process" where
  "tts_serve env r p =
     (let (resp, s) = server_Serve env (tp_client p) (tp_server p) r in (resp, p\<lparr>tp_server := s\<rparr>))"

text \<open>The rules of a message go to the handler the server serves with. There is one goroutine, which then records the success.\<close>

definition tts_install ::
    "(PublishedIssuanceRule list \<Rightarrow> PublishedIssuanceRule list) \<Rightarrow> pb_IssuanceRule stream_response \<Rightarrow>
       (string \<times> string \<times> string, PublishedIssuanceRule) rule_map \<Rightarrow> tts_process \<Rightarrow> tts_process" where
  "tts_install iter resp m p =
     (case tp_client p of
        None \<Rightarrow> p
      | Some c \<Rightarrow>
          (case install_issuance iter resp (c, m, Some (sv_handler (tp_server p))) of
             (err, _, ho) \<Rightarrow>
               p\<lparr>tp_server := (tp_server p)\<lparr>sv_handler := (case ho of Some h \<Rightarrow> h | None \<Rightarrow> sv_handler (tp_server p))\<rparr>,
                 tp_marking := (err = None)\<rparr>))"

definition tts_mark :: "tts_process \<Rightarrow> tts_process" where
  "tts_mark p = p\<lparr>tp_client := map_option mark_issuance (tp_client p), tp_marking := False\<rparr>"

inductive tts_step :: "tts_process \<Rightarrow> tts_process \<Rightarrow> bool" where
  issuance_install: "\<not> tp_marking p \<Longrightarrow> tts_step p (tts_install iter resp m p)"
| issuance_mark: "tp_marking p \<Longrightarrow> tts_step p (tts_mark p)"
| http_request: "tts_step p (snd (tts_serve env r p))"

inductive_cases tts_stepE: "tts_step p p'"

subsection \<open>The controller\<close>

record controller_process =
  cp_types :: "RuleServer TransactionTypeReconciler"
  cp_requirements :: "RuleServer ServiceTokenRequirementReconciler"
  cp_policies :: "RuleServer TokenPolicyReconciler"
  cp_rules :: RuleServer

text \<open>
  The reconcilers share one client of the cluster: an argument for each kind of object gives its answers, and
  \<open>policyLists\<close> what it answers the first reconciler, which lists the policies many times.
\<close>

definition controller_main ::
    "bool \<Rightarrow> error option \<Rightarrow> error option \<Rightarrow> error option \<Rightarrow> error option \<Rightarrow> error option \<Rightarrow>
       TransactionType kube \<Rightarrow> (nat \<Rightarrow> TokenPolicy list res) \<Rightarrow> ServiceTokenRequirement kube \<Rightarrow> TokenPolicy kube \<Rightarrow>
       controller_process outcome" where
  "controller_main showVersion mgr listen setupTypes setupRequirements setupPolicies types policyLists requirements policies =
     (if showVersion then Exit 0
      else if mgr \<noteq> None then Exit 1
      else
        (let rs = NewRuleServer
         in if listen \<noteq> None then Exit 1
            else if setupTypes \<noteq> None then Exit 1
            else if setupRequirements \<noteq> None then Exit 1
            else if setupPolicies \<noteq> None then Exit 1
            else Running
              \<lparr>cp_types = \<lparr>ttr_Client = types, ttr_policies = policyLists, ttr_RulePublisher = Some UpdateGenerationRules\<rparr>,
               cp_requirements = \<lparr>strr_Client = requirements, strr_RulePublisher = Some UpdateVerificationRules\<rparr>,
               cp_policies = \<lparr>tpr_Client = policies, tpr_IssuancePublisher = Some UpdateIssuanceRules\<rparr>,
               cp_rules = rs\<rparr>))"

subsection \<open>Lemmas: readiness\<close>

lemma readyz_route:
  "rq_Path r = ''/readyz'' \<Longrightarrow> mux_route [([], ''/healthz'', ProbeHealthz), ([], ''/readyz'', ProbeReadyz)] r = Routed ProbeReadyz"
  "rq_Path r = ''/readyz'' \<Longrightarrow> rq_Method r = ''GET'' \<Longrightarrow> mux_route server_routes r = Routed Readyz"
proof -
  have "cleanPath ''/readyz'' = ''/readyz''" by code_simp
  then show "rq_Path r = ''/readyz'' \<Longrightarrow> mux_route [([], ''/healthz'', ProbeHealthz), ([], ''/readyz'', ProbeReadyz)] r = Routed ProbeReadyz"
    "rq_Path r = ''/readyz'' \<Longrightarrow> rq_Method r = ''GET'' \<Longrightarrow> mux_route server_routes r = Routed Readyz"
    by (simp_all add: mux_route_def method_matches_def server_routes_def)
qed

text \<open>
  A running adapter: the setter of its mode is set, the other is not; what is recorded has been installed, the flag tells
  whether something is recorded, and before the first installation there are no rules.
\<close>

fun mode_stream :: "adapter \<Rightarrow> rule_stream" where
  "mode_stream (VerificationAdapter _) = VerificationStream"
| "mode_stream (GenerationAdapter _) = GenerationStream"

fun no_rules_yet :: "adapter \<Rightarrow> bool" where
  "no_rules_yet (VerificationAdapter s) = (ea_verificationRules s = None)"
| "no_rules_yet (GenerationAdapter g) = (gs_generationRules g = [])"

definition verifying :: "cel_NewEnv \<Rightarrow> extauth_process \<Rightarrow> ExtAuthServer \<Rightarrow> bool" where
  "verifying NewEnv p s \<longleftrightarrow>
     xp_adapter p = VerificationAdapter s \<and> rc_verSet (xp_client p) = Some (set_verification NewEnv) \<and>
     rc_genSet (xp_client p) = None \<and> (rc_verSynced (xp_client p) \<longleftrightarrow> 0 < xp_marked p VerificationStream) \<and>
     xp_marked p VerificationStream \<le> xp_installed p VerificationStream \<and>
     (ea_verificationRules s = None \<longleftrightarrow> xp_installed p VerificationStream = 0)"

definition generating :: "extauth_process \<Rightarrow> GenerationServer \<Rightarrow> bool" where
  "generating p g \<longleftrightarrow>
     xp_adapter p = GenerationAdapter g \<and> rc_genSet (xp_client p) = Some set_generation \<and>
     rc_verSet (xp_client p) = None \<and> (rc_genSynced (xp_client p) \<longleftrightarrow> 0 < xp_marked p GenerationStream) \<and>
     xp_marked p GenerationStream \<le> xp_installed p GenerationStream \<and>
     (xp_installed p GenerationStream = 0 \<longrightarrow> gs_generationRules g = [])"

lemma extauth_main_verifies:
  assumes "extauth_main NewEnv flags listen = Running p" "ef_mode flags = ''verify''"
  shows "verifying NewEnv p (extauth_NewServer (verify_New (ef_jwks flags) (ef_trustDomain flags)))"
  using assms
  by (auto simp: extauth_main_def verifying_def NewRuleClient_def SetVerificationSetter_def extauth_NewServer_def Let_def
      split: if_splits option.splits)

lemma extauth_main_generates:
  assumes "extauth_main NewEnv flags listen = Running p" "ef_mode flags \<noteq> ''verify''"
  shows "ef_mode flags = ''generate'' \<and> generating p (NewGenerationServer (NewClient (ef_tts flags)) NewIdentityResolver)"
  using assms
  by (auto simp: extauth_main_def generating_def NewRuleClient_def SetGenerationSetter_def NewGenerationServer_def Let_def
      split: if_splits option.splits)

lemma extauth_Check_rules: "ea_verificationRules (snd (extauth_Check env req s)) = ea_verificationRules s"
  by (auto simp: extauth_Check_def Let_def split: option.splits prod.splits sum.splits)

lemma verifying_step:
  assumes "verifying NewEnv p s" "extauth_step p p'"
  shows "\<exists>s'. verifying NewEnv p' s'"
  using assms(2)
proof cases
  case (check_request iter'' env req resp'' a)
  then have "a = VerificationAdapter (snd (extauth_Check env req s))" "p' = p\<lparr>xp_adapter := a\<rparr>"
    using assms(1) by (auto simp: verifying_def adapter_Check_def split: prod.splits)
  then show ?thesis using assms(1) by (auto simp: verifying_def extauth_Check_rules)
qed (use assms(1) in \<open>auto simp: verifying_def stream_defs SetVerificationRules_def Let_def\<close>)

lemma generating_step:
  assumes "generating p g" "extauth_step p p'"
  shows "\<exists>g'. generating p' g'"
  using assms(2)
proof cases
  case (check_request iter'' env req resp'' a)
  then show ?thesis using assms(1) by (auto simp: generating_def adapter_Check_def)
qed (use assms(1) in \<open>auto simp: generating_def stream_defs SetGenerationRules_def Let_def\<close>)

lemma verifying_reachable:
  assumes "extauth_step\<^sup>*\<^sup>* p p'" "verifying NewEnv p s"
  shows "\<exists>s'. verifying NewEnv p' s'"
  using assms by (induction rule: rtranclp_induct) (blast intro: verifying_step)+

lemma generating_reachable:
  assumes "extauth_step\<^sup>*\<^sup>* p p'" "generating p g"
  shows "\<exists>g'. generating p' g'"
  using assms by (induction rule: rtranclp_induct) (blast intro: generating_step)+

lemma readyz_status:
  assumes "rq_Path r = ''/readyz''"
  shows "rs_Status (extauth_health p r) = (if RuleClient_Ready (xp_client p) then StatusOK else StatusServiceUnavailable)"
  by (simp add: extauth_health_def readyz_route(1) [OF assms] http_Error_def plain_ok_def)

lemma verification_without_rules:
  assumes "ea_verificationRules s = None" "cq_Http req = Some http"
  shows "allows (fst (extauth_Check env req s)) \<longleftrightarrow> getHeader (hr_Headers http) HeaderName \<noteq> [] \<and>
    (\<exists>claims. fst (verify_Verify (xe_Parse env) (xe_Get env) (xe_now env) (getHeader (hr_Headers http) HeaderName) (ea_verifier s)) = Inr claims)"
proof -
  have "\<not> isExcluded s path m" "checkVerificationRules s claims path m hs = None" for path m claims hs
    using assms(1) by (simp_all add: isExcluded_def checkVerificationRules_def loadVerificationRules_def)
  then show ?thesis unfolding Check_allows_iff [OF assms(2)] by (auto simp: prod_eq_iff)
qed

lemma generation_without_rules:
  assumes "gs_generationRules g = []" "cq_Http req = Some http"
  shows "generation_Check iter env req g = allowed"
  using assms by (simp add: generation_Check_def findMatchingRule_def)

text \<open>The token service: with a controller it is ready as soon as rules are installed, without one it is ready and has none.\<close>

definition streaming :: "cel_NewEnv \<Rightarrow> tts_process \<Rightarrow> bool" where
  "streaming NewEnv p \<longleftrightarrow>
     (\<exists>c. tp_client p = Some c \<and> tc_setter c = HandlerSetter_SetIssuanceRules NewEnv \<and>
        (tc_synced c \<or> tp_marking p \<longleftrightarrow> h_issuanceRules (sv_handler (tp_server p)) \<noteq> None)) \<and>
     sv_readyFn (tp_server p) = Some rules_synced"

definition standalone :: "tts_process \<Rightarrow> bool" where
  "standalone p \<longleftrightarrow> tp_client p = None \<and> sv_readyFn (tp_server p) = None \<and> h_issuanceRules (sv_handler (tp_server p)) = None"

lemma NewServer_rules:
  "NewServer NewEnv GenerateKey Parse cfg rand = (Inr s, rand') \<Longrightarrow> h_issuanceRules (sv_handler s) = None \<and> sv_readyFn s = None"
  by (auto simp: NewServer_def NewHandler_def SetVerifier_def bindr_Ok_iff split: prod.splits sum.splits)

lemma tts_main_starts:
  assumes "fst (tts_main NewEnv ReadFile yaml_Unmarshal GenerateKey Parse flags rand) = Running p"
  shows "if tf_controllerAddr flags = [] then standalone p else streaming NewEnv p"
  using assms NewServer_rules
  by (fastforce simp: tts_main_def standalone_def streaming_def NewTtsRuleClient_def SetReadyCheck_def
      split: if_splits sum.splits prod.splits)

lemma server_Serve_rules:
  "h_issuanceRules (sv_handler (snd (server_Serve env w s r))) = h_issuanceRules (sv_handler s)"
  "sv_readyFn (snd (server_Serve env w s r)) = sv_readyFn s"
  using ServeHTTP_state [of env "sv_handler s" r]
  by (auto simp: server_Serve_def split: route_result.splits endpoint.splits prod.splits)

lemma tts_serve_fields:
  "tp_client (snd (tts_serve env r p)) = tp_client p"
  "tp_marking (snd (tts_serve env r p)) = tp_marking p"
  "h_issuanceRules (sv_handler (tp_server (snd (tts_serve env r p)))) = h_issuanceRules (sv_handler (tp_server p))"
  "sv_readyFn (tp_server (snd (tts_serve env r p))) = sv_readyFn (tp_server p)"
  using server_Serve_rules [of env "tp_client p" "tp_server p" r] by (simp_all add: tts_serve_def case_prod_unfold Let_def)

lemma tts_install_streaming: "streaming NewEnv p \<Longrightarrow> \<not> tp_marking p \<Longrightarrow> streaming NewEnv (tts_install iter resp m p)"
  by (auto simp: streaming_def tts_install_def install_issuance_def HandlerSetter_SetIssuanceRules_def SetIssuanceRules_def Let_def
      split: sum.splits prod.splits)

lemma tts_mark_streaming: "streaming NewEnv p \<Longrightarrow> tp_marking p \<Longrightarrow> streaming NewEnv (tts_mark p)"
  by (auto simp: streaming_def tts_mark_def mark_issuance_def)

lemma streaming_step: "tts_step p p' \<Longrightarrow> streaming NewEnv p \<Longrightarrow> streaming NewEnv p'"
  by (erule tts_stepE) (simp_all add: tts_install_streaming tts_mark_streaming, simp add: streaming_def tts_serve_fields)

lemma standalone_step: "tts_step p p' \<Longrightarrow> standalone p \<Longrightarrow> standalone p'"
  by (erule tts_stepE) (simp_all add: standalone_def tts_serve_fields tts_install_def tts_mark_def)

lemma tts_reachable:
  assumes "tts_step\<^sup>*\<^sup>* p p'"
  shows "streaming NewEnv p \<Longrightarrow> streaming NewEnv p'" "standalone p \<Longrightarrow> standalone p'"
  using assms by (induction rule: rtranclp_induct) (blast intro: streaming_step standalone_step)+

lemma tts_readyz:
  assumes "rq_Path r = ''/readyz''" "rq_Method r = ''GET''"
  shows "fst (tts_serve env r p) = Some (readyz (tp_server p) (tp_client p))"
  using readyz_route(2) [OF assms] by (simp add: tts_serve_def server_Serve_def)

lemma no_issuance_rules: "h_issuanceRules h = None \<Longrightarrow> EvaluateIssuanceRules (loadIssuanceRules h) x = None"
  by (simp add: loadIssuanceRules_def)

subsection \<open>Properties\<close>

text \<open>
  C28. Readiness of the ext-auth adapter, in both modes. In every state it reaches, whatever messages and requests it gets,
  the readiness endpoint answers 200 exactly when a turn of the stream of its mode has recorded the rules it installed, and
  503 before. So it answers 200 only after rules have been installed, and when no turn is between installing and recording it
  answers 200 as soon as they have been. Until the first installation the verification adapter lets every request with a
  token that verifies through, and the generation adapter every request.
\<close>

theorem adapter_ready_iff_rules:
  assumes "extauth_main NewEnv flags listen = Running p0" "extauth_step\<^sup>*\<^sup>* p0 p" "rq_Path r = ''/readyz''" "cq_Http req = Some http"
  shows "rs_Status (extauth_health p r) = (if xp_marked p (mode_stream (xp_adapter p)) = 0 then StatusServiceUnavailable else StatusOK) \<and>
     xp_marked p (mode_stream (xp_adapter p)) \<le> xp_installed p (mode_stream (xp_adapter p)) \<and>
     (case xp_adapter p of
        VerificationAdapter s \<Rightarrow> ea_verificationRules s = None \<longleftrightarrow> xp_installed p VerificationStream = 0
      | GenerationAdapter g \<Rightarrow> xp_installed p GenerationStream = 0 \<longrightarrow> gs_generationRules g = []) \<and>
     (no_rules_yet (xp_adapter p) \<longrightarrow>
        (case xp_adapter p of
           VerificationAdapter s \<Rightarrow> ef_mode flags = ''verify'' \<and>
             (allows (fst (extauth_Check env req s)) \<longleftrightarrow> getHeader (hr_Headers http) HeaderName \<noteq> [] \<and>
               (\<exists>claims. fst (verify_Verify (xe_Parse env) (xe_Get env) (xe_now env) (getHeader (hr_Headers http) HeaderName) (ea_verifier s)) = Inr claims))
         | GenerationAdapter g \<Rightarrow> ef_mode flags = ''generate'' \<and> generation_Check iter env req g = allowed))"
proof (cases "ef_mode flags = ''verify''")
  case True
  then obtain s where "verifying NewEnv p s"
    using verifying_reachable [OF assms(2) extauth_main_verifies [OF assms(1)]] by blast
  then show ?thesis using True verification_without_rules [OF _ assms(4)]
    by (auto simp: readyz_status [OF assms(3)] verifying_def RuleClient_Ready_def)
next
  case False
  then obtain g where "generating p g" "ef_mode flags = ''generate''"
    using generating_reachable [OF assms(2)] extauth_main_generates [OF assms(1)] by blast
  then show ?thesis using generation_without_rules [OF _ assms(4)]
    by (auto simp: readyz_status [OF assms(3)] generating_def RuleClient_Ready_def)
qed

text \<open>
  C29. Readiness of the token service. Connected to a controller, in every state it reaches the readiness endpoint answers
  200 only if issuance rules have been installed, and exactly then when the rule client is not between installing rules and
  recording it; without a controller it is always ready and never has rules. Without rules every issuance request passes
  them.
\<close>

theorem tts_ready_iff_rules:
  assumes "fst (tts_main NewEnv ReadFile yaml_Unmarshal GenerateKey Parse flags rand) = Running p0" "tts_step\<^sup>*\<^sup>* p0 p"
    and "rq_Path r = ''/readyz''" "rq_Method r = ''GET''"
  shows "\<exists>resp. fst (tts_serve env r p) = Some resp \<and> rs_Status resp \<in> {StatusOK, StatusServiceUnavailable} \<and>
     (if tf_controllerAddr flags = []
      then rs_Status resp = StatusOK \<and> h_issuanceRules (sv_handler (tp_server p)) = None
      else (rs_Status resp = StatusOK \<longrightarrow> h_issuanceRules (sv_handler (tp_server p)) \<noteq> None) \<and>
        (\<not> tp_marking p \<longrightarrow>
          rs_Status resp = (if h_issuanceRules (sv_handler (tp_server p)) = None then StatusServiceUnavailable else StatusOK))) \<and>
     (h_issuanceRules (sv_handler (tp_server p)) = None \<longrightarrow>
       EvaluateIssuanceRules (loadIssuanceRules (sv_handler (tp_server p))) x = None)"
proof -
  have "if tf_controllerAddr flags = [] then standalone p else streaming NewEnv p"
    using tts_main_starts [OF assms(1)] tts_reachable [OF assms(2)] by (auto split: if_splits)
  then show ?thesis
    using no_issuance_rules
    by (auto simp: tts_readyz [OF assms(3,4)] readyz_def standalone_def streaming_def rules_synced_def TtsRuleClient_Ready_def
        http_Error_def plain_ok_def status_defs split: if_splits)
qed

subsection \<open>From requirements to answers\<close>

text \<open>A requirement holds of a token and a request: scope, context fields, and every expression that compiles.\<close>

definition requirement_satisfied :: "cel_NewEnv \<Rightarrow> Claims \<Rightarrow> CelContext res \<Rightarrow> ServiceTokenRequirement \<Rightarrow> bool" where
  "requirement_satisfied NewEnv claims celCtx str \<longleftrightarrow>
     (let v = sts_Verification (str_Spec str)
      in (vs_RequiredScope v = [] \<or> vs_RequiredScope v \<in> set (Fields (Scope claims))) \<and>
         (vs_RequiredTctxFields v = [] \<or>
           (\<exists>tctx. TransactionContext claims = Some tctx \<and> set (vs_RequiredTctxFields v) \<subseteq> dom (map_of tctx))) \<and>
         (\<forall>r\<in>set (vs_Rules v). cel_ok (celverify_NewEnv NewEnv) (av_CEL r) \<longrightarrow>
           (\<exists>ctx. celCtx = Inr ctx \<and> cel_holds (celverify_NewEnv NewEnv) (av_CEL r) (verification_activation ctx))))"

lemma rule_of_requirement:
  "rule_satisfied NewEnv claims celCtx (verification_rule NewEnv str) \<longleftrightarrow> requirement_satisfied NewEnv claims celCtx str"
  "vr_ExcludedEndpoints (verification_rule NewEnv str) = sts_ExcludedEndpoints (str_Spec str)"
  "verification_key (verification_rule NewEnv str) = (str_Namespace str, str_Name str)"
  by (simp_all add: rule_satisfied_def requirement_satisfied_def verification_rule_def validateAndCompileCELRules_valid
      verification_key_def Let_def) blast

lemma snapshot_installs:
  assumes "distinct (map verification_key (topic_rules (verification_topic rs)))" "\<forall>xs. mset (iter xs) = mset xs"
    and "streamVerification iter (buildVerSnapshot rs) (c, m, VerificationAdapter s) = Some (c', m', a)"
    and "rc_verSet c = Some (set_verification NewEnv)"
  shows "\<exists>rules. set rules = set (topic_rules (verification_topic rs)) \<and> c' = c\<lparr>rc_verSynced := True\<rparr> \<and>
     a = VerificationAdapter (SetVerificationRules NewEnv rules s)"
proof -
  let ?rs = "topic_rules (verification_topic rs)"
  have "apply_verification (buildVerSnapshot rs) m = map_rules verification_key ?rs"
    by (simp add: apply_verification_def buildVerSnapshot_def verificationRulesToProto_def put_rules_map verification_roundtrip map_rules_def)
  moreover have "set (iter (map snd (map_rules verification_key ?rs))) = set ?rs"
    using map_rules_values [OF assms(1)] mset_eq_imp_set_eq [of "iter (map snd (map_rules verification_key ?rs))"] assms(2) by metis
  ultimately show ?thesis using assms(3,4) by (auto simp: stream_defs Let_def)
qed

text \<open>
  C6. From requirements to answers, with controller, rule server, rule client and ext-auth server as the programs wire them:
  after a successful rebuild, the snapshot of the rule server makes the adapter ready, and it then allows a request exactly
  when some requirement excludes its endpoint, or its token verifies and satisfies every requirement: scope, context fields
  and all expressions that compile.
\<close>

theorem published_requirements_enforced:
  assumes "controller_main False None None None None None types policyLists requirements policies = Running cp"
    and "kube_List requirements = Inr strs" "distinct (map (\<lambda>str. (str_Namespace str, str_Name str)) strs)"
    and "rebuildVerificationRules NewEnv (cp_requirements cp) rs = (None, rs')"
    and "extauth_main NewEnv flags listen = Running p" "ef_mode flags = ''verify''" "\<forall>xs. mset (iter xs) = mset xs"
    and "streamVerification iter (buildVerSnapshot rs') (xp_client p, [], xp_adapter p) = Some (c, m, a)"
    and "cq_Http req = Some http"
  shows "RuleClient_Ready c \<and>
     (allows (fst (adapter_Check iter' env req a)) \<longleftrightarrow>
       (\<exists>str\<in>set strs. \<exists>ep\<in>set (sts_ExcludedEndpoints (str_Spec str)).
          matchPath (hr_Path http) (ep_Path ep) \<and> EqualFold (hr_Method http) (ep_Method ep)) \<or>
       (getHeader (hr_Headers http) HeaderName \<noteq> [] \<and>
        (\<exists>claims. fst (verify_Verify (xe_Parse env) (xe_Get env) (xe_now env) (getHeader (hr_Headers http) HeaderName)
             (verify_New (ef_jwks flags) (ef_trustDomain flags))) = Inr claims \<and>
          (\<forall>str\<in>set strs. requirement_satisfied NewEnv claims
             (cel_context claims (hr_Path http) (hr_Method http) (hr_Headers http)) str))))"
proof -
  let ?s = "extauth_NewServer (verify_New (ef_jwks flags) (ef_trustDomain flags))"
  have rules: "topic_rules (verification_topic rs') = map (verification_rule NewEnv) strs"
    using assms(1,2,4) by (auto simp: controller_main_def rebuildVerificationRules_def publish_def UpdateVerificationRules_def)
  have v: "verifying NewEnv p ?s" by (rule extauth_main_verifies [OF assms(5,6)])
  then have p: "xp_adapter p = VerificationAdapter ?s" "rc_verSet (xp_client p) = Some (set_verification NewEnv)" "rc_genSet (xp_client p) = None"
    by (simp_all add: verifying_def)
  have "distinct (map verification_key (topic_rules (verification_topic rs')))"
    using assms(3) by (simp add: rules rule_of_requirement comp_def)
  then obtain vrs where vrs: "set vrs = verification_rule NewEnv ` set strs" "c = (xp_client p)\<lparr>rc_verSynced := True\<rparr>"
    "a = VerificationAdapter (SetVerificationRules NewEnv vrs ?s)"
    using snapshot_installs [of rs' iter "xp_client p" "[]" ?s c m a NewEnv] assms(7,8) p rules by auto
  have "ea_verifier ?s = verify_New (ef_jwks flags) (ef_trustDomain flags)" by (simp add: extauth_NewServer_def)
  then have "allows (fst (extauth_Check env req (SetVerificationRules NewEnv vrs ?s))) \<longleftrightarrow>
       (\<exists>str\<in>set strs. \<exists>ep\<in>set (sts_ExcludedEndpoints (str_Spec str)).
          matchPath (hr_Path http) (ep_Path ep) \<and> EqualFold (hr_Method http) (ep_Method ep)) \<or>
       (getHeader (hr_Headers http) HeaderName \<noteq> [] \<and>
        (\<exists>claims. fst (verify_Verify (xe_Parse env) (xe_Get env) (xe_now env) (getHeader (hr_Headers http) HeaderName)
             (verify_New (ef_jwks flags) (ef_trustDomain flags))) = Inr claims \<and>
          (\<forall>str\<in>set strs. requirement_satisfied NewEnv claims
             (cel_context claims (hr_Path http) (hr_Method http) (hr_Headers http)) str)))"
    unfolding Check_allows_iff [OF assms(9)] isExcluded_iff checkVerificationRules_None_iff vrs(1)
    by (simp add: rule_of_requirement prod_eq_iff)
  moreover have "RuleClient_Ready c" using p by (simp add: vrs(2) RuleClient_Ready_def)
  ultimately show ?thesis by (simp add: vrs(3) adapter_Check_def case_prod_unfold Let_def)
qed

subsection \<open>Concrete programs\<close>

definition demo_flags :: extauth_flags where
  "demo_flags = \<lparr>ef_version = False, ef_tts = ''http://tts'', ef_jwks = ''u'', ef_trustDomain = ''td'', ef_mode = ''verify''\<rparr>"

definition demo_process :: extauth_process where
  "demo_process = \<lparr>xp_adapter = VerificationAdapter (extauth_NewServer (verify_New ''u'' ''td'')),
     xp_client = SetVerificationSetter (set_verification demo_NewEnv) NewRuleClient, xp_installed = (\<lambda>_. 0), xp_marked = (\<lambda>_. 0)\<rparr>"

definition demo_readyz :: request where
  "demo_readyz = \<lparr>rq_Method = ''GET'', rq_Path = ''/readyz'', rq_RawQuery = [], rq_Header = [], rq_Body = []\<rparr>"

lemma demo_started: "extauth_main demo_NewEnv demo_flags None = Running demo_process" "ef_mode demo_flags = ''verify''"
  by (simp_all add: extauth_main_def demo_flags_def demo_process_def)

text \<open>An adapter that has installed rules and not yet recorded it.\<close>

definition demo_installed :: extauth_process where
  "demo_installed = demo_process\<lparr>xp_adapter := VerificationAdapter (SetVerificationRules demo_NewEnv [] (extauth_NewServer (verify_New ''u'' ''td''))),
     xp_installed := (\<lambda>_. 0)(VerificationStream := 1)\<rparr>"

lemma demo_install: "extauth_step demo_process demo_installed"
proof -
  have "install_verification rev \<lparr>rs_Update = Some (Snapshot []), rs_VersionInfo = ''1''\<rparr> (xp_client demo_process, [], xp_adapter demo_process) =
      Some ([], xp_adapter demo_installed)"
    by (simp add: install_verification_def demo_process_def demo_installed_def SetVerificationSetter_def apply_verification_def put_rules_def)
  from extauth_step.verification_install [OF this] show ?thesis by (simp add: demo_installed_def demo_process_def fun_upd_def)
qed

theorem adapter_ready_iff_rules_witness:
  "rs_Status (extauth_health demo_process demo_readyz) = StatusServiceUnavailable \<and>
   rs_Status (extauth_health demo_installed demo_readyz) = StatusServiceUnavailable \<and>
   allows (fst (extauth_Check demo_xenv (demo_check ''/buy'') (extauth_NewServer (verify_New ''u'' ''td''))))"
proof -
  have r: "rq_Path demo_readyz = ''/readyz''" by (simp add: demo_readyz_def)
  note 1 = adapter_ready_iff_rules [OF demo_started(1) rtranclp.rtrancl_refl r demo_http [of "''/buy''"], of demo_xenv id]
  note 2 = adapter_ready_iff_rules [OF demo_started(1) r_into_rtranclp [of extauth_step, OF demo_install] r demo_http [of "''/buy''"], of demo_xenv id]
  have "rs_Status (extauth_health demo_process demo_readyz) = StatusServiceUnavailable"
    using 1 by (simp add: demo_process_def)
  moreover have "rs_Status (extauth_health demo_installed demo_readyz) = StatusServiceUnavailable"
    using 2 by (simp add: demo_installed_def demo_process_def)
  moreover have "no_rules_yet (xp_adapter demo_process)" "xp_adapter demo_process = VerificationAdapter (extauth_NewServer (verify_New ''u'' ''td''))"
    by (simp_all add: demo_process_def extauth_NewServer_def)
  ultimately show ?thesis using 1 demo_token_verified
    by (auto simp: demo_header) (auto simp: extauth_NewServer_def demo_server_def SetTTSClient_def)
qed

definition demo_config :: Config where
  "demo_config = \<lparr>cfg_TrustDomain = ''td'', cfg_Issuer = ''tts'', cfg_SubjectTokens = [], cfg_Defaults = \<lparr>TokenLifetime = [], KeySize = 0\<rparr>\<rparr>"

definition demo_tts :: "string \<Rightarrow> tts_process outcome" where
  "demo_tts controller = fst (tts_main demo_NewEnv (\<lambda>_. Inr []) (\<lambda>_. Inr demo_config) demo_gen demo_Parse
     \<lparr>tf_version = False, tf_config = ''config.yaml'', tf_controllerAddr = controller\<rparr> 0)"

lemma demo_tts_runs: "\<exists>p. demo_tts controller = Running p"
  by (simp add: demo_tts_def tts_main_def LoadConfig_def Config_Validate_def demo_config_def NewServer_def NewManager_def generateKey_def
      demo_gen_def)

theorem tts_ready_iff_rules_witness:
  "\<exists>p resp. demo_tts ''controller:9090'' = Running p \<and> fst (tts_serve demo_env demo_readyz p) = Some resp \<and>
     rs_Status resp = StatusServiceUnavailable"
proof -
  obtain p where p: "demo_tts ''controller:9090'' = Running p" using demo_tts_runs by blast
  have "rq_Path demo_readyz = ''/readyz''" "rq_Method demo_readyz = ''GET''" by (simp_all add: demo_readyz_def)
  note ready = tts_ready_iff_rules [OF p [unfolded demo_tts_def] rtranclp.rtrancl_refl this, of demo_env undefined]
  have "\<not> tp_marking p \<and> h_issuanceRules (sv_handler (tp_server p)) = None"
    using p by (simp add: demo_tts_def tts_main_def LoadConfig_def Config_Validate_def demo_config_def NewServer_def NewManager_def
        generateKey_def demo_gen_def SetReadyCheck_def NewHandler_def SetVerifier_def) (auto simp: NewHandler_def)
  with ready p show ?thesis by auto
qed

definition demo_reading :: ServiceTokenRequirement where
  "demo_reading = \<lparr>str_Namespace = ''shop'', str_Name = ''reading'',
     str_Spec = \<lparr>sts_ServiceRef = \<lparr>sr_Name = ''cart''\<rparr>,
       sts_Verification = \<lparr>vs_RequiredScope = ''read'', vs_RequiredTctxFields = [''id''],
         vs_Rules = [\<lparr>av_Name = ''bad'', av_CEL = ''((('', av_Message = ''m''\<rparr>]\<rparr>,
       sts_ExcludedEndpoints = [], sts_AutoNarrow = False\<rparr>,
     str_Status = \<lparr>stst_Conditions = [], stst_ActiveVerificationRules = 0, stst_ExcludedEndpointCount = 0\<rparr>\<rparr>"

lemma demo_reading_satisfied: "requirement_satisfied demo_NewEnv demo_old ctx demo_reading"
  by (simp add: requirement_satisfied_def demo_reading_def demo_scope Fields_demo demo_cel_refused)
    (simp add: demo_old_def issued_claims_def demo_claims_def)

definition demo_controller :: controller_process where
  "demo_controller =
     \<lparr>cp_types = \<lparr>ttr_Client = demo_kube demo_type, ttr_policies = (\<lambda>_. Inr [demo_policy]), ttr_RulePublisher = Some UpdateGenerationRules\<rparr>,
      cp_requirements = \<lparr>strr_Client = demo_kube demo_reading, strr_RulePublisher = Some UpdateVerificationRules\<rparr>,
      cp_policies = \<lparr>tpr_Client = demo_kube demo_policy, tpr_IssuancePublisher = Some UpdateIssuanceRules\<rparr>,
      cp_rules = NewRuleServer\<rparr>"

lemma demo_controller_runs:
  "controller_main False None None None None None (demo_kube demo_type) (\<lambda>_. Inr [demo_policy]) (demo_kube demo_reading)
     (demo_kube demo_policy) = Running demo_controller"
  "kube_List (demo_kube x) = Inr [x]"
  by (simp_all add: controller_main_def demo_controller_def demo_kube_def Let_def)

theorem published_requirements_enforced_witness:
  "\<exists>rs c m a. rebuildVerificationRules demo_NewEnv (cp_requirements demo_controller) NewRuleServer = (None, rs) \<and>
     streamVerification rev (buildVerSnapshot rs) (xp_client demo_process, [], xp_adapter demo_process) = Some (c, m, a) \<and>
     RuleClient_Ready c \<and> allows (fst (adapter_Check id demo_xenv (demo_check ''/buy'') a))"
proof -
  obtain rs where rs: "rebuildVerificationRules demo_NewEnv (cp_requirements demo_controller) NewRuleServer = (None, rs)"
    by (simp add: rebuildVerificationRules_def demo_controller_def demo_kube_def)
  obtain c m a where st: "streamVerification rev (buildVerSnapshot rs) (xp_client demo_process, [], xp_adapter demo_process) = Some (c, m, a)"
    by (simp add: stream_defs demo_process_def SetVerificationSetter_def Let_def)
  obtain v where v: "verify_Verify (xe_Parse demo_xenv) (xe_Get demo_xenv) (xe_now demo_xenv) ''tok'' (verify_New ''u'' ''td'') = (Inr demo_old, v)"
    using demo_token_verified by (auto simp: demo_server_def SetTTSClient_def extauth_NewServer_def)
  have "RuleClient_Ready c \<and> allows (fst (adapter_Check id demo_xenv (demo_check ''/buy'') a))"
    using published_requirements_enforced [OF demo_controller_runs(1) demo_controller_runs(2) _ rs demo_started _ st demo_http, of id demo_xenv]
      demo_reading_satisfied v by (simp add: demo_header) (simp add: demo_flags_def)
  with rs st show ?thesis by blast
qed

end
