(* ===== verification/Services.thy ===== *)
theory Services
  imports Generate
begin

text \<open>
  The example services. \<open>examples/demo\<close>: service A exchanges an access token and calls B, which verifies the transaction token
  and calls C. \<open>examples/agents\<close>: a mock identity provider, and an orchestrator that calls a retriever and an analyzer, each
  behind the verification middleware.

  The network is a parameter \<open>net\<close>, which gives the transport for a URL; redirects are not followed (no service answers with one).
  The URLs of the flags are given with the path they parse to; the URL the orchestrator builds from a request is parsed by the
  parameter \<open>url_Parse\<close>, into path and query. A handler that may panic returns an option. Logging is left out.
\<close>

definition StatusBadGateway :: nat where "StatusBadGateway = 502"

definition json_ok :: "json \<Rightarrow> response" where
  "json_ok v = \<lparr>rs_Status = StatusOK, rs_Header = [(''Content-Type'', [''application/json''])], rs_Body = Bytes (json_Encode v)\<rparr>"

definition get_request :: "string \<Rightarrow> string \<Rightarrow> request" where
  "get_request path query = \<lparr>rq_Method = ''GET'', rq_Path = path, rq_RawQuery = query, rq_Header = [], rq_Body = []\<rparr>"

text \<open>The answers of the multiplexer itself.\<close>

fun mux_answer :: "'h route_result \<Rightarrow> response" where
  "mux_answer (Redirect p) = \<lparr>rs_Status = StatusMovedPermanently, rs_Header = [(''Location'', [p])], rs_Body = Bytes []\<rparr>"
| "mux_answer NotAllowed = http_Error (LibError ''Method Not Allowed'') StatusMethodNotAllowed"
| "mux_answer _ = http_Error (LibError ''404 page not found'') StatusNotFound"

subsection \<open>Services A, B and C\<close>

definition service_c_store :: http_handler where
  "service_c_store r ctx = json_ok (JObj [(''status'', JStr ''stored'')])"

definition service_c ::
    "(string \<Rightarrow> 's \<Rightarrow> Claims res \<times> 's) \<Rightarrow> request \<Rightarrow> 's \<Rightarrow> response \<times> 's" where
  "service_c verify r v =
     (case mux_route [(''GET'', ''/api/store'', ())] r of
        Routed _ \<Rightarrow> VerifyTxToken verify service_c_store r (Some background) v
      | other \<Rightarrow> (mux_answer other, v))"

definition service_b_process :: "(string \<Rightarrow> round_tripper) \<Rightarrow> string \<Rightarrow> string \<Rightarrow> http_handler" where
  "service_b_process net url path r ctx =
     (case NewPropagateTransport (net url) (Some (net url)) (get_request path []) ctx of
        Inl err \<Rightarrow> http_Error (Errorf ''failed to call service-c'' []) StatusBadGateway
      | Inr resp \<Rightarrow> json_ok (JObj [(''status'', JStr ''processed'')]))"

definition service_b ::
    "(string \<Rightarrow> 's \<Rightarrow> Claims res \<times> 's) \<Rightarrow> (string \<Rightarrow> round_tripper) \<Rightarrow> string \<Rightarrow> string \<Rightarrow> request \<Rightarrow> 's \<Rightarrow> response \<times> 's" where
  "service_b verify net serviceCURL path r v =
     (case mux_route [(''GET'', ''/api/process'', ())] r of
        Routed _ \<Rightarrow> VerifyTxToken verify (service_b_process net (serviceCURL @ ''/api/store'') path) r (Some background) v
      | other \<Rightarrow> (mux_answer other, v))"

definition service_a_exchange :: "string \<Rightarrow> string \<Rightarrow> ExchangeRequest" where
  "service_a_exchange accessToken remoteAddr =
     \<lparr>er_SubjectToken = accessToken, er_SubjectTokenType = SubjectTokenTypeAccessToken, er_Scope = ''read:data'',
      er_RequestDetails = Some (mput_all [(''action'', JStr ''analyze''), (''datasetId'', JStr ''ds-1234'')] []),
      er_RequestContext = Some (mput_all [(''req_ip'', JStr remoteAddr), (''authn'', JStr ''oidc'')] [])\<rparr>"

definition service_a_analyze ::
    "(string \<Rightarrow> (string \<times> string) res) \<Rightarrow> http_do \<Rightarrow> (string \<Rightarrow> round_tripper) \<Rightarrow> Client \<Rightarrow> string \<Rightarrow> string \<Rightarrow> string \<Rightarrow> http_handler" where
  "service_a_analyze url_Parse Do net ttsClient url path remoteAddr r ctx =
     (let auth = Values_Get (rq_Header r) ''Authorization''
      in if length auth < 8 then http_Error (Errorf ''missing Authorization header'' []) StatusUnauthorized
         else
           (let accessToken = drop 7 auth
            in case Exchange url_Parse Do ttsClient (service_a_exchange accessToken remoteAddr) of
                 Inl err \<Rightarrow> http_Error (Errorf ''token exchange failed'' []) StatusInternalServerError
               | Inr txToken \<Rightarrow>
                   (case NewPropagateTransport (net url) (Some (net url)) (get_request path []) (WithToken ctx txToken) of
                      Inl err \<Rightarrow> http_Error (Errorf ''failed to call service-b'' []) StatusBadGateway
                    | Inr resp \<Rightarrow> json_ok (JObj [(''status'', JStr ''analyzed'')]))))"

definition service_a ::
    "(string \<Rightarrow> (string \<times> string) res) \<Rightarrow> http_do \<Rightarrow> (string \<Rightarrow> round_tripper) \<Rightarrow> string \<Rightarrow> string \<Rightarrow> string \<Rightarrow> string \<Rightarrow> request \<Rightarrow> response" where
  "service_a url_Parse Do net ttsEndpoint serviceBURL path remoteAddr r =
     (case mux_route [(''POST'', ''/api/analyze'', ())] r of
        Routed _ \<Rightarrow>
          service_a_analyze url_Parse Do net (NewClient ttsEndpoint) (serviceBURL @ ''/api/process'') path remoteAddr r (Some background)
      | other \<Rightarrow> mux_answer other)"

subsection \<open>Retriever and analyzer\<close>

datatype agent_route = AgentApi | AgentHealthz

definition retriever_documents :: "string \<Rightarrow> string list" where
  "retriever_documents company =
     [company @ '' Annual Report 2024 - Revenue grew 15% YoY to $4.2B'',
      company @ '' Q3 Earnings Call Transcript - CEO highlighted strong cloud growth'',
      company @ '' SEC Filing 10-K - Operating margins expanded to 22%'']"

definition retriever_retrieve :: http_handler where
  "retriever_retrieve r ctx =
     (let company0 = Values_Get (fst (ParseQuery (rq_RawQuery r))) ''company'';
          company = (if company0 = [] then ''ACME'' else company0)
      in json_ok (JObj [(''documents'', JArr (map JStr (retriever_documents company)))]))"

definition retriever ::
    "(string \<Rightarrow> 's \<Rightarrow> Claims res \<times> 's) \<Rightarrow> request \<Rightarrow> 's \<Rightarrow> response \<times> 's" where
  "retriever verify r v =
     (case mux_route [(''GET'', ''/api/retrieve'', AgentApi), (''GET'', ''/healthz'', AgentHealthz)] r of
        Routed AgentApi \<Rightarrow> VerifyTxToken verify retriever_retrieve r (Some background) v
      | Routed AgentHealthz \<Rightarrow> (plain_ok [], v)
      | other \<Rightarrow> (mux_answer other, v))"

text \<open>Decoding a slice of strings; \<open>null\<close> leaves an element empty.\<close>

fun string_elements :: "json list \<Rightarrow> string list res" where
  "string_elements [] = Ok []"
| "string_elements (v # vs) =
     (case v of
        JStr s \<Rightarrow> bindr (string_elements vs) id (\<lambda>ss. Ok (s # ss))
      | JNull \<Rightarrow> bindr (string_elements vs) id (\<lambda>ss. Ok ([] # ss))
      | _ \<Rightarrow> Err (LibError ''cannot unmarshal into Go value of type string''))"

record analyzeRequest =
  an_Company :: string
  an_Period :: string
  an_Question :: string
  an_Documents :: "string list"

definition decode_analyzeRequest :: "string \<Rightarrow> analyzeRequest res" where
  "decode_analyzeRequest body =
     bindr (json_Decode body) id (\<lambda>v.
     bindr (struct_members v) id (\<lambda>ms.
     bindr (string_field ''company'' ms) id (\<lambda>c.
     bindr (string_field ''period'' ms) id (\<lambda>p.
     bindr (string_field ''question'' ms) id (\<lambda>q.
     bindr (bindr (array_field ''documents'' ms) id string_elements) id (\<lambda>ds.
     Ok \<lparr>an_Company = c, an_Period = p, an_Question = q, an_Documents = ds\<rparr>))))))"

definition analyzer_text :: "analyzeRequest \<Rightarrow> string" where
  "analyzer_text req =
     ''Based on '' @ string_of_nat (length (an_Documents req)) @ '' documents for '' @ an_Company req @ '' ('' @ an_Period req @
     ''): Revenue grew 15% YoY driven by cloud expansion. '' @
     ''Operating margins improved to 22%. Management guidance suggests continued momentum '' @
     ''into next quarter with expected 12-15% growth.''"

definition analyzer_analyze :: http_handler where
  "analyzer_analyze r ctx =
     (case decode_analyzeRequest (rq_Body r) of
        Inl err \<Rightarrow> http_Error (Errorf ''invalid request body'' []) StatusBadRequest
      | Inr req \<Rightarrow> json_ok (JObj [(''analysis'', JStr (analyzer_text req))]))"

definition analyzer ::
    "(string \<Rightarrow> 's \<Rightarrow> Claims res \<times> 's) \<Rightarrow> request \<Rightarrow> 's \<Rightarrow> response \<times> 's" where
  "analyzer verify r v =
     (case mux_route [(''POST'', ''/api/analyze'', AgentApi), (''GET'', ''/healthz'', AgentHealthz)] r of
        Routed AgentApi \<Rightarrow> VerifyTxToken verify analyzer_analyze r (Some background) v
      | Routed AgentHealthz \<Rightarrow> (plain_ok [], v)
      | other \<Rightarrow> (mux_answer other, v))"

subsection \<open>Orchestrator\<close>

record researchRequest =
  rr_Company :: string
  rr_Period :: string
  rr_Question :: string

definition decode_researchRequest :: "string \<Rightarrow> researchRequest res" where
  "decode_researchRequest body =
     bindr (json_Decode body) id (\<lambda>v.
     bindr (struct_members v) id (\<lambda>ms.
     bindr (string_field ''company'' ms) id (\<lambda>c.
     bindr (string_field ''period'' ms) id (\<lambda>p.
     bindr (string_field ''question'' ms) id (\<lambda>q.
     Ok \<lparr>rr_Company = c, rr_Period = p, rr_Question = q\<rparr>)))))"

text \<open>
  The orchestrator ignores the errors of decoding the answers: what does not fit a field leaves it as it was, and an answer that
  is not JSON leaves everything empty. A slice is nil or given. A member that is given twice counts with its last value; that an
  element which does not fit would then keep the value of the earlier array is not modelled.
\<close>

definition lenient_elements :: "json list \<Rightarrow> string list" where
  "lenient_elements vs = map (\<lambda>v. case v of JStr s \<Rightarrow> s | _ \<Rightarrow> []) vs"

fun lenient_slice :: "string \<Rightarrow> (string \<times> json) list \<Rightarrow> string list option \<Rightarrow> string list option" where
  "lenient_slice tag [] acc = acc"
| "lenient_slice tag ((k, v) # ms) acc =
     (if EqualFold k tag then
        (case v of
           JArr vs \<Rightarrow> lenient_slice tag ms (Some (lenient_elements vs))
         | JNull \<Rightarrow> lenient_slice tag ms None
         | _ \<Rightarrow> lenient_slice tag ms acc)
      else lenient_slice tag ms acc)"

fun lenient_string :: "string \<Rightarrow> (string \<times> json) list \<Rightarrow> string \<Rightarrow> string" where
  "lenient_string tag [] acc = acc"
| "lenient_string tag ((k, v) # ms) acc =
     (if EqualFold k tag then
        (case v of
           JStr s \<Rightarrow> lenient_string tag ms s
         | _ \<Rightarrow> lenient_string tag ms acc)
      else lenient_string tag ms acc)"

definition lenient_members :: "string \<Rightarrow> (string \<times> json) list" where
  "lenient_members body = (case json_Decode body of Inr (JObj ms) \<Rightarrow> ms | _ \<Rightarrow> [])"

definition slice_json :: "string list option \<Rightarrow> json" where
  "slice_json ss = (case ss of None \<Rightarrow> JNull | Some xs \<Rightarrow> JArr (map JStr xs))"

definition analyzer_body :: "researchRequest \<Rightarrow> string list option \<Rightarrow> string" where
  "analyzer_body req docs =
     json_Marshal (JObj (mput_all
       [(''company'', JStr (rr_Company req)), (''period'', JStr (rr_Period req)), (''question'', JStr (rr_Question req)),
        (''documents'', slice_json docs)] []))"

definition researchResponse :: "researchRequest \<Rightarrow> string list option \<Rightarrow> string \<Rightarrow> json" where
  "researchResponse req docs analysis =
     JObj [(''company'', JStr (rr_Company req)), (''period'', JStr (rr_Period req)), (''question'', JStr (rr_Question req)),
           (''documents'', slice_json docs), (''analysis'', JStr analysis)]"

definition retrieve_url :: "string \<Rightarrow> string \<Rightarrow> string" where
  "retrieve_url retrieverURL company = retrieverURL @ ''/api/retrieve?company='' @ company"

definition orchestrator_research ::
    "(error \<Rightarrow> string) \<Rightarrow> (string \<Rightarrow> (string \<times> string) res) \<Rightarrow> (string \<Rightarrow> round_tripper) \<Rightarrow> string \<Rightarrow> string \<Rightarrow> string \<Rightarrow>
       request \<Rightarrow> go_context \<Rightarrow> response option" where
  "orchestrator_research fmt url_Parse net retrieverURL analyzerURL analyzerPath r ctx0 =
     (let txToken = Values_Get (rq_Header r) ''Txn-Token'';
          ctx = (if txToken \<noteq> [] then WithToken ctx0 txToken else ctx0)
      in case decode_researchRequest (rq_Body r) of
           Inl err \<Rightarrow> Some (http_Error (Errorf ''invalid request body'' []) StatusBadRequest)
         | Inr req \<Rightarrow>
             (let url = retrieve_url retrieverURL (rr_Company req)
              in case url_Parse url of
                   Inl err \<Rightarrow> None
                 | Inr (path, query) \<Rightarrow>
                     (case NewPropagateTransport (net url) (Some (net url)) (get_request path query) ctx of
                        Inl err \<Rightarrow> Some (http_Error (Errorf ''retriever call failed'' []) StatusBadGateway)
                      | Inr retrieverResp \<Rightarrow>
                          if rs_Status retrieverResp \<noteq> StatusOK
                            then Some (http_Error (Errorf ''retriever error: %s'' [body_bytes fmt (rs_Body retrieverResp)])
                                   (rs_Status retrieverResp))
                          else
                            (let docs = lenient_slice ''documents'' (lenient_members (body_bytes fmt (rs_Body retrieverResp))) None;
                                 aurl = analyzerURL @ ''/api/analyze'';
                                 areq = \<lparr>rq_Method = ''POST'', rq_Path = analyzerPath, rq_RawQuery = [],
                                         rq_Header = [(''Content-Type'', [''application/json''])], rq_Body = analyzer_body req docs\<rparr>
                             in case NewPropagateTransport (net aurl) (Some (net aurl)) areq ctx of
                                  Inl err \<Rightarrow> Some (http_Error (Errorf ''analyzer call failed'' []) StatusBadGateway)
                                | Inr analyzerResp \<Rightarrow>
                                    if rs_Status analyzerResp \<noteq> StatusOK
                                      then Some (http_Error (Errorf ''analyzer error: %s'' [body_bytes fmt (rs_Body analyzerResp)])
                                             (rs_Status analyzerResp))
                                    else
                                      (let analysis = lenient_string ''analysis'' (lenient_members (body_bytes fmt (rs_Body analyzerResp))) []
                                       in Some (json_ok (researchResponse req docs analysis)))))))"

definition orchestrator ::
    "(error \<Rightarrow> string) \<Rightarrow> (string \<Rightarrow> (string \<times> string) res) \<Rightarrow> (string \<Rightarrow> round_tripper) \<Rightarrow> string \<Rightarrow> string \<Rightarrow> string \<Rightarrow>
       request \<Rightarrow> response option" where
  "orchestrator fmt url_Parse net retrieverURL analyzerURL analyzerPath r =
     (case mux_route [(''POST'', ''/api/research'', AgentApi), (''GET'', ''/healthz'', AgentHealthz)] r of
        Routed AgentApi \<Rightarrow> orchestrator_research fmt url_Parse net retrieverURL analyzerURL analyzerPath r (Some background)
      | Routed AgentHealthz \<Rightarrow> Some (plain_ok [])
      | other \<Rightarrow> Some (mux_answer other))"

subsection \<open>Mock identity provider\<close>

definition idp_discovery :: "string \<Rightarrow> response" where
  "idp_discovery issuer =
     json_ok (JObj [(''issuer'', JStr issuer), (''jwks_uri'', JStr (issuer @ ''/.well-known/jwks.json''))])"

definition idp_claims :: "string \<Rightarrow> int \<Rightarrow> string \<Rightarrow> string \<Rightarrow> gomap" where
  "idp_claims issuer now email scope =
     mput_all
       [(''iss'', JStr issuer),
        (''sub'', JStr email),
        (''email'', JStr email),
        (''aud'', JStr ''demo-app''),
        (''scope'', JStr scope),
        (''iat'', JNum (of_int (Unix now))),
        (''exp'', JNum (of_int (Unix (now + 3600 * nanos))))] []"

definition idp_jwt :: "string \<Rightarrow> int \<Rightarrow> string \<Rightarrow> string \<Rightarrow> string \<Rightarrow> jwt_token" where
  "idp_jwt issuer now email scope k =
     \<lparr>jwt_Method = SigningMethodRSA ''RS256'',
      jwt_Header = mput ''kid'' (JStr k) (mput_all [(''typ'', JStr ''JWT''), (''alg'', JStr ''RS256'')] []),
      jwt_Claims = idp_claims issuer now email scope\<rparr>"

definition idp_token :: "jwt_signer \<Rightarrow> int \<Rightarrow> string \<Rightarrow> Manager \<Rightarrow> request \<Rightarrow> response" where
  "idp_token sign now issuer keyMgr r =
     (case bindr (json_Decode (rq_Body r)) id (\<lambda>v.
           bindr (struct_members v) id (\<lambda>ms.
           bindr (string_field ''email'' ms) id (\<lambda>email.
           bindr (string_field ''scope'' ms) id (\<lambda>scope. Ok (email, scope))))) of
        Inl err \<Rightarrow> http_Error (Errorf ''invalid request body'' []) StatusBadRequest
      | Inr (email, scope0) \<Rightarrow>
          if email = [] then http_Error (Errorf ''email is required'' []) StatusBadRequest
          else
            (let scope = (if scope0 = [] then ''read:docs analyze:data'' else scope0);
                 (key, k) = SigningKey keyMgr
             in case sign (idp_jwt issuer now email scope k) key of
                  Inl err \<Rightarrow> http_Error (Errorf ''failed to sign token'' []) StatusInternalServerError
                | Inr signedToken \<Rightarrow> json_ok (JObj [(''access_token'', JStr signedToken), (''token_type'', JStr ''Bearer'')])))"

datatype idp_route = IdpDiscovery | IdpJwks | IdpToken | IdpHealthz

definition mock_idp :: "jwt_signer \<Rightarrow> int \<Rightarrow> string \<Rightarrow> Manager \<Rightarrow> request \<Rightarrow> response" where
  "mock_idp sign now issuer keyMgr r =
     (case mux_route
         [(''GET'', ''/.well-known/openid-configuration'', IdpDiscovery), (''GET'', ''/.well-known/jwks.json'', IdpJwks),
          (''POST'', ''/token'', IdpToken), (''GET'', ''/healthz'', IdpHealthz)] r of
        Routed IdpDiscovery \<Rightarrow> idp_discovery issuer
      | Routed IdpJwks \<Rightarrow> JWKSHandler keyMgr r
      | Routed IdpToken \<Rightarrow> idp_token sign now issuer keyMgr r
      | Routed IdpHealthz \<Rightarrow> plain_ok []
      | other \<Rightarrow> mux_answer other)"

subsection \<open>Lemmas: agents\<close>

lemma agent_paths: "cleanPath ''/api/retrieve'' = ''/api/retrieve''" "cleanPath ''/api/analyze'' = ''/api/analyze''"
  by code_simp+

lemma propagated:
  assumes "Values_Get (rq_Header req) HeaderName = []" "TokenFromContext ctx = t"
  shows "NewPropagateTransport d (Some b) req ctx =
     b (if t \<noteq> [] then req\<lparr>rq_Header := Values_Set HeaderName t (rq_Header req)\<rparr> else req) ctx"
  using assms by (simp add: NewPropagateTransport_def RoundTrip_def Let_def)

text \<open>Service A reports success whatever service B has answered, a refusal of the token included.\<close>

lemma service_a_ignores_answer:
  assumes "8 \<le> length (Values_Get (rq_Header r) ''Authorization'')"
    and "Exchange url_Parse Do c (service_a_exchange (drop 7 (Values_Get (rq_Header r) ''Authorization'')) addr) = Inr t"
    and "net url = (\<lambda>_ _. Inr resp)"
  shows "service_a_analyze url_Parse Do net c url path addr r ctx = json_ok (JObj [(''status'', JStr ''analyzed'')])"
  using assms by (simp add: service_a_analyze_def NewPropagateTransport_def RoundTrip_def Let_def)

lemma VerifyTxToken_OK:
  assumes "rs_Status (fst (VerifyTxToken verify nxt r ctx v)) = StatusOK"
  shows "Values_Get (rq_Header r) HeaderName \<noteq> [] \<and> (\<exists>c. fst (verify (Values_Get (rq_Header r) HeaderName) v) = Inr c)"
  using assms by (auto simp: VerifyTxToken_def writeVerifyError_def status_defs Let_def split: if_splits prod.splits sum.splits)

lemma retriever_OK:
  assumes "rs_Status (fst (retriever verify r v)) = StatusOK" "rq_Method r = ''GET''" "rq_Path r = ''/api/retrieve''"
  shows "Values_Get (rq_Header r) HeaderName \<noteq> [] \<and> (\<exists>c. fst (verify (Values_Get (rq_Header r) HeaderName) v) = Inr c)"
  using assms(1) by (intro VerifyTxToken_OK [of verify retriever_retrieve r "Some background" v])
    (simp add: retriever_def mux_route_def method_matches_def agent_paths assms(2,3))

lemma analyzer_OK:
  assumes "rs_Status (fst (analyzer verify r v)) = StatusOK" "rq_Method r = ''POST''" "rq_Path r = ''/api/analyze''"
  shows "Values_Get (rq_Header r) HeaderName \<noteq> [] \<and> (\<exists>c. fst (verify (Values_Get (rq_Header r) HeaderName) v) = Inr c)"
  using assms(1) by (intro VerifyTxToken_OK [of verify analyzer_analyze r "Some background" v])
    (simp add: analyzer_def mux_route_def method_matches_def agent_paths assms(2,3))

text \<open>A research request that is answered with 200 got 200 from both agents.\<close>

lemma orchestrator_OK:
  assumes "orchestrator_research fmt url_Parse net retrieverURL analyzerURL analyzerPath r ctx0 = Some resp" "rs_Status resp = StatusOK"
  obtains req path query retrieverResp body analyzerResp where
    "decode_researchRequest (rq_Body r) = Inr req"
    "url_Parse (retrieve_url retrieverURL (rr_Company req)) = Inr (path, query)"
    "NewPropagateTransport (net (retrieve_url retrieverURL (rr_Company req)))
       (Some (net (retrieve_url retrieverURL (rr_Company req)))) (get_request path query)
       (if Values_Get (rq_Header r) HeaderName \<noteq> [] then WithToken ctx0 (Values_Get (rq_Header r) HeaderName) else ctx0) = Inr retrieverResp"
    "rs_Status retrieverResp = StatusOK"
    "NewPropagateTransport (net (analyzerURL @ ''/api/analyze'')) (Some (net (analyzerURL @ ''/api/analyze'')))
       \<lparr>rq_Method = ''POST'', rq_Path = analyzerPath, rq_RawQuery = [], rq_Header = [(''Content-Type'', [''application/json''])], rq_Body = body\<rparr>
       (if Values_Get (rq_Header r) HeaderName \<noteq> [] then WithToken ctx0 (Values_Get (rq_Header r) HeaderName) else ctx0) = Inr analyzerResp"
    "rs_Status analyzerResp = StatusOK"
  using assms unfolding orchestrator_research_def HeaderName_def [symmetric] Let_def
  by (auto simp: http_Error_def status_defs StatusBadGateway_def split: sum.splits prod.splits if_splits)

text \<open>
  C30. The agents example: with retriever and analyzer behind the verification middleware, the orchestrator answers a research
  request with 200 only if the request carried a transaction token and this very token verified at both agents.
\<close>

theorem research_requires_verified_token:
  assumes "orchestrator_research fmt url_Parse net retrieverURL analyzerURL ''/api/analyze'' r (Some background) = Some resp"
    and "rs_Status resp = StatusOK"
    and "\<forall>c path query. url_Parse (retrieve_url retrieverURL c) = Inr (path, query) \<longrightarrow> path = ''/api/retrieve''"
    and "\<forall>c. net (retrieve_url retrieverURL c) = (\<lambda>req _. Inr (fst (retriever verify req v1)))"
    and "net (analyzerURL @ ''/api/analyze'') = (\<lambda>req _. Inr (fst (analyzer verify req v2)))"
  shows "\<exists>c1 c2. Values_Get (rq_Header r) HeaderName \<noteq> [] \<and>
     fst (verify (Values_Get (rq_Header r) HeaderName) v1) = Inr c1 \<and> fst (verify (Values_Get (rq_Header r) HeaderName) v2) = Inr c2"
proof -
  let ?t = "Values_Get (rq_Header r) HeaderName"
  let ?ctx = "if ?t \<noteq> [] then WithToken (Some background) ?t else Some background"
  have ctx: "TokenFromContext ?ctx = ?t" by (simp add: TokenFromContext_def WithToken_def withToken_def non_nil_def background_def)
  have set: "Values_Get (Values_Set HeaderName t h) HeaderName = t" for t h by (simp add: Values_Get_def Values_Set_def)
  have empty: "Values_Get [] HeaderName = []" "Values_Get [(''Content-Type'', [''application/json''])] HeaderName = []"
    by (simp_all add: Values_Get_def HeaderName_def)
  from assms(1,2) show ?thesis
  proof (cases rule: orchestrator_OK)
    case (1 req path query resp1 body resp2)
    let ?r1 = "if ?t \<noteq> [] then (get_request path query)\<lparr>rq_Header := Values_Set HeaderName ?t (rq_Header (get_request path query))\<rparr>
      else get_request path query"
    let ?areq = "\<lparr>rq_Method = ''POST'', rq_Path = ''/api/analyze'', rq_RawQuery = [],
      rq_Header = [(''Content-Type'', [''application/json''])], rq_Body = body\<rparr>"
    let ?r2 = "if ?t \<noteq> [] then ?areq\<lparr>rq_Header := Values_Set HeaderName ?t (rq_Header ?areq)\<rparr> else ?areq"
    have h: "Values_Get (rq_Header (get_request path query)) HeaderName = []" "Values_Get (rq_Header ?areq) HeaderName = []"
      using empty by (simp_all add: get_request_def)
    have path: "path = ''/api/retrieve''" using assms(3) 1(2) by blast
    have "resp1 = fst (retriever verify ?r1 v1)" "resp2 = fst (analyzer verify ?r2 v2)"
      using 1(3) [unfolded propagated [OF h(1) ctx] assms(4) [rule_format]] 1(5) [unfolded propagated [OF h(2) ctx] assms(5)]
      by (simp_all only: sum.inject)
    moreover have "rq_Method ?r1 = ''GET''" "rq_Path ?r1 = ''/api/retrieve''" "Values_Get (rq_Header ?r1) HeaderName = ?t"
      "rq_Method ?r2 = ''POST''" "rq_Path ?r2 = ''/api/analyze''" "Values_Get (rq_Header ?r2) HeaderName = ?t"
      using set h by (simp_all add: get_request_def path)
    ultimately have "?t \<noteq> [] \<and> (\<exists>c. fst (verify ?t v1) = Inr c)" "\<exists>c. fst (verify ?t v2) = Inr c"
      using retriever_OK [of verify ?r1 v1] analyzer_OK [of verify ?r2 v2] 1(4,6) by simp_all
    then show ?thesis by blast
  qed
qed

text \<open>The analyzer reads the request that the orchestrator has sent.\<close>

lemma json_Decode_Marshal: "json_clean v \<Longrightarrow> json_Decode (json_Marshal v) = Inr v"
  using json_value_Marshal [of v "[]" "json_fuel (json_Marshal v)"]
  by (simp add: json_Decode_def json_fuel_def ends_number_def)

lemma string_elements_map [simp]: "string_elements (map JStr ss) = Inr ss"
  by (induction ss) simp_all

lemma analyzer_reads_body:
  assumes "utf8_valid (rr_Company req)" "utf8_valid (rr_Period req)" "utf8_valid (rr_Question req)" "\<forall>d\<in>set docs. utf8_valid d"
  shows "decode_analyzeRequest (analyzer_body req (Some docs)) =
     Inr \<lparr>an_Company = rr_Company req, an_Period = rr_Period req, an_Question = rr_Question req, an_Documents = docs\<rparr>"
proof -
  let ?v = "JObj [(''company'', JStr (rr_Company req)), (''documents'', JArr (map JStr docs)), (''period'', JStr (rr_Period req)),
    (''question'', JStr (rr_Question req))]"
  have names: "utf8_valid ''company''" "utf8_valid ''documents''" "utf8_valid ''period''" "utf8_valid ''question''"
    by (simp_all add: ascii_utf8_valid code_def)
  have "json_clean ?v" using assms names by (simp add: list_all_iff)
  then have "json_Decode (json_Marshal ?v) = Inr ?v" by (rule json_Decode_Marshal)
  moreover have "analyzer_body req (Some docs) = json_Marshal ?v"
    by (simp add: analyzer_body_def slice_json_def)
  ultimately show ?thesis
    by (simp add: decode_analyzeRequest_def struct_members_def EqualFold_def ToLower_def lower_char_def code_def
        del: json_Marshal.simps)
qed

subsection \<open>Lemmas: identity provider\<close>

lemma idp_claims_lookup [simp]:
  "map_of (idp_claims issuer t email scope) ''iss'' = Some (JStr issuer)"
  "map_of (idp_claims issuer t email scope) ''sub'' = Some (JStr email)"
  "map_of (idp_claims issuer t email scope) ''email'' = Some (JStr email)"
  "map_of (idp_claims issuer t email scope) ''aud'' = Some (JStr ''demo-app'')"
  "map_of (idp_claims issuer t email scope) ''exp'' = Some (JNum (of_int (Unix (t + 3600 * nanos))))"
  "map_of (idp_claims issuer t email scope) ''nbf'' = None"
  by (simp_all add: idp_claims_def map_of_mput_all del: mput_all_simps)

lemma idp_jwt_fields [simp]:
  "jwt_Method (idp_jwt issuer t email scope k) = SigningMethodRSA ''RS256''"
  "map_of (jwt_Header (idp_jwt issuer t email scope k)) ''kid'' = Some (JStr k)"
  "jwt_Claims (idp_jwt issuer t email scope k) = idp_claims issuer t email scope"
  by (simp_all add: idp_jwt_def)

text \<open>To the verifiers of transaction tokens a token of the provider is a regular one.\<close>

lemma idp_jwt_regular: "idp_jwt issuer t email scope k = regular_jwt k (idp_claims issuer t email scope)"
  by (simp add: idp_jwt_def regular_jwt_def)

lemma jwt_wf_idp_jwt:
  assumes "utf8_valid issuer" "utf8_valid email" "utf8_valid scope" "utf8_valid k" "time_clean t" "time_clean (t + 3600 * nanos)"
  shows "jwt_wf (idp_jwt issuer t email scope k)"
proof -
  have keys: "utf8_valid ''iss''" "utf8_valid ''iat''" "utf8_valid ''exp''" "utf8_valid ''aud''" "utf8_valid ''sub''" "utf8_valid ''email''"
    "utf8_valid ''scope''" "utf8_valid ''demo-app''"
    by (rule ascii_utf8_valid, simp add: code_def)+
  have nums: "\<bar>rat_of_int (Unix t)\<bar> < 2 ^ 53" "\<bar>rat_of_int (Unix (t + 3600 * nanos))\<bar> < 2 ^ 53"
    using assms(5,6) unfolding time_clean_def by (metis of_int_abs of_int_less_iff of_int_numeral of_int_power)+
  have "list_all (\<lambda>(k, v). utf8_valid k \<and> json_clean v) (idp_claims issuer t email scope)"
    "list_all (\<lambda>(k::string, v). json_sorted v) (idp_claims issuer t email scope)"
    unfolding idp_claims_def using assms keys nums by (intro list_all_mput_all; simp)+
  moreover have "mwf (idp_claims issuer t email scope)" by (simp add: idp_claims_def del: mput_all_simps mput.simps)
  ultimately show ?thesis unfolding idp_jwt_regular using assms(4) by (intro jwt_wf_regular) simp_all
qed

text \<open>The keys an OIDC authenticator caches from the key endpoint of a manager.\<close>

definition jwkKey_of :: "PublicKey \<Rightarrow> jwkKey" where
  "jwkKey_of pk = \<lparr>jwk_Kty = Kty pk, jwk_Use = Use pk, jwk_Kid = Kid pk, jwk_N = N pk, jwk_E = E pk, jwk_Alg = Alg pk\<rparr>"

lemma decode_jwkKeys_json: "decode_jwkKeys (map (jwk_json \<circ> f) pks) = Inr (map (jwkKey_of \<circ> f) pks)"
  by (induction pks)
    (simp_all add: decode_jwkKey_def jwk_json_def struct_members_def jwkKey_of_def EqualFold_def ToLower_def lower_char_def code_def)

lemma decode_jwksResponse_manager:
  assumes "manager_ok m"
  shows "decode_jwksResponse (json_Encode (JWKSet (PublicKeys m))) = Inr (map (jwkKey_of \<circ> newPublicKey) (entries m))"
  using json_Decode_Encode [OF json_clean_JWKSet [OF assms]]
  by (simp add: decode_jwksResponse_def JWKSet_def struct_members_def decode_jwkKeys_json PublicKeys_entries)

lemma jwkToRSAPublicKey_of:
  "rsa_key_ok (privateKey e) \<Longrightarrow> jwkToRSAPublicKey (jwkKey_of (newPublicKey e)) = Inr (rsa_PublicKey (privateKey e))"
  using RSAPublicKey_newPublicKey [of e]
  by (auto simp: jwkToRSAPublicKey_def jwkKey_of_def RSAPublicKey_def bindr_Ok_iff)

lemma jwkKey_of_fields [simp]:
  "jwk_Kty (jwkKey_of (newPublicKey e)) = ''RSA''" "jwk_Use (jwkKey_of (newPublicKey e)) = ''sig''"
  "jwk_Kid (jwkKey_of (newPublicKey e)) = kid e"
  by (simp_all add: jwkKey_of_def)

lemma map_of_oidc_cache:
  assumes "distinct (map kid es)" "\<forall>e\<in>set es. rsa_key_ok (privateKey e)" "e \<in> set es"
  shows "map_of (oidc_cache (map (jwkKey_of \<circ> newPublicKey) es) ks) (kid e) = Some (rsa_PublicKey (privateKey e))"
  using assms
proof (induction es arbitrary: ks)
  case (Cons e0 es)
  have keep: "map_of (oidc_cache (map (jwkKey_of \<circ> newPublicKey) xs) ks) k = map_of ks k" if "k \<notin> kid ` set xs" for xs ks k
    using that by (induction xs arbitrary: ks) (auto split: sum.splits)
  show ?case
  proof (cases "e \<in> set es")
    case False
    with Cons.prems have "e = e0" "kid e0 \<notin> kid ` set es" by auto
    then show ?thesis using Cons.prems(2) keep [of "kid e0" es]
      by (auto simp: jwkToRSAPublicKey_of comp_def)
  qed (use Cons in \<open>auto simp: jwkToRSAPublicKey_of\<close>)
qed simp

text \<open>The identity provider as seen through the network.\<close>

definition serves_idp :: "http_get \<Rightarrow> jwt_signer \<Rightarrow> int \<Rightarrow> string \<Rightarrow> Manager \<Rightarrow> bool" where
  "serves_idp Get sign t issuer m \<longleftrightarrow> (\<forall>path. Get (issuer @ path) = Inr (mock_idp sign t issuer m (get_request path [])))"

lemma idp_routes:
  "mock_idp sign t issuer m (get_request ''/.well-known/openid-configuration'' []) = idp_discovery issuer"
  "mock_idp sign t issuer m (get_request ''/.well-known/jwks.json'' []) = JWKSHandler m (get_request ''/.well-known/jwks.json'' [])"
  "rq_Method r = ''POST'' \<Longrightarrow> rq_Path r = ''/token'' \<Longrightarrow> mock_idp sign t issuer m r = idp_token sign t issuer m r"
proof -
  have c: "cleanPath ''/.well-known/openid-configuration'' = ''/.well-known/openid-configuration''"
    "cleanPath ''/.well-known/jwks.json'' = ''/.well-known/jwks.json''" "cleanPath ''/token'' = ''/token''" by code_simp+
  show "mock_idp sign t issuer m (get_request ''/.well-known/openid-configuration'' []) = idp_discovery issuer"
    "mock_idp sign t issuer m (get_request ''/.well-known/jwks.json'' []) = JWKSHandler m (get_request ''/.well-known/jwks.json'' [])"
    "rq_Method r = ''POST'' \<Longrightarrow> rq_Path r = ''/token'' \<Longrightarrow> mock_idp sign t issuer m r = idp_token sign t issuer m r"
    by (simp_all add: mock_idp_def mux_route_def method_matches_def get_request_def c)
qed

lemma discover_idp:
  assumes "serves_idp Get sign t issuer m" "\<forall>c\<in>set issuer. code c < 128" "oa_issuerURL a = issuer"
    "oa_discoveryURL a = issuer @ ''/.well-known/openid-configuration''"
  shows "discoverJWKSURL Get a = Inr (issuer @ ''/.well-known/jwks.json'')"
proof -
  have "utf8_valid ''issuer''" "utf8_valid ''jwks_uri''" by (rule ascii_utf8_valid, simp add: code_def)+
  moreover have "utf8_valid issuer" "utf8_valid (issuer @ ''/.well-known/jwks.json'')"
    using assms(2) by (auto intro!: ascii_utf8_valid simp: code_def)
  ultimately have "json_clean (JObj [(''issuer'', JStr issuer), (''jwks_uri'', JStr (issuer @ ''/.well-known/jwks.json''))])" by simp
  note dec = json_Decode_Encode [OF this]
  have "Get (oa_discoveryURL a) = Inr (idp_discovery issuer)"
    using assms(1) unfolding serves_idp_def assms(4) by (simp only: idp_routes)
  then show ?thesis
    using dec by (simp add: discoverJWKSURL_def idp_discovery_def json_ok_def struct_members_def EqualFold_def ToLower_def lower_char_def
        code_def assms(3))
qed

lemma idp_key_found:
  assumes "serves_idp Get sign t issuer m" "manager_ok m" "distinct (map kid (entries m))" "\<forall>c\<in>set issuer. code c < 128"
    and "oa_issuerURL a = issuer" "oa_discoveryURL a = issuer @ ''/.well-known/openid-configuration''" "oa_jwksURL a = []" "oa_keys a = []"
  shows "fst (oidc_keyFunc Get (idp_jwt issuer t' email scope (kid (current m))) a) = Inr (rsa_PublicKey (privateKey (current m)))"
proof -
  have cur: "current m \<in> set (entries m)" by (simp add: entries_def)
  have ok: "\<forall>e\<in>set (entries m). rsa_key_ok (privateKey e)" using assms(2) by (simp add: manager_ok_def entry_ok_def)
  have "Get (issuer @ ''/.well-known/jwks.json'') = Inr (JWKSHandler m (get_request ''/.well-known/jwks.json'' []))"
    using assms(1) unfolding serves_idp_def by (simp only: idp_routes)
  then have "oidc_fetchJWKS Get a =
      (None, a\<lparr>oa_jwksURL := issuer @ ''/.well-known/jwks.json'', oa_keys := oidc_cache (map (jwkKey_of \<circ> newPublicKey) (entries m)) []\<rparr>)"
    using discover_idp [OF assms(1,4,5,6)] assms(7,8)
    by (simp add: oidc_fetchJWKS_def oidc_fetch_from_def JWKSHandler_def get_request_def decode_jwksResponse_manager [OF assms(2)])
  then show ?thesis
    using map_of_oidc_cache [OF assms(3) ok cur, of "[]"] assms(8) by (simp add: oidc_keyFunc_def)
qed

text \<open>
  C31. The identity provider of the example and the token service fit together: a token the provider issues for an email
  address, with whatever scope, is accepted for the next hour by an OIDC authenticator configured for the provider's issuer and
  audience, which finds the signing key through discovery and the key endpoint; the subject is the email address.
\<close>

theorem idp_token_authenticates:
  assumes "jwt_Sign_spec sign decode sig_ok" "jwt_Parse_spec Parse decode sig_ok"
    and "manager_ok m" "distinct (map kid (entries m))" "serves_idp Get sign t issuer m"
    and "\<forall>c\<in>set issuer. code c < 128" "issuer \<noteq> []" "\<not> HasSuffix issuer ''/''"
    and "utf8_valid email" "email \<noteq> []" "utf8_valid scope" "scope \<noteq> []"
    and "rq_Method r = ''POST''" "rq_Path r = ''/token''" "json_Decode (rq_Body r) = Inr (JObj [(''email'', JStr email), (''scope'', JStr scope)])"
    and "sign (idp_jwt issuer t email scope (kid (current m))) (privateKey (current m)) = Inr tok"
    and "time_clean t" "time_clean (t + 3600 * nanos)" "alive t (3600 * nanos) now"
    and "NewOIDCAuthenticator NewEnv
       \<lparr>ac_Issuer = \<lparr>ic_URL = issuer, ic_DiscoveryURL = [], ic_Audiences = [''demo-app''], ic_AudienceMatchPolicy = policy\<rparr>,
        ac_ClaimValidationRules = [],
        ac_ClaimMappings = \<lparr>cm_Subject = \<lparr>ce_Claim = ''email'', ce_Expression = []\<rparr>, cm_Extra = []\<rparr>\<rparr> = Inr a"
  shows "mock_idp sign t issuer m r = json_ok (JObj [(''access_token'', JStr tok), (''token_type'', JStr ''Bearer'')]) \<and>
     fst (oidc_Authenticate Parse Get now tok a) = Some (Inr \<lparr>si_Subject = email, si_Extra = []\<rparr>)"
proof
  have k: "SigningKey m = (privateKey (current m), kid (current m))" by (simp add: SigningKey_def)
  show "mock_idp sign t issuer m r = json_ok (JObj [(''access_token'', JStr tok), (''token_type'', JStr ''Bearer'')])"
    unfolding idp_routes(3) [OF assms(13,14)]
    using assms(10,12,15,16) by (simp add: idp_token_def struct_members_def EqualFold_def ToLower_def lower_char_def code_def k)
  have a: "oa_issuerURL a = issuer" "oa_discoveryURL a = issuer @ ''/.well-known/openid-configuration''" "oa_jwksURL a = []" "oa_keys a = []"
    "oa_validationRules a = []" "oa_extraMappings a = []" "map_of (oa_audiences a) ''demo-app'' = Some True"
    "cm_Subject (ac_ClaimMappings (oa_config a)) = \<lparr>ce_Claim = ''email'', ce_Expression = []\<rparr>"
    using assms(8,20)
    by (auto simp: NewOIDCAuthenticator_def bindr_Ok_iff compileValidationRules_def compileExtraMappings_def TrimSuffix_def Let_def)
  have kid: "utf8_valid (kid (current m))" using manager_current [OF assms(3)] by simp
  have issuer: "utf8_valid issuer" using assms(6) by (rule ascii_utf8_valid)
  have tok: "decode tok = Some (idp_jwt issuer t email scope (kid (current m)))" "sig_ok tok (rsa_PublicKey (privateKey (current m)))"
    using assms(1,16) jwt_wf_idp_jwt [OF issuer assms(9,11) kid assms(17,18)] unfolding jwt_Sign_spec_def by blast+
  have "claims_valid [WithIssuer issuer] now (idp_claims issuer t email scope)"
    using assms(19) by (simp add: claims_valid_def not_expired_def already_valid_def numeric_date_def alive_def)
  moreover have "fst (oidc_keyFunc Get (idp_jwt issuer t email scope (kid (current m))) a) = Inr (rsa_PublicKey (privateKey (current m)))"
    by (rule idp_key_found [OF assms(5,3,4,6) a(1-4)])
  ultimately show "fst (oidc_Authenticate Parse Get now tok a) = Some (Inr \<lparr>si_Subject = email, si_Extra = []\<rparr>)"
    unfolding oidc_Authenticate_Ok_iff [OF assms(2)] oidc_accepts_def
    using tok by (intro exI [of _ "idp_jwt issuer t email scope (kid (current m))"] exI [of _ "rsa_PublicKey (privateKey (current m))"])
      (simp add: a GetAudience_def evaluateSubjectMapping_def evaluateExtraMappings_def)
qed

subsection \<open>Concrete services\<close>

definition demo_idp_get :: http_get where
  "demo_idp_get url = Inr (mock_idp ref_sign demo_now ''http://idp'' demo_manager (get_request (drop 10 url) []))"

definition demo_login :: request where
  "demo_login = \<lparr>rq_Method = ''POST'', rq_Path = ''/token'', rq_RawQuery = [], rq_Header = [],
     rq_Body = json_Encode (JObj [(''email'', JStr ''a@b''), (''scope'', JStr ''read'')])\<rparr>"

theorem idp_token_authenticates_witness:
  "\<exists>a tok. mock_idp ref_sign demo_now ''http://idp'' demo_manager demo_login =
       json_ok (JObj [(''access_token'', JStr tok), (''token_type'', JStr ''Bearer'')]) \<and>
     fst (oidc_Authenticate (ref_Parse ref_decode ref_sig_ok) demo_idp_get (demo_now + nanos) tok a) = Some (Inr \<lparr>si_Subject = ''a@b'', si_Extra = []\<rparr>)"
proof -
  obtain a where a: "NewOIDCAuthenticator demo_NewEnv
       \<lparr>ac_Issuer = \<lparr>ic_URL = ''http://idp'', ic_DiscoveryURL = [], ic_Audiences = [''demo-app''], ic_AudienceMatchPolicy = []\<rparr>,
        ac_ClaimValidationRules = [],
        ac_ClaimMappings = \<lparr>cm_Subject = \<lparr>ce_Claim = ''email'', ce_Expression = []\<rparr>, cm_Extra = []\<rparr>\<rparr> = Inr a"
    by (simp add: NewOIDCAuthenticator_def newCELEnv_def demo_NewEnv_def compileValidationRules_def compileSubjectMapping_def
        compileExtraMappings_def Let_def)
  obtain tok where tok: "ref_sign (idp_jwt ''http://idp'' demo_now ''a@b'' ''read'' (kid (current demo_manager))) (privateKey (current demo_manager)) = Inr tok"
    by (simp add: ref_sign_def del: Join.simps json_Marshal.simps)
  have u: "utf8_valid ''a@b''" "utf8_valid ''email''" "utf8_valid ''scope''" by (rule ascii_utf8_valid, simp add: code_def)+
  have body: "json_Decode (rq_Body demo_login) = Inr (JObj [(''email'', JStr ''a@b''), (''scope'', JStr ''read'')])"
    unfolding demo_login_def request.simps using u ascii_literal by (intro json_Decode_Encode) simp
  have idp: "serves_idp demo_idp_get ref_sign demo_now ''http://idp'' demo_manager" by (simp add: serves_idp_def demo_idp_get_def)
  have t: "time_clean (demo_now + 3600 * nanos)" "alive demo_now (3600 * nanos) (demo_now + nanos)"
    by (simp_all add: time_clean_def alive_def Unix_def demo_now_def nanos_def)
  have i: "\<forall>c\<in>set ''http://idp''. code c < 128" "\<not> HasSuffix ''http://idp'' ''/''" by (simp_all add: code_def HasSuffix_def HasPrefix_def)
  have r: "rq_Method demo_login = ''POST''" "rq_Path demo_login = ''/token''" by (simp_all add: demo_login_def)
  from idp_token_authenticates [OF ref_sign_spec ref_Parse_spec demo_manager_ok idp i(1) _ i(2) u(1) _ ascii_literal(5) _ r body tok demo_times(1) t a]
  show ?thesis by auto
qed

definition demo_research :: request where
  "demo_research = \<lparr>rq_Method = ''POST'', rq_Path = ''/api/research'', rq_RawQuery = [], rq_Header = [(HeaderName, [''tok''])], rq_Body = ''{}''\<rparr>"

definition demo_verify :: "string \<Rightarrow> Verifier \<Rightarrow> Claims res \<times> Verifier" where
  "demo_verify = verify_Verify demo_Parse demo_Get (demo_now + nanos)"

definition demo_net :: "string \<Rightarrow> round_tripper" where
  "demo_net url req ctx =
     (if HasPrefix url ''http://r'' then Inr (fst (retriever demo_verify req (verify_New ''u'' ''td'')))
      else Inr (fst (analyzer demo_verify req (verify_New ''u'' ''td''))))"

definition demo_url_Parse :: "string \<Rightarrow> (string \<times> string) res" where
  "demo_url_Parse url = Inr (''/api/retrieve'', [])"

lemma demo_agents:
  assumes "Values_Get (rq_Header r) HeaderName = ''tok''"
  shows "rq_Method r = ''GET'' \<Longrightarrow> rq_Path r = ''/api/retrieve'' \<Longrightarrow>
      fst (retriever demo_verify r (verify_New ''u'' ''td'')) = retriever_retrieve r (withToken (withClaims (Some background) demo_old) ''tok'')"
    "rq_Method r = ''POST'' \<Longrightarrow> rq_Path r = ''/api/analyze'' \<Longrightarrow>
      fst (analyzer demo_verify r (verify_New ''u'' ''td'')) = analyzer_analyze r (withToken (withClaims (Some background) demo_old) ''tok'')"
  using demo_remote_verified assms
  by (auto simp: retriever_def analyzer_def mux_route_def method_matches_def agent_paths VerifyTxToken_def demo_verify_def Let_def
      split: prod.splits sum.splits)

definition demo_question :: researchRequest where
  "demo_question = \<lparr>rr_Company = [], rr_Period = [], rr_Question = []\<rparr>"

lemma demo_question_decoded: "decode_researchRequest ''{}'' = Inr demo_question"
  by code_simp

lemma demo_documents_decoded:
  "lenient_slice ''documents'' (lenient_members (json_Encode (JObj [(''documents'', JArr (map JStr (retriever_documents ''ACME'')))]))) None =
     Some (retriever_documents ''ACME'')"
proof -
  have "list_all utf8_valid (''documents'' # retriever_documents ''ACME'')"
    by (simp add: retriever_documents_def ascii_utf8_valid code_def)
  then have "json_clean (JObj [(''documents'', JArr (map JStr (retriever_documents ''ACME'')))])" by (simp add: list_all_iff)
  from json_Decode_Encode [OF this] show ?thesis by (simp add: lenient_members_def lenient_elements_def comp_def)
qed

lemma demo_analyzed: "is_Ok (decode_analyzeRequest (analyzer_body demo_question (Some (retriever_documents ''ACME''))))"
proof -
  have "\<forall>d\<in>set (retriever_documents ''ACME''). utf8_valid d"
    by (simp add: retriever_documents_def ascii_utf8_valid code_def)
  then show ?thesis by (subst analyzer_reads_body) (simp_all add: demo_question_def)
qed

lemma orchestrator_answers:
  assumes "decode_researchRequest (rq_Body r) = Inr req" "Values_Get (rq_Header r) HeaderName = t" "t \<noteq> []"
    and "url_Parse (retrieve_url retrieverURL (rr_Company req)) = Inr (path, query)"
    and "NewPropagateTransport (net (retrieve_url retrieverURL (rr_Company req))) (Some (net (retrieve_url retrieverURL (rr_Company req))))
       (get_request path query) (WithToken ctx0 t) = Inr r1" "rs_Status r1 = StatusOK"
    and "lenient_slice ''documents'' (lenient_members (body_bytes fmt (rs_Body r1))) None = docs"
    and "NewPropagateTransport (net (analyzerURL @ ''/api/analyze'')) (Some (net (analyzerURL @ ''/api/analyze'')))
       \<lparr>rq_Method = ''POST'', rq_Path = analyzerPath, rq_RawQuery = [], rq_Header = [(''Content-Type'', [''application/json''])],
        rq_Body = analyzer_body req docs\<rparr> (WithToken ctx0 t) = Inr r2" "rs_Status r2 = StatusOK"
  shows "\<exists>resp. orchestrator_research fmt url_Parse net retrieverURL analyzerURL analyzerPath r ctx0 = Some resp \<and> rs_Status resp = StatusOK"
  using assms unfolding orchestrator_research_def HeaderName_def [symmetric] Let_def by (simp add: json_ok_def)

theorem research_requires_verified_token_witness:
  "\<exists>resp c. orchestrator_research (\<lambda>_. []) demo_url_Parse demo_net ''http://r'' ''http://a'' ''/api/analyze'' demo_research (Some background) = Some resp \<and>
     rs_Status resp = StatusOK \<and> fst (demo_verify ''tok'' (verify_New ''u'' ''td'')) = Inr c"
proof -
  let ?O = "orchestrator_research (\<lambda>_. []) demo_url_Parse demo_net ''http://r'' ''http://a'' ''/api/analyze'' demo_research (Some background)"
  have tok: "Values_Get (rq_Header demo_research) HeaderName = ''tok''" by (simp add: demo_research_def Values_Get_def)
  have net: "demo_net (retrieve_url ''http://r'' c) = (\<lambda>req _. Inr (fst (retriever demo_verify req (verify_New ''u'' ''td''))))"
    "demo_net (''http://a'' @ ''/api/analyze'') = (\<lambda>req _. Inr (fst (analyzer demo_verify req (verify_New ''u'' ''td''))))" for c
    by (simp_all add: demo_net_def retrieve_url_def HasPrefix_def fun_eq_iff)
  obtain analysis where an: "decode_analyzeRequest (analyzer_body demo_question (Some (retriever_documents ''ACME''))) = Inr analysis"
    using demo_analyzed by (auto simp: is_Ok_iff)
  have ctx: "TokenFromContext (WithToken (Some background) ''tok'') = ''tok''"
    by (simp add: TokenFromContext_def WithToken_def withToken_def)
  have h: "Values_Get (rq_Header (get_request p q)) HeaderName = []" "Values_Get [(''Content-Type'', [''application/json''])] HeaderName = []" for p q
    by (simp_all add: get_request_def Values_Get_def HeaderName_def)
  have set: "Values_Get (Values_Set HeaderName ''tok'' hs) HeaderName = ''tok''" for hs by (simp add: Values_Get_def Values_Set_def)
  let ?h1 = "Values_Set HeaderName ''tok'' []" and ?h2 = "Values_Set HeaderName ''tok'' [(''Content-Type'', [''application/json''])]"
  let ?v = "verify_New ''u'' ''td''" and ?ctx = "WithToken (Some background) ''tok''"
  have p1: "NewPropagateTransport d (Some (\<lambda>req _. Inr (fst (retriever demo_verify req ?v)))) (get_request ''/api/retrieve'' []) ?ctx =
      Inr (json_ok (JObj [(''documents'', JArr (map JStr (retriever_documents ''ACME'')))]))" for d
    using demo_agents(1) [of "(get_request ''/api/retrieve'' [])\<lparr>rq_Header := ?h1\<rparr>"] set [of "[]"]
    by (subst propagated [OF h(1) ctx])
      (simp add: retriever_retrieve_def get_request_def ParseQuery_def parse_segment_def Contains_def Values_Get_def [of "[]"])
  have p2: "NewPropagateTransport d (Some (\<lambda>req _. Inr (fst (analyzer demo_verify req ?v))))
       \<lparr>rq_Method = ''POST'', rq_Path = ''/api/analyze'', rq_RawQuery = [], rq_Header = [(''Content-Type'', [''application/json''])],
        rq_Body = analyzer_body demo_question (Some (retriever_documents ''ACME''))\<rparr> ?ctx =
      Inr (json_ok (JObj [(''analysis'', JStr (analyzer_text analysis))]))" for d
    using demo_agents(2) [of "\<lparr>rq_Method = ''POST'', rq_Path = ''/api/analyze'', rq_RawQuery = [], rq_Header = ?h2,
        rq_Body = analyzer_body demo_question (Some (retriever_documents ''ACME''))\<rparr>"] set
    by (subst propagated [OF _ ctx]) (simp_all add: h(2) analyzer_analyze_def an)
  have d: "decode_researchRequest (rq_Body demo_research) = Inr demo_question" by (simp add: demo_research_def demo_question_decoded)
  have u: "demo_url_Parse (retrieve_url ''http://r'' (rr_Company demo_question)) = Inr (''/api/retrieve'', [])" by (simp add: demo_url_Parse_def)
  have ok: "rs_Status (json_ok v) = StatusOK" "body_bytes fmt (rs_Body (json_ok v)) = json_Encode v" for v fmt by (simp_all add: json_ok_def)
  let ?R1 = "json_ok (JObj [(''documents'', JArr (map JStr (retriever_documents ''ACME'')))])" and ?u = "retrieve_url ''http://r'' (rr_Company demo_question)"
  have n: "NewPropagateTransport (demo_net ?u) (Some (demo_net ?u)) (get_request ''/api/retrieve'' []) ?ctx = Inr ?R1"
    "lenient_slice ''documents'' (lenient_members (body_bytes (\<lambda>_. []) (rs_Body ?R1))) None = Some (retriever_documents ''ACME'')"
    "NewPropagateTransport (demo_net (''http://a'' @ ''/api/analyze'')) (Some (demo_net (''http://a'' @ ''/api/analyze'')))
       \<lparr>rq_Method = ''POST'', rq_Path = ''/api/analyze'', rq_RawQuery = [], rq_Header = [(''Content-Type'', [''application/json''])],
        rq_Body = analyzer_body demo_question (Some (retriever_documents ''ACME''))\<rparr> ?ctx =
      Inr (json_ok (JObj [(''analysis'', JStr (analyzer_text analysis))]))"
    unfolding net ok(2) by (rule p1 demo_documents_decoded p2)+
  have "\<exists>resp. ?O = Some resp \<and> rs_Status resp = StatusOK"
    by (rule orchestrator_answers [of demo_research demo_question "''tok''" demo_url_Parse "''http://r''" "''/api/retrieve''" "[]" demo_net
          "Some background" ?R1 "\<lambda>_. []" "Some (retriever_documents ''ACME'')" "''http://a''" "''/api/analyze''",
          OF d tok _ u n(1) ok(1) n(2,3) ok(1)]) simp
  then show ?thesis
    using research_requires_verified_token [of "\<lambda>_. []" demo_url_Parse demo_net "''http://r''" "''http://a''" demo_research _ demo_verify
        "verify_New ''u'' ''td''" "verify_New ''u'' ''td''"] net tok by (auto simp: demo_url_Parse_def)
qed

end
