(* ===== verification/GoMemory.thy ===== *)
theory GoMemory
  imports Prelude
begin

text \<open>
  Go memory as far as copies of values depend on it. Structs are values; slices, maps and pointers refer to cells of a store,
  which only grows. A value is read along its type into a tree without addresses, together with the addresses of the cells
  it consists of, so that two values can have the same content and share nothing.

  The statements from which copying functions are built (an assignment, \<open>make\<close> with \<open>copy\<close> or with a loop over the elements,
  a loop over the entries of a map, \<open>new\<close>) are functions on the store, and the contract \<open>deep_copier\<close> says what a copy of a
  value of some type has to be.
\<close>

text \<open>Facts about the statements of copying functions, for the simplifier.\<close>

named_theorems deep_copies

subsection \<open>Types, values and the store\<close>

datatype lit = LStr string | LBool bool | LInt int

datatype gotype =
    TString
  | TBool
  | TInt
  | TStruct "(string \<times> gotype) list"
  | TSlice gotype
  | TMap gotype
  | TPtr gotype

text \<open>A slice is given by its array, the offset and the length; \<open>GNil\<close> is a nil slice, map or pointer.\<close>

datatype gv =
    GLit lit
  | GStruct "(string \<times> gv) list"
  | GNil
  | GSlice nat nat nat
  | GMap nat
  | GPtr nat

datatype cell = CArray "gv list" | CMap "(string \<times> gv) list" | CVar gv

type_synonym store = "cell list"

type_synonym copier = "gv \<Rightarrow> store \<Rightarrow> gv \<times> store"

fun zero_value :: "gotype \<Rightarrow> gv" where
  "zero_value TString = GLit (LStr [])"
| "zero_value TBool = GLit (LBool False)"
| "zero_value TInt = GLit (LInt 0)"
| "zero_value (TStruct fs) = GStruct (map (\<lambda>(n, ty). (n, zero_value ty)) fs)"
| "zero_value _ = GNil"

definition slice_elems :: "store \<Rightarrow> nat \<Rightarrow> nat \<Rightarrow> nat \<Rightarrow> gv list option" where
  "slice_elems st a off n =
     (if a < length st
        then (case st ! a of CArray xs \<Rightarrow> if off + n \<le> length xs then Some (take n (drop off xs)) else None | _ \<Rightarrow> None)
      else None)"

definition map_entries :: "store \<Rightarrow> nat \<Rightarrow> (string \<times> gv) list option" where
  "map_entries st a =
     (if a < length st then (case st ! a of CMap kvs \<Rightarrow> if mwf kvs then Some kvs else None | _ \<Rightarrow> None) else None)"

definition deref :: "store \<Rightarrow> nat \<Rightarrow> gv option" where
  "deref st a = (if a < length st then (case st ! a of CVar v \<Rightarrow> Some v | _ \<Rightarrow> None) else None)"

subsection \<open>Reading a value\<close>

datatype tree =
    Leaf lit
  | Node "(string \<times> tree) list"
  | NilTree
  | Seq "tree list"
  | Dict "(string \<times> tree) list"
  | Ref tree

fun denote_all :: "('v \<Rightarrow> ('t \<times> nat list) option) \<Rightarrow> 'v list \<Rightarrow> ('t list \<times> nat list) option" where
  "denote_all f [] = Some ([], [])"
| "denote_all f (x # xs) =
     (case f x of
        None \<Rightarrow> None
      | Some (t, as) \<Rightarrow> (case denote_all f xs of None \<Rightarrow> None | Some (ts, bs) \<Rightarrow> Some (t # ts, as @ bs)))"

fun denote :: "gotype \<Rightarrow> store \<Rightarrow> gv \<Rightarrow> (tree \<times> nat list) option"
  and denote_fields :: "(string \<times> gotype) list \<Rightarrow> store \<Rightarrow> (string \<times> gv) list \<Rightarrow> ((string \<times> tree) list \<times> nat list) option" where
  "denote TString st v = (case v of GLit (LStr s) \<Rightarrow> Some (Leaf (LStr s), []) | _ \<Rightarrow> None)"
| "denote TBool st v = (case v of GLit (LBool b) \<Rightarrow> Some (Leaf (LBool b), []) | _ \<Rightarrow> None)"
| "denote TInt st v = (case v of GLit (LInt i) \<Rightarrow> Some (Leaf (LInt i), []) | _ \<Rightarrow> None)"
| "denote (TStruct fs) st v =
     (case v of
        GStruct vs \<Rightarrow> (case denote_fields fs st vs of None \<Rightarrow> None | Some (ts, as) \<Rightarrow> Some (Node ts, as))
      | _ \<Rightarrow> None)"
| "denote (TSlice ty) st v =
     (case v of
        GNil \<Rightarrow> Some (NilTree, [])
      | GSlice a off n \<Rightarrow>
          (case slice_elems st a off n of
             None \<Rightarrow> None
           | Some xs \<Rightarrow> (case denote_all (denote ty st) xs of None \<Rightarrow> None | Some (ts, as) \<Rightarrow> Some (Seq ts, a # as)))
      | _ \<Rightarrow> None)"
| "denote (TMap ty) st v =
     (case v of
        GNil \<Rightarrow> Some (NilTree, [])
      | GMap a \<Rightarrow>
          (case map_entries st a of
             None \<Rightarrow> None
           | Some kvs \<Rightarrow>
               (case denote_all (\<lambda>(_, v). denote ty st v) kvs of
                  None \<Rightarrow> None
                | Some (ts, as) \<Rightarrow> Some (Dict (zip (map fst kvs) ts), a # as)))
      | _ \<Rightarrow> None)"
| "denote (TPtr ty) st v =
     (case v of
        GNil \<Rightarrow> Some (NilTree, [])
      | GPtr a \<Rightarrow>
          (case deref st a of
             None \<Rightarrow> None
           | Some x \<Rightarrow> (case denote ty st x of None \<Rightarrow> None | Some (t, as) \<Rightarrow> Some (Ref t, a # as)))
      | _ \<Rightarrow> None)"
| "denote_fields [] st vs = (if vs = [] then Some ([], []) else None)"
| "denote_fields ((n, ty) # fs) st vs =
     (case vs of
        [] \<Rightarrow> None
      | (m, v) # vs' \<Rightarrow>
          if m \<noteq> n then None
          else
            (case denote ty st v of
               None \<Rightarrow> None
             | Some (t, as) \<Rightarrow>
                 (case denote_fields fs st vs' of None \<Rightarrow> None | Some (ts, bs) \<Rightarrow> Some ((n, t) # ts, as @ bs))))"

text \<open>Types without references: their values are copied by assignment.\<close>

fun flat :: "gotype \<Rightarrow> bool" where
  "flat TString = True"
| "flat TBool = True"
| "flat TInt = True"
| "flat (TStruct fs) = (\<forall>(_, ty)\<in>set fs. flat ty)"
| "flat _ = False"

subsection \<open>Copying\<close>

text \<open>\<open>out.X = in.X\<close>\<close>

definition assign :: copier where
  "assign v st = (v, st)"

text \<open>\<open>*out = make([]T, len( *in)); copy( *out, *in)\<close>\<close>

definition slice_copy :: "gotype \<Rightarrow> copier" where
  "slice_copy ty v st =
     (case v of
        GSlice a off n \<Rightarrow>
          (case slice_elems st a off n of
             None \<Rightarrow> (v, st)
           | Some xs \<Rightarrow>
               (let b = length st; st1 = st @ [CArray (replicate n (zero_value ty))]
                in (GSlice b 0 n, st1[b := CArray xs])))
      | _ \<Rightarrow> (v, st))"

text \<open>\<open>*out = make([]T, len( *in)); for i := range *in { ( *in)[i].DeepCopyInto(&( *out)[i]) }\<close>\<close>

definition set_elem :: "nat \<Rightarrow> nat \<Rightarrow> gv \<Rightarrow> store \<Rightarrow> store" where
  "set_elem b i y st = (case st ! b of CArray ys \<Rightarrow> st[b := CArray (ys[i := y])] | _ \<Rightarrow> st)"

fun copy_elems :: "copier \<Rightarrow> nat \<Rightarrow> nat \<Rightarrow> gv list \<Rightarrow> store \<Rightarrow> store" where
  "copy_elems into b i [] st = st"
| "copy_elems into b i (x # xs) st = (case into x st of (y, st1) \<Rightarrow> copy_elems into b (Suc i) xs (set_elem b i y st1))"

definition slice_deep :: "gotype \<Rightarrow> copier \<Rightarrow> copier" where
  "slice_deep ty into v st =
     (case v of
        GSlice a off n \<Rightarrow>
          (case slice_elems st a off n of
             None \<Rightarrow> (v, st)
           | Some xs \<Rightarrow>
               (let b = length st; st1 = st @ [CArray (replicate n (zero_value ty))]
                in (GSlice b 0 n, copy_elems into b 0 xs st1)))
      | _ \<Rightarrow> (v, st))"

text \<open>\<open>*out = make(map[string]T, len( *in)); for key, val := range *in { ( *out)[key] = val }\<close>\<close>

definition map_copy :: "((string \<times> gv) list \<Rightarrow> (string \<times> gv) list) \<Rightarrow> copier" where
  "map_copy order v st =
     (case v of
        GMap a \<Rightarrow>
          (case map_entries st a of
             None \<Rightarrow> (v, st)
           | Some kvs \<Rightarrow> (let b = length st; st1 = st @ [CMap []] in (GMap b, st1[b := CMap (mput_all (order kvs) [])])))
      | _ \<Rightarrow> (v, st))"

text \<open>\<open>*out = new(T); ( *in).DeepCopyInto( *out)\<close>, and with \<open>assign\<close> also \<open>**out = **in\<close>.\<close>

definition new_copy :: "gotype \<Rightarrow> copier \<Rightarrow> copier" where
  "new_copy ty into v st =
     (case v of
        GPtr a \<Rightarrow>
          (case deref st a of
             None \<Rightarrow> (v, st)
           | Some x \<Rightarrow>
               (let b = length st; (y, st1) = into x (st @ [CVar (zero_value ty)])
                in (GPtr b, st1[b := CVar y])))
      | _ \<Rightarrow> (v, st))"

text \<open>\<open>*out = *in\<close>, followed by the statements for some of the fields.\<close>

definition set_field :: "string \<Rightarrow> gv \<Rightarrow> (string \<times> gv) list \<Rightarrow> (string \<times> gv) list" where
  "set_field n v vs = map (\<lambda>(m, w). (m, if m = n then v else w)) vs"

fun field_copies :: "(string \<times> copier) list \<Rightarrow> (string \<times> gv) list \<Rightarrow> (string \<times> gv) list \<Rightarrow> store \<Rightarrow> (string \<times> gv) list \<times> store" where
  "field_copies [] inp out st = (out, st)"
| "field_copies ((n, into) # ups) inp out st =
     (case map_of inp n of
        None \<Rightarrow> field_copies ups inp out st
      | Some v \<Rightarrow> (case into v st of (v', st') \<Rightarrow> field_copies ups inp (set_field n v' out) st'))"

definition struct_copy :: "(string \<times> copier) list \<Rightarrow> copier" where
  "struct_copy ups v st =
     (case v of
        GStruct vs \<Rightarrow> (case field_copies ups vs vs st of (out, st') \<Rightarrow> (GStruct out, st'))
      | _ \<Rightarrow> (v, st))"

subsection \<open>Frame\<close>

lemma denote_all_cong:
  assumes "denote_all f xs = Some (ts, as)" "\<And>x t bs. x \<in> set xs \<Longrightarrow> f x = Some (t, bs) \<Longrightarrow> set bs \<subseteq> set as \<Longrightarrow> g x = Some (t, bs)"
  shows "denote_all g xs = Some (ts, as)"
  using assms
proof (induction xs arbitrary: ts as)
  case (Cons x xs)
  obtain t bs ts' cs where x: "f x = Some (t, bs)" "denote_all f xs = Some (ts', cs)" "ts = t # ts'" "as = bs @ cs"
    using Cons.prems(1) by (auto split: option.splits)
  moreover have "g x = Some (t, bs)" using Cons.prems(2) [of x t bs] x by simp
  moreover have "denote_all g xs = Some (ts', cs)" using x by (intro Cons.IH Cons.prems(2)) auto
  ultimately show ?case by simp
qed simp

lemma cells_agree:
  assumes "a < length st'" "st' ! a = st ! a"
  shows "slice_elems st a off n = Some xs \<Longrightarrow> slice_elems st' a off n = Some xs"
    "map_entries st a = Some kvs \<Longrightarrow> map_entries st' a = Some kvs"
    "deref st a = Some x \<Longrightarrow> deref st' a = Some x"
  using assms by (auto simp: slice_elems_def map_entries_def deref_def split: if_splits)

text \<open>What a value of each type reads as.\<close>

lemma denote_slice:
  "denote (TSlice ty) st v = Some (t, as) \<longleftrightarrow>
     v = GNil \<and> t = NilTree \<and> as = [] \<or>
     (\<exists>a off n xs ts bs. v = GSlice a off n \<and> slice_elems st a off n = Some xs \<and> denote_all (denote ty st) xs = Some (ts, bs) \<and>
        t = Seq ts \<and> as = a # bs)"
  by (cases v) (auto split: option.splits)

lemma denote_map:
  "denote (TMap ty) st v = Some (t, as) \<longleftrightarrow>
     v = GNil \<and> t = NilTree \<and> as = [] \<or>
     (\<exists>a kvs ts bs. v = GMap a \<and> map_entries st a = Some kvs \<and> denote_all (\<lambda>(_, v). denote ty st v) kvs = Some (ts, bs) \<and>
        t = Dict (zip (map fst kvs) ts) \<and> as = a # bs)"
  by (cases v) (auto split: option.splits)

lemma denote_ptr:
  "denote (TPtr ty) st v = Some (t, as) \<longleftrightarrow>
     v = GNil \<and> t = NilTree \<and> as = [] \<or>
     (\<exists>a x t' bs. v = GPtr a \<and> deref st a = Some x \<and> denote ty st x = Some (t', bs) \<and> t = Ref t' \<and> as = a # bs)"
  by (cases v) (auto split: option.splits)

lemma denote_struct:
  "denote (TStruct fs) st v = Some (t, as) \<longleftrightarrow> (\<exists>vs ts. v = GStruct vs \<and> denote_fields fs st vs = Some (ts, as) \<and> t = Node ts)"
  by (cases v) (auto split: option.splits)

lemma denote_fields_Cons:
  "denote_fields ((n, ty) # fs) st vs = Some (ts, as) \<longleftrightarrow>
     (\<exists>v vs' t bs ts' cs. vs = (n, v) # vs' \<and> denote ty st v = Some (t, bs) \<and> denote_fields fs st vs' = Some (ts', cs) \<and>
        ts = (n, t) # ts' \<and> as = bs @ cs)"
  by (cases vs) (auto split: option.splits if_splits)

declare denote.simps (4-7) [simp del] denote_fields.simps (2) [simp del]

text \<open>A value reads the same in every store that has the same cells at its addresses.\<close>

lemma denote_frame:
  "denote ty st v = Some (t, as) \<Longrightarrow> (\<forall>a\<in>set as. a < length st' \<and> st' ! a = st ! a) \<Longrightarrow> denote ty st' v = Some (t, as)"
  "denote_fields fs st vs = Some (ts, as) \<Longrightarrow> (\<forall>a\<in>set as. a < length st' \<and> st' ! a = st ! a) \<Longrightarrow>
     denote_fields fs st' vs = Some (ts, as)"
proof (induction ty st v and fs st vs arbitrary: t as and ts as rule: denote_denote_fields.induct)
  case (4 fs st v)
  then obtain vs ts where "v = GStruct vs" "denote_fields fs st vs = Some (ts, as)" "t = Node ts" by (auto simp: denote_struct)
  with "4.IH" [of vs ts as] "4.prems"(2) show ?case by (simp add: denote_struct)
next
  case (5 ty st v)
  show ?case
  proof (cases "v = GNil")
    case False
    with "5.prems"(1) obtain a off n xs ts bs where v: "v = GSlice a off n" "slice_elems st a off n = Some xs" "t = Seq ts"
      "as = a # bs" and xs: "denote_all (denote ty st) xs = Some (ts, bs)"
      unfolding denote_slice by blast
    have "slice_elems st' a off n = Some xs" using v "5.prems"(2) by (auto intro!: cells_agree(1) [of a st' st])
    moreover have "denote_all (denote ty st') xs = Some (ts, bs)"
      using xs by (rule denote_all_cong) (rule "5.IH" [OF v(1,2)], assumption, use v(4) "5.prems"(2) in auto)
    ultimately show ?thesis using v by (simp add: denote_slice)
  qed (use "5.prems"(1) in \<open>simp add: denote_slice\<close>)
next
  case (6 ty st v)
  show ?case
  proof (cases "v = GNil")
    case False
    with "6.prems"(1) obtain a kvs ts bs where v: "v = GMap a" "map_entries st a = Some kvs" "t = Dict (zip (map fst kvs) ts)"
      "as = a # bs" and kvs: "denote_all (\<lambda>(_, v). denote ty st v) kvs = Some (ts, bs)"
      unfolding denote_map by blast
    have "map_entries st' a = Some kvs" using v "6.prems"(2) by (auto intro!: cells_agree(2) [of a st' st])
    moreover have "denote_all (\<lambda>(_, v). denote ty st' v) kvs = Some (ts, bs)"
      using kvs
    proof (rule denote_all_cong)
      fix x t' cs
      assume x: "(case x of (_, v) \<Rightarrow> denote ty st v) = Some (t', cs)" "set cs \<subseteq> set bs"
      obtain k w where kw: "x = (k, w)" by (cases x)
      have "denote ty st' w = Some (t', cs)" by (rule "6.IH" [OF v(1,2)]) (use x kw v(4) "6.prems"(2) in auto)
      then show "(case x of (_, v) \<Rightarrow> denote ty st' v) = Some (t', cs)" by (simp add: kw)
    qed
    ultimately show ?thesis using v by (simp add: denote_map)
  qed (use "6.prems"(1) in \<open>simp add: denote_map\<close>)
next
  case (7 ty st v)
  show ?case
  proof (cases "v = GNil")
    case False
    with "7.prems"(1) obtain a x t' bs where v: "v = GPtr a" "deref st a = Some x" "t = Ref t'" "as = a # bs"
      and x: "denote ty st x = Some (t', bs)"
      unfolding denote_ptr by blast
    have "deref st' a = Some x" using v "7.prems"(2) by (auto intro!: cells_agree(3) [of a st' st])
    moreover have "denote ty st' x = Some (t', bs)" using "7.IH" [OF v(1,2) x] v "7.prems"(2) by simp
    ultimately show ?thesis using v x by (simp add: denote_ptr)
  qed (use "7.prems"(1) in \<open>simp add: denote_ptr\<close>)
next
  case (9 n ty fs st vs)
  from "9.prems"(1) obtain v vs' t bs ts' cs where r: "vs = (n, v) # vs'" "denote ty st v = Some (t, bs)"
    "denote_fields fs st vs' = Some (ts', cs)" "ts = (n, t) # ts'" "as = bs @ cs"
    unfolding denote_fields_Cons by blast
  have "denote ty st' v = Some (t, bs)" "denote_fields fs st' vs' = Some (ts', cs)"
    using "9.IH"(1) [of "(n, v)" vs' n v t bs] "9.IH"(2) [of "(n, v)" vs' n v "(t, bs)" t bs ts' cs] r "9.prems"(2) by auto
  with r show ?case by (simp add: denote_fields_Cons)
qed (auto split: gv.splits lit.splits if_splits)

text \<open>The addresses of a value are allocated, so a value is not affected by what is allocated later.\<close>

lemma denote_all_addresses:
  "denote_all f xs = Some (ts, as) \<Longrightarrow> a \<in> set as \<Longrightarrow> \<exists>x\<in>set xs. \<exists>t bs. f x = Some (t, bs) \<and> a \<in> set bs"
  by (induction xs arbitrary: ts as) (auto split: option.splits)

lemma denote_allocated:
  "denote ty st v = Some (t, as) \<Longrightarrow> a \<in> set as \<Longrightarrow> a < length st"
  "denote_fields fs st vs = Some (ts, as) \<Longrightarrow> a \<in> set as \<Longrightarrow> a < length st"
proof (induction ty st v and fs st vs arbitrary: t as and ts as rule: denote_denote_fields.induct)
  case (5 ty st v)
  then obtain b off n xs ts bs where v: "v = GSlice b off n" "slice_elems st b off n = Some xs" "as = b # bs"
    "denote_all (denote ty st) xs = Some (ts, bs)"
    by (auto simp: denote_slice)
  have "b < length st" using v(2) by (auto simp: slice_elems_def split: if_splits)
  with "5.IH" [OF v(1,2)] "5.prems"(2) v denote_all_addresses [OF v(4), of a] show ?case by auto
next
  case (6 ty st v)
  then obtain b kvs ts bs where v: "v = GMap b" "map_entries st b = Some kvs" "as = b # bs"
    "denote_all (\<lambda>(_, v). denote ty st v) kvs = Some (ts, bs)"
    by (auto simp: denote_map)
  have "b < length st" using v(2) by (auto simp: map_entries_def split: if_splits)
  with "6.IH" [OF v(1,2)] "6.prems"(2) v denote_all_addresses [OF v(4), of a] show ?case by auto
next
  case (7 ty st v)
  then obtain b x t' bs where v: "v = GPtr b" "deref st b = Some x" "as = b # bs" "denote ty st x = Some (t', bs)"
    by (auto simp: denote_ptr)
  have "b < length st" using v(2) by (auto simp: deref_def split: if_splits)
  with "7.IH" [OF v(1,2,4)] "7.prems"(2) v(3) show ?case by auto
next
  case (9 n ty fs st vs)
  then obtain v vs' t bs ts' cs where r: "vs = (n, v) # vs'" "denote ty st v = Some (t, bs)"
    "denote_fields fs st vs' = Some (ts', cs)" "as = bs @ cs"
    unfolding denote_fields_Cons by blast
  show ?case
    using "9.IH"(1) [of "(n, v)" vs' n v t bs] "9.IH"(2) [of "(n, v)" vs' n v "(t, bs)" t bs ts' cs] r "9.prems"(2) by auto
qed (auto simp: denote_struct split: gv.splits lit.splits if_splits)

lemma denote_append:
  assumes "denote ty st v = Some (t, as)"
  shows "denote ty (st @ ys) v = Some (t, as)"
  using assms by (rule denote_frame(1)) (use denote_allocated(1) [OF assms] in \<open>fastforce simp: nth_append\<close>)

lemma denote_all_append: "denote_all (denote ty st) xs = Some (ts, as) \<Longrightarrow> denote_all (denote ty (st @ ys)) xs = Some (ts, as)"
  by (erule denote_all_cong) (rule denote_append)

lemma denote_update:
  assumes "denote ty st v = Some (t, as)" "b \<notin> set as"
  shows "denote ty (st[b := c]) v = Some (t, as)"
  using assms(1)
proof (rule denote_frame(1))
  show "\<forall>a\<in>set as. a < length (st[b := c]) \<and> st[b := c] ! a = st ! a"
    using denote_allocated(1) [OF assms(1)] assms(2) by (metis length_list_update nth_list_update_neq)
qed

lemma denote_all_update:
  assumes "denote_all (denote ty st) xs = Some (ts, as)" "b \<notin> set as"
  shows "denote_all (denote ty (st[b := c])) xs = Some (ts, as)"
  using assms(1) by (rule denote_all_cong) (use assms(2) in \<open>auto intro: denote_update\<close>)

text \<open>A flat value has no addresses and does not depend on the store.\<close>

lemma flat_denote:
  "flat ty \<Longrightarrow> denote ty st v = Some (t, as) \<Longrightarrow> as = []"
  "\<forall>(_, ty)\<in>set fs. flat ty \<Longrightarrow> denote_fields fs st vs = Some (ts, as) \<Longrightarrow> as = []"
proof (induction ty st v and fs st vs arbitrary: t as and ts as rule: denote_denote_fields.induct)
  case (9 n ty fs st vs)
  then obtain v vs' t bs ts' cs where r: "vs = (n, v) # vs'" "denote ty st v = Some (t, bs)"
    "denote_fields fs st vs' = Some (ts', cs)" "as = bs @ cs"
    unfolding denote_fields_Cons by blast
  show ?case
    using "9.IH"(1) [of "(n, v)" vs' n v t bs] "9.IH"(2) [of "(n, v)" vs' n v "(t, bs)" t bs ts' cs] r "9.prems"(1) by auto
qed (auto simp: denote_struct split: gv.splits lit.splits if_splits)

lemma flat_denote_store: "flat ty \<Longrightarrow> denote ty st v = Some (t, as) \<Longrightarrow> denote ty st' v = Some (t, [])"
  using flat_denote(1) [of ty st v t as] denote_frame(1) [of ty st v t "[]" st'] by simp

lemma flat_denote_all:
  "flat ty \<Longrightarrow> denote_all (\<lambda>x. denote ty st (f x)) xs = Some (ts, as) \<Longrightarrow>
     denote_all (\<lambda>x. denote ty st' (f x)) xs = Some (ts, []) \<and> as = []"
proof (induction xs arbitrary: ts as)
  case (Cons x xs)
  then obtain t bs ts' cs where x: "denote ty st (f x) = Some (t, bs)" "denote_all (\<lambda>x. denote ty st (f x)) xs = Some (ts', cs)"
    "ts = t # ts'" "as = bs @ cs"
    by (auto split: option.splits)
  then show ?case using Cons.IH [of ts' cs] Cons.prems(1) flat_denote_store [OF Cons.prems(1) x(1)] flat_denote(1) [OF Cons.prems(1) x(1)]
    by simp
qed simp

subsection \<open>The contract of a copy\<close>

text \<open>
  A copier leaves every cell of the store as it is and gives a value with the same content, all of whose cells are new and
  used once.
\<close>

locale deep_copier =
  fixes ty :: gotype and into :: copier
  assumes copies: "denote ty st v = Some (t, as) \<Longrightarrow>
    \<exists>v' ys bs. into v st = (v', st @ ys) \<and> denote ty (st @ ys) v' = Some (t, bs) \<and>
      set bs \<subseteq> {length st..<length st + length ys} \<and> distinct bs"
begin

text \<open>Original and copy have no cell in common: a write to a cell of one is not seen in the other.\<close>

lemma separate:
  assumes "denote ty st v = Some (t, as)"
  shows "\<exists>v' st' bs. into v st = (v', st') \<and> denote ty st' v = Some (t, as) \<and> denote ty st' v' = Some (t, bs) \<and>
     distinct bs \<and> set as \<inter> set bs = {} \<and>
     (\<forall>a c. a \<notin> set bs \<longrightarrow> denote ty (st'[a := c]) v' = Some (t, bs)) \<and>
     (\<forall>a c. a \<notin> set as \<longrightarrow> denote ty (st'[a := c]) v = Some (t, as))"
proof -
  obtain v' ys bs where c: "into v st = (v', st @ ys)" "denote ty (st @ ys) v' = Some (t, bs)"
    "set bs \<subseteq> {length st..<length st + length ys}" "distinct bs"
    using copies [OF assms] by blast
  moreover have "set as \<inter> set bs = {}" using denote_allocated(1) [OF assms] c(3) by fastforce
  moreover have v: "denote ty (st @ ys) v = Some (t, as)" using assms by (rule denote_append)
  ultimately show ?thesis using denote_update [OF c(2)] denote_update [OF v] by blast
qed

end

lemma assign_deep [deep_copies]: "flat ty \<Longrightarrow> deep_copier ty assign"
proof
  fix st v t as
  assume "flat ty" "denote ty st v = Some (t, as)"
  with flat_denote(1) show "\<exists>v' ys bs. assign v st = (v', st @ ys) \<and> denote ty (st @ ys) v' = Some (t, bs) \<and>
      set bs \<subseteq> {length st..<length st + length ys} \<and> distinct bs"
    by (intro exI [of _ v] exI [of _ "[]"]) (auto simp: assign_def)
qed

text \<open>It is enough to look at values that are not nil.\<close>

lemma deep_copierI:
  assumes "denote ty st GNil = Some (t, as) \<Longrightarrow> as = []" "into GNil st = (GNil, st)"
  assumes "\<And>v. denote ty st v = Some (t, as) \<Longrightarrow> v \<noteq> GNil \<Longrightarrow>
    \<exists>v' ys bs. into v st = (v', st @ ys) \<and> denote ty (st @ ys) v' = Some (t, bs) \<and>
      set bs \<subseteq> {length st..<length st + length ys} \<and> distinct bs"
  shows "denote ty st v = Some (t, as) \<Longrightarrow>
    \<exists>v' ys bs. into v st = (v', st @ ys) \<and> denote ty (st @ ys) v' = Some (t, bs) \<and>
      set bs \<subseteq> {length st..<length st + length ys} \<and> distinct bs"
  using assms by (cases "v = GNil") (auto intro!: exI [of _ "[]"])

lemma slice_copy_deep [deep_copies]:
  assumes "flat ty"
  shows "deep_copier (TSlice ty) (slice_copy ty)"
proof (standard, rule deep_copierI)
  fix st v t as
  assume d: "denote (TSlice ty) st v = Some (t, as)" "v \<noteq> GNil"
  then obtain a off n xs ts bs where v: "v = GSlice a off n" "slice_elems st a off n = Some xs" "t = Seq ts"
    "denote_all (denote ty st) xs = Some (ts, bs)"
    unfolding denote_slice by blast
  let ?st = "st @ [CArray xs]"
  have n: "length xs = n" using v(2) by (auto simp: slice_elems_def split: if_splits cell.splits)
  have "slice_elems ?st (length st) 0 n = Some xs" using n by (simp add: slice_elems_def)
  with v(3) flat_denote_all [OF assms, of st "\<lambda>x. x" xs ts bs ?st] v(4) have "denote (TSlice ty) ?st (GSlice (length st) 0 n) = Some (t, [length st])"
    by (simp add: denote_slice)
  moreover have "slice_copy ty v st = (GSlice (length st) 0 n, ?st)" using v(1,2) by (simp add: slice_copy_def Let_def)
  ultimately show "\<exists>v' ys bs. slice_copy ty v st = (v', st @ ys) \<and> denote (TSlice ty) (st @ ys) v' = Some (t, bs) \<and>
      set bs \<subseteq> {length st..<length st + length ys} \<and> distinct bs"
    by (intro exI conjI) (assumption | simp)+
qed (simp_all add: denote_slice slice_copy_def)

lemma new_copy_deep [deep_copies]:
  assumes "deep_copier ty into"
  shows "deep_copier (TPtr ty) (new_copy ty into)"
proof (standard, rule deep_copierI)
  fix st v t as
  assume d: "denote (TPtr ty) st v = Some (t, as)" "v \<noteq> GNil"
  then obtain a x t' bs where v: "v = GPtr a" "deref st a = Some x" "t = Ref t'" "denote ty st x = Some (t', bs)"
    unfolding denote_ptr by blast
  let ?st = "st @ [CVar (zero_value ty)]" and ?b = "length st"
  obtain y ys cs where y: "into x ?st = (y, ?st @ ys)" "denote ty (?st @ ys) y = Some (t', cs)"
    "set cs \<subseteq> {length ?st..<length ?st + length ys}" "distinct cs"
    using deep_copier.copies [OF assms denote_append [OF v(4)], of "[CVar (zero_value ty)]"] by blast
  let ?st' = "st @ CVar y # ys"
  have b: "?b \<notin> set cs" using y(3) by auto
  have "denote ty ((?st @ ys)[?b := CVar y]) y = Some (t', cs)" using y(2) b by (rule denote_update)
  moreover have "deref ?st' ?b = Some y" by (simp add: deref_def)
  ultimately have "denote (TPtr ty) ?st' (GPtr ?b) = Some (t, ?b # cs)" using v(3) by (simp add: denote_ptr)
  moreover have "new_copy ty into v st = (GPtr ?b, ?st')" using v(1,2) y(1) by (simp add: new_copy_def Let_def)
  moreover have "set (?b # cs) \<subseteq> {length st..<length st + length (CVar y # ys)}" "distinct (?b # cs)" using y(3,4) b by auto
  ultimately show "\<exists>v' ys bs. new_copy ty into v st = (v', st @ ys) \<and> denote (TPtr ty) (st @ ys) v' = Some (t, bs) \<and>
      set bs \<subseteq> {length st..<length st + length ys} \<and> distinct bs"
    by blast
qed (simp_all add: denote_ptr new_copy_def)

lemma mput_all_permuted:
  assumes "mwf m" "mset xs = mset m"
  shows "mput_all xs [] = m"
proof (rule mwf_ext)
  have "mset (map fst xs) = mset (map fst m)" using assms(2) by (metis mset_map)
  then have "distinct (map fst (rev xs))" using mwf_distinct [OF assms(1)] by (metis distinct_rev mset_eq_imp_distinct_iff rev_map)
  moreover have "set (rev xs) = set m" using mset_eq_imp_set_eq [OF assms(2)] by simp
  ultimately have "map_of (rev xs) = map_of m" using map_of_inject_set mwf_distinct [OF assms(1)] by blast
  then show "map_of (mput_all xs []) = map_of m" by (simp add: map_of_mput_all del: mput_all_simps)
qed (use assms in simp_all)

lemma map_copy_deep [deep_copies]:
  assumes "flat ty" "\<And>kvs. mset (order kvs) = mset kvs"
  shows "deep_copier (TMap ty) (map_copy order)"
proof (standard, rule deep_copierI)
  fix st v t as
  assume "denote (TMap ty) st v = Some (t, as)" "v \<noteq> GNil"
  then obtain a kvs ts bs where v: "v = GMap a" "map_entries st a = Some kvs" "t = Dict (zip (map fst kvs) ts)"
    "denote_all (\<lambda>(_, v). denote ty st v) kvs = Some (ts, bs)"
    unfolding denote_map by blast
  let ?st = "st @ [CMap kvs]"
  have wf: "mwf kvs" using v(2) by (auto simp: map_entries_def split: if_splits cell.splits)
  then have "map_entries ?st (length st) = Some kvs" by (simp add: map_entries_def)
  moreover have "denote_all (\<lambda>(_, v). denote ty ?st v) kvs = Some (ts, [])"
    using flat_denote_all [OF assms(1), of st snd kvs ts bs ?st] v(4) by (simp add: case_prod_unfold)
  ultimately have "denote (TMap ty) ?st (GMap (length st)) = Some (t, [length st])" using v(3) by (simp add: denote_map)
  moreover have "map_copy order v st = (GMap (length st), ?st)"
    using v(1,2) mput_all_permuted [OF wf assms(2)] by (simp add: map_copy_def Let_def)
  ultimately show "\<exists>v' ys bs. map_copy order v st = (v', st @ ys) \<and> denote (TMap ty) (st @ ys) v' = Some (t, bs) \<and>
      set bs \<subseteq> {length st..<length st + length ys} \<and> distinct bs"
    by (intro exI conjI) (assumption | simp)+
qed (simp_all add: denote_map map_copy_def)

text \<open>The loop over the elements fills the new array from left to right.\<close>

lemma copy_elems_deep:
  assumes "deep_copier ty into"
  shows "denote_all (denote ty st0) xs = Some (ts, as) \<Longrightarrow> i + length xs \<le> length ws \<Longrightarrow>
     \<exists>ys us bs. copy_elems into (length st0) i xs (st0 @ CArray ws # zs) =
         st0 @ CArray (take i ws @ ys @ drop (i + length xs) ws) # zs @ us \<and>
       length ys = length xs \<and>
       denote_all (denote ty (st0 @ c # zs @ us)) ys = Some (ts, bs) \<and>
       set bs \<subseteq> {Suc (length st0 + length zs)..<Suc (length st0 + length zs + length us)} \<and> distinct bs"
proof (induction xs arbitrary: i ws zs ts as)
  case Nil
  then show ?case by (intro exI [of _ "[]"]) simp
next
  case (Cons x xs)
  let ?st = "st0 @ CArray ws # zs" and ?b = "length st0"
  obtain t as' ts' cs where x: "denote ty st0 x = Some (t, as')" "denote_all (denote ty st0) xs = Some (ts', cs)" "ts = t # ts'"
    using Cons.prems(1) by (auto split: option.splits)
  obtain y us bs where y: "into x ?st = (y, ?st @ us)" "denote ty (?st @ us) y = Some (t, bs)"
    "set bs \<subseteq> {length ?st..<length ?st + length us}" "distinct bs"
    using deep_copier.copies [OF assms denote_append [OF x(1)], of "CArray ws # zs"] by blast
  have len: "Suc i + length xs \<le> length (ws[i := y])" using Cons.prems(2) by simp
  obtain ys us' bs' where r: "copy_elems into ?b (Suc i) xs (st0 @ CArray (ws[i := y]) # zs @ us) =
      st0 @ CArray (take (Suc i) (ws[i := y]) @ ys @ drop (Suc i + length xs) (ws[i := y])) # (zs @ us) @ us'"
    "length ys = length xs" "denote_all (denote ty (st0 @ c # (zs @ us) @ us')) ys = Some (ts', bs')"
    "set bs' \<subseteq> {Suc (length st0 + length (zs @ us))..<Suc (length st0 + length (zs @ us) + length us')}" "distinct bs'"
    using Cons.IH [OF x(2) len, of "zs @ us"] by blast
  have "?b \<notin> set bs" using y(3) by auto
  from denote_append [OF denote_update [OF y(2) this, of c], of us']
  have "denote ty (st0 @ c # zs @ us @ us') y = Some (t, bs)" by simp
  moreover have "copy_elems into ?b i (x # xs) ?st = copy_elems into ?b (Suc i) xs (st0 @ CArray (ws[i := y]) # zs @ us)"
    using y(1) by (simp add: set_elem_def)
  moreover have "take (Suc i) (ws[i := y]) = take i ws @ [y]" using Cons.prems(2) by (simp add: take_Suc_conv_app_nth)
  moreover have "set bs \<inter> set bs' = {}" "set (bs @ bs') \<subseteq> {Suc (length st0 + length zs)..<Suc (length st0 + length zs + length (us @ us'))}"
    using y(3) r(4) by (fastforce, fastforce)
  ultimately show ?case using r y(4) x(3) by (intro exI [of _ "y # ys"] exI [of _ "us @ us'"] exI [of _ "bs @ bs'"]) simp
qed

lemma slice_deep_deep [deep_copies]:
  assumes "deep_copier ty into"
  shows "deep_copier (TSlice ty) (slice_deep ty into)"
proof (standard, rule deep_copierI)
  fix st v t as
  assume "denote (TSlice ty) st v = Some (t, as)" "v \<noteq> GNil"
  then obtain a off n xs ts bs where v: "v = GSlice a off n" "slice_elems st a off n = Some xs" "t = Seq ts"
    "denote_all (denote ty st) xs = Some (ts, bs)"
    unfolding denote_slice by blast
  let ?b = "length st" and ?zero = "replicate n (zero_value ty)"
  have n: "length xs = n" using v(2) by (auto simp: slice_elems_def split: if_splits cell.splits)
  obtain ys us cs where r: "copy_elems into ?b 0 xs (st @ [CArray ?zero]) = st @ CArray ys # us" "length ys = n"
    "denote_all (denote ty (st @ CArray ?zero # us)) ys = Some (ts, cs)"
    "set cs \<subseteq> {Suc ?b..<Suc (?b + length us)}" "distinct cs"
    using copy_elems_deep [OF assms v(4), of 0 ?zero "[]" "CArray ?zero"] n by auto
  have "?b \<notin> set cs" using r(4) by auto
  from denote_all_update [OF r(3) this, of "CArray ys"] have "denote_all (denote ty (st @ CArray ys # us)) ys = Some (ts, cs)" by simp
  moreover from r have "slice_elems (st @ CArray ys # us) ?b 0 n = Some ys" by (simp add: slice_elems_def)
  ultimately have "denote (TSlice ty) (st @ CArray ys # us) (GSlice ?b 0 n) = Some (t, ?b # cs)" using v(3) by (simp add: denote_slice)
  moreover have "slice_deep ty into v st = (GSlice ?b 0 n, st @ CArray ys # us)"
    using v(1,2) r(1) by (simp add: slice_deep_def Let_def)
  moreover have "set (?b # cs) \<subseteq> {?b..<?b + length (CArray ys # us)}" "distinct (?b # cs)" using r(4,5) by auto
  ultimately show "\<exists>v' ys bs. slice_deep ty into v st = (v', st @ ys) \<and> denote (TSlice ty) (st @ ys) v' = Some (t, bs) \<and>
      set bs \<subseteq> {length st..<length st + length ys} \<and> distinct bs"
    by blast
qed (simp_all add: denote_slice slice_deep_def)

text \<open>What some of the fields of a struct read as, by name.\<close>

definition fields_read ::
    "string set \<Rightarrow> (string \<times> gotype) list \<Rightarrow> store \<Rightarrow> (string \<times> gv) list \<Rightarrow> (string \<Rightarrow> tree) \<Rightarrow> (string \<Rightarrow> nat list) \<Rightarrow> bool" where
  "fields_read D fs st vs T A \<longleftrightarrow>
     list_all2 (\<lambda>(n, ty) (m, v). m = n \<and> (n \<in> D \<longrightarrow> denote ty st v = Some (T n, A n))) fs vs"

lemma fields_read_Cons:
  "fields_read D ((n, ty) # fs) st vs T A \<longleftrightarrow>
     (\<exists>v vs'. vs = (n, v) # vs' \<and> (n \<in> D \<longrightarrow> denote ty st v = Some (T n, A n)) \<and> fields_read D fs st vs' T A)"
  by (auto simp: fields_read_def list_all2_Cons1)

lemma fields_read_Nil [simp]: "fields_read D [] st vs T A \<longleftrightarrow> vs = []"
  by (auto simp: fields_read_def)

lemma denote_fields_read:
  "fst ` set fs \<subseteq> D \<Longrightarrow> fields_read D fs st vs T A \<Longrightarrow>
     denote_fields fs st vs = Some (map (\<lambda>(n, _). (n, T n)) fs, concat (map (\<lambda>(n, _). A n) fs))"
  by (induction fs arbitrary: vs) (auto simp: fields_read_Cons denote_fields_Cons)

lemma fields_read_fun_upd: "n \<notin> fst ` set fs \<Longrightarrow> fields_read D fs st vs (T(n := t)) (A(n := as)) \<longleftrightarrow> fields_read D fs st vs T A"
  by (induction fs arbitrary: vs) (auto simp: fields_read_Cons)

lemma fields_read_denote:
  "distinct (map fst fs) \<Longrightarrow> denote_fields fs st vs = Some (ts, as) \<Longrightarrow>
     \<exists>T A. fields_read UNIV fs st vs T A \<and> ts = map (\<lambda>(n, _). (n, T n)) fs"
proof (induction fs arbitrary: vs ts as)
  case (Cons f fs)
  obtain n ty where f: "f = (n, ty)" by (cases f)
  with Cons.prems(2) obtain v vs' t bs ts' cs where r: "vs = (n, v) # vs'" "denote ty st v = Some (t, bs)"
    "denote_fields fs st vs' = Some (ts', cs)" "ts = (n, t) # ts'"
    unfolding f denote_fields_Cons by blast
  obtain T A where TA: "fields_read UNIV fs st vs' T A" "ts' = map (\<lambda>(n, _). (n, T n)) fs"
    using Cons.IH [OF _ r(3)] Cons.prems(1) by auto
  have n: "n \<notin> fst ` set fs" using Cons.prems(1) f by simp
  then have "map (\<lambda>(m, _). (m, T m)) fs = map (\<lambda>(m, _). (m, (T(n := t)) m)) fs" by (auto simp: image_iff)
  then show ?case using r TA fields_read_fun_upd [OF n, of UNIV st vs' T t A bs] unfolding f
    by (intro exI [of _ "T(n := t)"] exI [of _ "A(n := bs)"]) (simp add: fields_read_Cons del: fun_upd_apply, simp)
qed (simp split: if_splits)

lemma fields_read_lookup:
  "fields_read D fs st vs T A \<Longrightarrow> map_of fs n = Some ty \<Longrightarrow> n \<in> D \<Longrightarrow> \<exists>v. map_of vs n = Some v \<and> denote ty st v = Some (T n, A n)"
proof (induction fs arbitrary: vs)
  case (Cons f fs)
  then show ?case by (cases f) (auto simp: fields_read_Cons split: if_splits)
qed simp

text \<open>Setting a field adds it to those that are known, provided the others are not disturbed.\<close>

lemma fields_read_set:
  assumes "\<And>ty w m. m \<in> D \<Longrightarrow> denote ty st w = Some (T m, A m) \<Longrightarrow> denote ty st' w = Some (T m, A m)" "n \<notin> D"
    and "\<And>m. m \<noteq> n \<Longrightarrow> B m = A m"
  shows "fields_read D fs st vs T A \<Longrightarrow> \<forall>ty. (n, ty) \<in> set fs \<longrightarrow> denote ty st' v = Some (T n, B n) \<Longrightarrow>
     fields_read (insert n D) fs st' (set_field n v vs) T B"
proof (induction fs arbitrary: vs)
  case (Cons f fs)
  then obtain m ty w vs' where f: "f = (m, ty)" "vs = (m, w) # vs'" "m \<in> D \<longrightarrow> denote ty st w = Some (T m, A m)"
    "fields_read D fs st vs' T A"
    by (cases f) (auto simp: fields_read_Cons)
  then have "fields_read (insert n D) fs st' (set_field n v vs') T B" using Cons.IH [of vs'] Cons.prems(2) by simp
  with f assms Cons.prems(2) show ?case by (auto simp: fields_read_Cons set_field_def)
qed (simp add: set_field_def)

lemma fields_read_flat:
  "fields_read UNIV fs st vs T A \<Longrightarrow> \<forall>(n, ty)\<in>set fs. n \<in> D \<longrightarrow> flat ty \<Longrightarrow> fields_read D fs st vs T (\<lambda>_. [])"
proof (induction fs arbitrary: vs)
  case (Cons f fs)
  then show ?case by (cases f) (auto simp: fields_read_Cons dest: flat_denote(1))
qed simp

text \<open>The statements for the fields, one after the other: \<open>D\<close> are the fields that need no more work.\<close>

definition fresh_fields :: "string set \<Rightarrow> (string \<Rightarrow> nat list) \<Rightarrow> nat \<Rightarrow> nat \<Rightarrow> bool" where
  "fresh_fields D A lo hi \<longleftrightarrow>
     (\<forall>n\<in>D. set (A n) \<subseteq> {lo..<hi} \<and> distinct (A n)) \<and> (\<forall>n\<in>D. \<forall>m\<in>D. n \<noteq> m \<longrightarrow> set (A n) \<inter> set (A m) = {})"

lemma fresh_fields_insert:
  assumes "fresh_fields D A lo mid" "set as \<subseteq> {mid..<hi}" "distinct as" "n \<notin> D" "lo \<le> mid" "mid \<le> hi"
  shows "fresh_fields (insert n D) (A(n := as)) lo hi"
proof -
  have "set (A m) \<inter> set as = {}" if "m \<in> D" for m using assms(1,2) that by (fastforce simp: fresh_fields_def)
  moreover have "set (A m) \<subseteq> {lo..<hi}" if "m \<in> D" for m using assms(1,6) that by (fastforce simp: fresh_fields_def)
  moreover have "set as \<subseteq> {lo..<hi}" using assms(2,5) by auto
  ultimately show ?thesis using assms(1,3,4) by (auto simp: fresh_fields_def)
qed

lemma field_copies_deep:
  assumes "distinct (map fst fs)" "fields_read UNIV fs st0 inp T A0"
  shows "\<forall>(n, into)\<in>set ups. \<exists>ty. map_of fs n = Some ty \<and> deep_copier ty into \<Longrightarrow> distinct (map fst ups) \<Longrightarrow>
     fst ` set ups \<inter> D = {} \<Longrightarrow> fields_read D fs (st0 @ zs) out T A \<Longrightarrow> fresh_fields D A (length st0) (length st0 + length zs) \<Longrightarrow>
     \<exists>out' ys A'. field_copies ups inp out (st0 @ zs) = (out', st0 @ zs @ ys) \<and>
       fields_read (fst ` set ups \<union> D) fs (st0 @ zs @ ys) out' T A' \<and>
       fresh_fields (fst ` set ups \<union> D) A' (length st0) (length st0 + length (zs @ ys))"
proof (induction ups arbitrary: D zs out A)
  case Nil
  then show ?case by (intro exI [of _ out] exI [of _ "[]"] exI [of _ A]) simp
next
  case (Cons up ups)
  obtain n into where up: "up = (n, into)" by (cases up)
  obtain ty where ty: "map_of fs n = Some ty" "deep_copier ty into" using Cons.prems(1) up by auto
  obtain v where v: "map_of inp n = Some v" "denote ty st0 v = Some (T n, A0 n)"
    using fields_read_lookup [OF assms(2) ty(1)] by blast
  obtain v' us bs where v': "into v (st0 @ zs) = (v', (st0 @ zs) @ us)" "denote ty ((st0 @ zs) @ us) v' = Some (T n, bs)"
    "set bs \<subseteq> {length (st0 @ zs)..<length (st0 @ zs) + length us}" "distinct bs"
    using deep_copier.copies [OF ty(2) denote_append [OF v(2)], of zs] by blast
  have n: "n \<notin> D" "n \<notin> fst ` set ups" "fst ` set ups \<inter> insert n D = {}" using Cons.prems(2,3) up by auto
  have "ty' = ty" if "(n, ty') \<in> set fs" for ty' using that ty(1) assms(1) by simp
  then have read: "fields_read (insert n D) fs (st0 @ zs @ us) (set_field n v' out) T (A(n := bs))"
    using v'(2) by (intro fields_read_set [OF _ n(1) _ Cons.prems(4)]) (auto dest: denote_append [of _ "st0 @ zs" _ _ _ us])
  have fresh: "fresh_fields (insert n D) (A(n := bs)) (length st0) (length st0 + length (zs @ us))"
    using v'(3) by (intro fresh_fields_insert [OF Cons.prems(5) _ v'(4) n(1)]) auto
  have "\<forall>(n, into)\<in>set ups. \<exists>ty. map_of fs n = Some ty \<and> deep_copier ty into" "distinct (map fst ups)"
    using Cons.prems(1,2) by auto
  from Cons.IH [OF this n(3) read fresh] obtain out' ys A' where
    "field_copies ups inp (set_field n v' out) (st0 @ zs @ us) = (out', st0 @ (zs @ us) @ ys)"
    "fields_read (fst ` set ups \<union> insert n D) fs (st0 @ (zs @ us) @ ys) out' T A'"
    "fresh_fields (fst ` set ups \<union> insert n D) A' (length st0) (length st0 + length ((zs @ us) @ ys))"
    by auto
  then show ?case using v(1) v'(1) by (intro exI [of _ out'] exI [of _ "us @ ys"] exI [of _ A']) (simp add: up)
qed

lemma concat_distinct:
  assumes "distinct (map fst fs)" "fresh_fields D A lo hi" "fst ` set fs \<subseteq> D"
  shows "distinct (concat (map (\<lambda>(n, _). A n) fs)) \<and> set (concat (map (\<lambda>(n, _). A n) fs)) \<subseteq> {lo..<hi}"
  using assms(1,3)
proof (induction fs)
  case (Cons f fs)
  obtain n ty where f: "f = (n, ty)" by (cases f)
  have "set (A n) \<inter> set (A m) = {}" if "(m, ty') \<in> set fs" for m ty'
    using that Cons.prems f assms(2) by (force simp: fresh_fields_def)
  moreover have "distinct (A n)" "set (A n) \<subseteq> {lo..<hi}" using Cons.prems(2) f assms(2) by (auto simp: fresh_fields_def)
  ultimately show ?case using Cons f by fastforce
qed simp

text \<open>
  A struct is copied deeply when every field that is not flat has a statement and every statement copies its field deeply.
\<close>

lemma struct_copy_deep:
  assumes "distinct (map fst fs)" "distinct (map fst ups)"
    and "\<forall>(n, into)\<in>set ups. \<exists>ty. map_of fs n = Some ty \<and> deep_copier ty into"
    and "\<forall>(n, ty)\<in>set fs. n \<notin> fst ` set ups \<longrightarrow> flat ty"
  shows "deep_copier (TStruct fs) (struct_copy ups)"
proof
  fix st v t as
  assume "denote (TStruct fs) st v = Some (t, as)"
  then obtain vs ts where v: "v = GStruct vs" "denote_fields fs st vs = Some (ts, as)" "t = Node ts" by (auto simp: denote_struct)
  obtain T A0 where T: "fields_read UNIV fs st vs T A0" "ts = map (\<lambda>(n, _). (n, T n)) fs"
    using fields_read_denote [OF assms(1) v(2)] by blast
  let ?D = "fst ` set fs - fst ` set ups"
  have "fields_read ?D fs st vs T (\<lambda>_. [])"
    using T(1) assms(4) by (intro fields_read_flat) auto
  then have read: "fields_read ?D fs (st @ []) vs T (\<lambda>_. [])" by simp
  have "fresh_fields ?D (\<lambda>_. []) (length st) (length st + length ([] :: store))" by (simp add: fresh_fields_def)
  from field_copies_deep [OF assms(1) T(1) assms(3,2) _ read this] obtain out ys A where
    r: "field_copies ups vs vs st = (out, st @ ys)" "fields_read (fst ` set ups \<union> ?D) fs (st @ ys) out T A"
    "fresh_fields (fst ` set ups \<union> ?D) A (length st) (length st + length ys)"
    by auto
  have D: "fst ` set fs \<subseteq> fst ` set ups \<union> ?D" by auto
  have "denote (TStruct fs) (st @ ys) (GStruct out) = Some (t, concat (map (\<lambda>(n, _). A n) fs))"
    using denote_fields_read [OF D r(2)] v(3) T(2) by (simp add: denote_struct)
  moreover have "struct_copy ups v st = (GStruct out, st @ ys)" using v(1) r(1) by (simp add: struct_copy_def)
  ultimately show "\<exists>v' ys bs. struct_copy ups v st = (v', st @ ys) \<and> denote (TStruct fs) (st @ ys) v' = Some (t, bs) \<and>
      set bs \<subseteq> {length st..<length st + length ys} \<and> distinct bs"
    using concat_distinct [OF assms(1) r(3) D] by blast
qed

end
