(* ===== verification/DeepCopy.thy ===== *)
theory DeepCopy
  imports GoMemory
begin

text \<open>
  The deep copies of the custom resources (\<open>api/v1alpha1/zz_generated.deepcopy.go\<close>) and their registration
  (\<open>groupversion_info.go\<close>). The client of the controllers hands out copies of the objects in its cache, made with these functions,
  so that a reconciler may change the status of what it was given.

  Each struct of \<open>types.go\<close> is given by its fields and their types, each \<open>DeepCopyInto\<close> by its statements in order. A struct starts
  as a plain copy (\<open>*out = *in\<close>); the nil checks are part of the statements. Types of the Kubernetes libraries, their copying
  functions, and the order in which a map is ranged over are parameters.
\<close>

record externals =
  ex_order :: "(string \<times> gv) list \<Rightarrow> (string \<times> gv) list"
  ex_TypeMeta :: gotype
  ex_ObjectMeta :: "gotype \<times> copier"
  ex_ListMeta :: "gotype \<times> copier"
  ex_LabelSelector :: "gotype \<times> copier"
  ex_Condition :: "gotype \<times> copier"

text \<open>What is assumed of them: a range visits every entry once, and the copies of the library are deep.\<close>

definition externals_ok :: "externals \<Rightarrow> bool" where
  "externals_ok ex \<longleftrightarrow>
     (\<forall>kvs. mset (ex_order ex kvs) = mset kvs) \<and> flat (ex_TypeMeta ex) \<and>
     deep_copier (fst (ex_ObjectMeta ex)) (snd (ex_ObjectMeta ex)) \<and> deep_copier (fst (ex_ListMeta ex)) (snd (ex_ListMeta ex)) \<and>
     deep_copier (fst (ex_LabelSelector ex)) (snd (ex_LabelSelector ex)) \<and> deep_copier (fst (ex_Condition ex)) (snd (ex_Condition ex))"

text \<open>A copy as a \<open>runtime.Object\<close>: no object for a nil pointer.\<close>

type_synonym object_copier = "gv \<Rightarrow> store \<Rightarrow> gv option \<times> store"

definition copy_object :: "copier \<Rightarrow> object_copier" where
  "copy_object copy v st = (case copy v st of (c, st') \<Rightarrow> if c \<noteq> GNil then (Some c, st') else (None, st'))"

subsection \<open>Service configuration\<close>

definition IssuerConfig_type :: gotype where
  "IssuerConfig_type = TStruct
     [(''URL'', TString), (''DiscoveryURL'', TString), (''Audiences'', TSlice TString),
      (''AudienceMatchPolicy'', TString)]"

definition IssuerConfig_DeepCopyInto :: copier where
  "IssuerConfig_DeepCopyInto = struct_copy
     [(''Audiences'', slice_copy TString)]"

definition IssuerConfig_DeepCopy :: copier where
  "IssuerConfig_DeepCopy = new_copy IssuerConfig_type IssuerConfig_DeepCopyInto"

definition ClaimValidationRule_type :: gotype where
  "ClaimValidationRule_type = TStruct
     [(''Expression'', TString), (''Message'', TString)]"

definition ClaimValidationRule_DeepCopyInto :: copier where
  "ClaimValidationRule_DeepCopyInto = struct_copy
     []"

definition ClaimValidationRule_DeepCopy :: copier where
  "ClaimValidationRule_DeepCopy = new_copy ClaimValidationRule_type ClaimValidationRule_DeepCopyInto"

definition ClaimOrExpression_type :: gotype where
  "ClaimOrExpression_type = TStruct
     [(''Claim'', TString), (''Expression'', TString)]"

definition ClaimOrExpression_DeepCopyInto :: copier where
  "ClaimOrExpression_DeepCopyInto = struct_copy
     []"

definition ClaimOrExpression_DeepCopy :: copier where
  "ClaimOrExpression_DeepCopy = new_copy ClaimOrExpression_type ClaimOrExpression_DeepCopyInto"

definition ExtraMapping_type :: gotype where
  "ExtraMapping_type = TStruct
     [(''Key'', TString), (''ValueExpression'', TString)]"

definition ExtraMapping_DeepCopyInto :: copier where
  "ExtraMapping_DeepCopyInto = struct_copy
     []"

definition ExtraMapping_DeepCopy :: copier where
  "ExtraMapping_DeepCopy = new_copy ExtraMapping_type ExtraMapping_DeepCopyInto"

definition ClaimMappings_type :: gotype where
  "ClaimMappings_type = TStruct
     [(''Subject'', ClaimOrExpression_type), (''Extra'', TSlice ExtraMapping_type)]"

definition ClaimMappings_DeepCopyInto :: copier where
  "ClaimMappings_DeepCopyInto = struct_copy
     [(''Subject'', assign), (''Extra'', slice_copy ExtraMapping_type)]"

definition ClaimMappings_DeepCopy :: copier where
  "ClaimMappings_DeepCopy = new_copy ClaimMappings_type ClaimMappings_DeepCopyInto"

definition SubjectTokenAuthenticator_type :: gotype where
  "SubjectTokenAuthenticator_type = TStruct
     [(''Issuer'', IssuerConfig_type), (''ClaimValidationRules'', TSlice ClaimValidationRule_type),
      (''ClaimMappings'', ClaimMappings_type)]"

definition SubjectTokenAuthenticator_DeepCopyInto :: copier where
  "SubjectTokenAuthenticator_DeepCopyInto = struct_copy
     [(''Issuer'', IssuerConfig_DeepCopyInto), (''ClaimValidationRules'', slice_copy ClaimValidationRule_type),
      (''ClaimMappings'', ClaimMappings_DeepCopyInto)]"

definition SubjectTokenAuthenticator_DeepCopy :: copier where
  "SubjectTokenAuthenticator_DeepCopy = new_copy SubjectTokenAuthenticator_type SubjectTokenAuthenticator_DeepCopyInto"

definition WorkloadAuthConfig_type :: gotype where
  "WorkloadAuthConfig_type = TStruct
     [(''Type'', TString)]"

definition WorkloadAuthConfig_DeepCopyInto :: copier where
  "WorkloadAuthConfig_DeepCopyInto = struct_copy
     []"

definition WorkloadAuthConfig_DeepCopy :: copier where
  "WorkloadAuthConfig_DeepCopy = new_copy WorkloadAuthConfig_type WorkloadAuthConfig_DeepCopyInto"

definition TokenDefaults_type :: gotype where
  "TokenDefaults_type = TStruct
     [(''TokenLifetime'', TString), (''SigningAlgorithm'', TString)]"

definition TokenDefaults_DeepCopyInto :: copier where
  "TokenDefaults_DeepCopyInto = struct_copy
     []"

definition TokenDefaults_DeepCopy :: copier where
  "TokenDefaults_DeepCopy = new_copy TokenDefaults_type TokenDefaults_DeepCopyInto"

definition TxTokenConfigSpec_type :: gotype where
  "TxTokenConfigSpec_type = TStruct
     [(''TrustDomain'', TString), (''Issuer'', TString), (''SubjectTokens'', TSlice SubjectTokenAuthenticator_type),
      (''WorkloadAuth'', WorkloadAuthConfig_type), (''Defaults'', TokenDefaults_type)]"

definition TxTokenConfigSpec_DeepCopyInto :: copier where
  "TxTokenConfigSpec_DeepCopyInto = struct_copy
     [(''SubjectTokens'', slice_deep SubjectTokenAuthenticator_type SubjectTokenAuthenticator_DeepCopyInto),
      (''WorkloadAuth'', assign), (''Defaults'', assign)]"

definition TxTokenConfigSpec_DeepCopy :: copier where
  "TxTokenConfigSpec_DeepCopy = new_copy TxTokenConfigSpec_type TxTokenConfigSpec_DeepCopyInto"

definition TxTokenConfigStatus_type :: "externals \<Rightarrow> gotype" where
  "TxTokenConfigStatus_type ex = TStruct
     [(''Conditions'', TSlice (fst (ex_Condition ex)))]"

definition TxTokenConfigStatus_DeepCopyInto :: "externals \<Rightarrow> copier" where
  "TxTokenConfigStatus_DeepCopyInto ex = struct_copy
     [(''Conditions'', slice_deep (fst (ex_Condition ex)) (snd (ex_Condition ex)))]"

definition TxTokenConfigStatus_DeepCopy :: "externals \<Rightarrow> copier" where
  "TxTokenConfigStatus_DeepCopy ex = new_copy (TxTokenConfigStatus_type ex) (TxTokenConfigStatus_DeepCopyInto ex)"

definition TxTokenConfig_type :: "externals \<Rightarrow> gotype" where
  "TxTokenConfig_type ex = TStruct
     [(''TypeMeta'', ex_TypeMeta ex), (''ObjectMeta'', fst (ex_ObjectMeta ex)), (''Spec'', TxTokenConfigSpec_type),
      (''Status'', TxTokenConfigStatus_type ex)]"

definition TxTokenConfig_DeepCopyInto :: "externals \<Rightarrow> copier" where
  "TxTokenConfig_DeepCopyInto ex = struct_copy
     [(''TypeMeta'', assign), (''ObjectMeta'', snd (ex_ObjectMeta ex)), (''Spec'', TxTokenConfigSpec_DeepCopyInto),
      (''Status'', TxTokenConfigStatus_DeepCopyInto ex)]"

definition TxTokenConfig_DeepCopy :: "externals \<Rightarrow> copier" where
  "TxTokenConfig_DeepCopy ex = new_copy (TxTokenConfig_type ex) (TxTokenConfig_DeepCopyInto ex)"

definition TxTokenConfig_DeepCopyObject :: "externals \<Rightarrow> object_copier" where
  "TxTokenConfig_DeepCopyObject ex = copy_object (TxTokenConfig_DeepCopy ex)"

definition TxTokenConfigList_type :: "externals \<Rightarrow> gotype" where
  "TxTokenConfigList_type ex = TStruct
     [(''TypeMeta'', ex_TypeMeta ex), (''ListMeta'', fst (ex_ListMeta ex)), (''Items'', TSlice (TxTokenConfig_type ex))]"

definition TxTokenConfigList_DeepCopyInto :: "externals \<Rightarrow> copier" where
  "TxTokenConfigList_DeepCopyInto ex = struct_copy
     [(''TypeMeta'', assign), (''ListMeta'', snd (ex_ListMeta ex)),
      (''Items'', slice_deep (TxTokenConfig_type ex) (TxTokenConfig_DeepCopyInto ex))]"

definition TxTokenConfigList_DeepCopy :: "externals \<Rightarrow> copier" where
  "TxTokenConfigList_DeepCopy ex = new_copy (TxTokenConfigList_type ex) (TxTokenConfigList_DeepCopyInto ex)"

definition TxTokenConfigList_DeepCopyObject :: "externals \<Rightarrow> object_copier" where
  "TxTokenConfigList_DeepCopyObject ex = copy_object (TxTokenConfigList_DeepCopy ex)"

subsection \<open>Transaction types\<close>

definition EndpointSpec_type :: gotype where
  "EndpointSpec_type = TStruct
     [(''Path'', TString), (''Method'', TString)]"

definition EndpointSpec_DeepCopyInto :: copier where
  "EndpointSpec_DeepCopyInto = struct_copy
     []"

definition EndpointSpec_DeepCopy :: copier where
  "EndpointSpec_DeepCopy = new_copy EndpointSpec_type EndpointSpec_DeepCopyInto"

definition TctxFieldMapping_type :: gotype where
  "TctxFieldMapping_type = TStruct
     [(''Source'', TString), (''Field'', TString), (''Required'', TBool)]"

definition TctxFieldMapping_DeepCopyInto :: copier where
  "TctxFieldMapping_DeepCopyInto = struct_copy
     []"

definition TctxFieldMapping_DeepCopy :: copier where
  "TctxFieldMapping_DeepCopy = new_copy TctxFieldMapping_type TctxFieldMapping_DeepCopyInto"

definition TctxEnrichment_type :: gotype where
  "TctxEnrichment_type = TStruct
     [(''Field'', TString), (''Enricher'', TString)]"

definition TctxEnrichment_DeepCopyInto :: copier where
  "TctxEnrichment_DeepCopyInto = struct_copy
     []"

definition TctxEnrichment_DeepCopy :: copier where
  "TctxEnrichment_DeepCopy = new_copy TctxEnrichment_type TctxEnrichment_DeepCopyInto"

definition TransactionTypeSpec_type :: gotype where
  "TransactionTypeSpec_type = TStruct
     [(''Endpoint'', EndpointSpec_type), (''Purpose'', TString), (''Scope'', TString),
      (''TctxMapping'', TMap TctxFieldMapping_type), (''TctxEnrichments'', TSlice TctxEnrichment_type),
      (''RctxFields'', TSlice TString), (''TokenLifetime'', TString)]"

definition TransactionTypeSpec_DeepCopyInto :: "externals \<Rightarrow> copier" where
  "TransactionTypeSpec_DeepCopyInto ex = struct_copy
     [(''Endpoint'', assign), (''TctxMapping'', map_copy (ex_order ex)),
      (''TctxEnrichments'', slice_copy TctxEnrichment_type), (''RctxFields'', slice_copy TString)]"

definition TransactionTypeSpec_DeepCopy :: "externals \<Rightarrow> copier" where
  "TransactionTypeSpec_DeepCopy ex = new_copy TransactionTypeSpec_type (TransactionTypeSpec_DeepCopyInto ex)"

definition TransactionTypeStatus_type :: "externals \<Rightarrow> gotype" where
  "TransactionTypeStatus_type ex = TStruct
     [(''Conditions'', TSlice (fst (ex_Condition ex))), (''ProducedTctxFields'', TSlice TString),
      (''EffectiveTokenLifetime'', TString)]"

definition TransactionTypeStatus_DeepCopyInto :: "externals \<Rightarrow> copier" where
  "TransactionTypeStatus_DeepCopyInto ex = struct_copy
     [(''Conditions'', slice_deep (fst (ex_Condition ex)) (snd (ex_Condition ex))),
      (''ProducedTctxFields'', slice_copy TString)]"

definition TransactionTypeStatus_DeepCopy :: "externals \<Rightarrow> copier" where
  "TransactionTypeStatus_DeepCopy ex = new_copy (TransactionTypeStatus_type ex) (TransactionTypeStatus_DeepCopyInto ex)"

definition TransactionType_type :: "externals \<Rightarrow> gotype" where
  "TransactionType_type ex = TStruct
     [(''TypeMeta'', ex_TypeMeta ex), (''ObjectMeta'', fst (ex_ObjectMeta ex)), (''Spec'', TransactionTypeSpec_type),
      (''Status'', TransactionTypeStatus_type ex)]"

definition TransactionType_DeepCopyInto :: "externals \<Rightarrow> copier" where
  "TransactionType_DeepCopyInto ex = struct_copy
     [(''TypeMeta'', assign), (''ObjectMeta'', snd (ex_ObjectMeta ex)),
      (''Spec'', TransactionTypeSpec_DeepCopyInto ex), (''Status'', TransactionTypeStatus_DeepCopyInto ex)]"

definition TransactionType_DeepCopy :: "externals \<Rightarrow> copier" where
  "TransactionType_DeepCopy ex = new_copy (TransactionType_type ex) (TransactionType_DeepCopyInto ex)"

definition TransactionType_DeepCopyObject :: "externals \<Rightarrow> object_copier" where
  "TransactionType_DeepCopyObject ex = copy_object (TransactionType_DeepCopy ex)"

definition TransactionTypeList_type :: "externals \<Rightarrow> gotype" where
  "TransactionTypeList_type ex = TStruct
     [(''TypeMeta'', ex_TypeMeta ex), (''ListMeta'', fst (ex_ListMeta ex)),
      (''Items'', TSlice (TransactionType_type ex))]"

definition TransactionTypeList_DeepCopyInto :: "externals \<Rightarrow> copier" where
  "TransactionTypeList_DeepCopyInto ex = struct_copy
     [(''TypeMeta'', assign), (''ListMeta'', snd (ex_ListMeta ex)),
      (''Items'', slice_deep (TransactionType_type ex) (TransactionType_DeepCopyInto ex))]"

definition TransactionTypeList_DeepCopy :: "externals \<Rightarrow> copier" where
  "TransactionTypeList_DeepCopy ex = new_copy (TransactionTypeList_type ex) (TransactionTypeList_DeepCopyInto ex)"

definition TransactionTypeList_DeepCopyObject :: "externals \<Rightarrow> object_copier" where
  "TransactionTypeList_DeepCopyObject ex = copy_object (TransactionTypeList_DeepCopy ex)"

subsection \<open>Service token requirements\<close>

definition ServiceReference_type :: gotype where
  "ServiceReference_type = TStruct
     [(''Name'', TString)]"

definition ServiceReference_DeepCopyInto :: copier where
  "ServiceReference_DeepCopyInto = struct_copy
     []"

definition ServiceReference_DeepCopy :: copier where
  "ServiceReference_DeepCopy = new_copy ServiceReference_type ServiceReference_DeepCopyInto"

definition VerificationRule_type :: gotype where
  "VerificationRule_type = TStruct
     [(''Name'', TString), (''CEL'', TString), (''Message'', TString)]"

definition VerificationRule_DeepCopyInto :: copier where
  "VerificationRule_DeepCopyInto = struct_copy
     []"

definition VerificationRule_DeepCopy :: copier where
  "VerificationRule_DeepCopy = new_copy VerificationRule_type VerificationRule_DeepCopyInto"

definition VerificationSpec_type :: gotype where
  "VerificationSpec_type = TStruct
     [(''RequiredScope'', TString), (''RequiredTctxFields'', TSlice TString), (''Rules'', TSlice VerificationRule_type)]"

definition VerificationSpec_DeepCopyInto :: copier where
  "VerificationSpec_DeepCopyInto = struct_copy
     [(''RequiredTctxFields'', slice_copy TString), (''Rules'', slice_copy VerificationRule_type)]"

definition VerificationSpec_DeepCopy :: copier where
  "VerificationSpec_DeepCopy = new_copy VerificationSpec_type VerificationSpec_DeepCopyInto"

definition ServiceTokenRequirementSpec_type :: gotype where
  "ServiceTokenRequirementSpec_type = TStruct
     [(''ServiceRef'', ServiceReference_type), (''Verification'', VerificationSpec_type),
      (''ExcludedEndpoints'', TSlice EndpointSpec_type), (''AutoNarrow'', TBool)]"

definition ServiceTokenRequirementSpec_DeepCopyInto :: copier where
  "ServiceTokenRequirementSpec_DeepCopyInto = struct_copy
     [(''ServiceRef'', assign), (''Verification'', VerificationSpec_DeepCopyInto),
      (''ExcludedEndpoints'', slice_copy EndpointSpec_type)]"

definition ServiceTokenRequirementSpec_DeepCopy :: copier where
  "ServiceTokenRequirementSpec_DeepCopy = new_copy ServiceTokenRequirementSpec_type ServiceTokenRequirementSpec_DeepCopyInto"

definition ServiceTokenRequirementStatus_type :: "externals \<Rightarrow> gotype" where
  "ServiceTokenRequirementStatus_type ex = TStruct
     [(''Conditions'', TSlice (fst (ex_Condition ex))), (''ActiveVerificationRules'', TInt),
      (''ExcludedEndpointCount'', TInt)]"

definition ServiceTokenRequirementStatus_DeepCopyInto :: "externals \<Rightarrow> copier" where
  "ServiceTokenRequirementStatus_DeepCopyInto ex = struct_copy
     [(''Conditions'', slice_deep (fst (ex_Condition ex)) (snd (ex_Condition ex)))]"

definition ServiceTokenRequirementStatus_DeepCopy :: "externals \<Rightarrow> copier" where
  "ServiceTokenRequirementStatus_DeepCopy ex = new_copy (ServiceTokenRequirementStatus_type ex) (ServiceTokenRequirementStatus_DeepCopyInto ex)"

definition ServiceTokenRequirement_type :: "externals \<Rightarrow> gotype" where
  "ServiceTokenRequirement_type ex = TStruct
     [(''TypeMeta'', ex_TypeMeta ex), (''ObjectMeta'', fst (ex_ObjectMeta ex)),
      (''Spec'', ServiceTokenRequirementSpec_type), (''Status'', ServiceTokenRequirementStatus_type ex)]"

definition ServiceTokenRequirement_DeepCopyInto :: "externals \<Rightarrow> copier" where
  "ServiceTokenRequirement_DeepCopyInto ex = struct_copy
     [(''TypeMeta'', assign), (''ObjectMeta'', snd (ex_ObjectMeta ex)),
      (''Spec'', ServiceTokenRequirementSpec_DeepCopyInto), (''Status'', ServiceTokenRequirementStatus_DeepCopyInto ex)]"

definition ServiceTokenRequirement_DeepCopy :: "externals \<Rightarrow> copier" where
  "ServiceTokenRequirement_DeepCopy ex = new_copy (ServiceTokenRequirement_type ex) (ServiceTokenRequirement_DeepCopyInto ex)"

definition ServiceTokenRequirement_DeepCopyObject :: "externals \<Rightarrow> object_copier" where
  "ServiceTokenRequirement_DeepCopyObject ex = copy_object (ServiceTokenRequirement_DeepCopy ex)"

definition ServiceTokenRequirementList_type :: "externals \<Rightarrow> gotype" where
  "ServiceTokenRequirementList_type ex = TStruct
     [(''TypeMeta'', ex_TypeMeta ex), (''ListMeta'', fst (ex_ListMeta ex)),
      (''Items'', TSlice (ServiceTokenRequirement_type ex))]"

definition ServiceTokenRequirementList_DeepCopyInto :: "externals \<Rightarrow> copier" where
  "ServiceTokenRequirementList_DeepCopyInto ex = struct_copy
     [(''TypeMeta'', assign), (''ListMeta'', snd (ex_ListMeta ex)),
      (''Items'', slice_deep (ServiceTokenRequirement_type ex) (ServiceTokenRequirement_DeepCopyInto ex))]"

definition ServiceTokenRequirementList_DeepCopy :: "externals \<Rightarrow> copier" where
  "ServiceTokenRequirementList_DeepCopy ex = new_copy (ServiceTokenRequirementList_type ex) (ServiceTokenRequirementList_DeepCopyInto ex)"

definition ServiceTokenRequirementList_DeepCopyObject :: "externals \<Rightarrow> object_copier" where
  "ServiceTokenRequirementList_DeepCopyObject ex = copy_object (ServiceTokenRequirementList_DeepCopy ex)"

subsection \<open>Token policies\<close>

definition NamespaceSelector_type :: gotype where
  "NamespaceSelector_type = TStruct
     [(''MatchNames'', TSlice TString), (''MatchLabels'', TMap TString)]"

definition NamespaceSelector_DeepCopyInto :: "externals \<Rightarrow> copier" where
  "NamespaceSelector_DeepCopyInto ex = struct_copy
     [(''MatchNames'', slice_copy TString), (''MatchLabels'', map_copy (ex_order ex))]"

definition NamespaceSelector_DeepCopy :: "externals \<Rightarrow> copier" where
  "NamespaceSelector_DeepCopy ex = new_copy NamespaceSelector_type (NamespaceSelector_DeepCopyInto ex)"

definition RequesterRule_type :: "externals \<Rightarrow> gotype" where
  "RequesterRule_type ex = TStruct
     [(''NamespaceSelector'', TPtr (fst (ex_LabelSelector ex))), (''ServiceAccountNames'', TSlice TString)]"

definition RequesterRule_DeepCopyInto :: "externals \<Rightarrow> copier" where
  "RequesterRule_DeepCopyInto ex = struct_copy
     [(''NamespaceSelector'', new_copy (fst (ex_LabelSelector ex)) (snd (ex_LabelSelector ex))),
      (''ServiceAccountNames'', slice_copy TString)]"

definition RequesterRule_DeepCopy :: "externals \<Rightarrow> copier" where
  "RequesterRule_DeepCopy ex = new_copy (RequesterRule_type ex) (RequesterRule_DeepCopyInto ex)"

definition PolicyConstraints_type :: gotype where
  "PolicyConstraints_type = TStruct
     [(''MaxTokenLifetime'', TString), (''MandatoryTctxFields'', TSlice TString),
      (''MandatoryRctxFields'', TSlice TString), (''DisallowedEnrichers'', TSlice TString)]"

definition PolicyConstraints_DeepCopyInto :: copier where
  "PolicyConstraints_DeepCopyInto = struct_copy
     [(''MandatoryTctxFields'', slice_copy TString), (''MandatoryRctxFields'', slice_copy TString),
      (''DisallowedEnrichers'', slice_copy TString)]"

definition PolicyConstraints_DeepCopy :: copier where
  "PolicyConstraints_DeepCopy = new_copy PolicyConstraints_type PolicyConstraints_DeepCopyInto"

definition IssuanceRule_type :: gotype where
  "IssuanceRule_type = TStruct
     [(''Name'', TString), (''CEL'', TString), (''Message'', TString)]"

definition IssuanceRule_DeepCopyInto :: copier where
  "IssuanceRule_DeepCopyInto = struct_copy
     []"

definition IssuanceRule_DeepCopy :: copier where
  "IssuanceRule_DeepCopy = new_copy IssuanceRule_type IssuanceRule_DeepCopyInto"

definition WebhookConfig_type :: gotype where
  "WebhookConfig_type = TStruct
     [(''Enabled'', TBool), (''Endpoint'', TString), (''FailurePolicy'', TString)]"

definition WebhookConfig_DeepCopyInto :: copier where
  "WebhookConfig_DeepCopyInto = struct_copy
     []"

definition WebhookConfig_DeepCopy :: copier where
  "WebhookConfig_DeepCopy = new_copy WebhookConfig_type WebhookConfig_DeepCopyInto"

definition TokenPolicySpec_type :: "externals \<Rightarrow> gotype" where
  "TokenPolicySpec_type ex = TStruct
     [(''TargetNamespaces'', TPtr NamespaceSelector_type),
      (''AuthorizedTransactionNamespaces'', TPtr (fst (ex_LabelSelector ex))),
      (''AuthorizedRequesters'', TSlice (RequesterRule_type ex)), (''Constraints'', PolicyConstraints_type),
      (''IssuanceRules'', TSlice IssuanceRule_type), (''AccessEvaluationWebhook'', TPtr WebhookConfig_type)]"

definition TokenPolicySpec_DeepCopyInto :: "externals \<Rightarrow> copier" where
  "TokenPolicySpec_DeepCopyInto ex = struct_copy
     [(''TargetNamespaces'', new_copy NamespaceSelector_type (NamespaceSelector_DeepCopyInto ex)),
      (''AuthorizedTransactionNamespaces'', new_copy (fst (ex_LabelSelector ex)) (snd (ex_LabelSelector ex))),
      (''AuthorizedRequesters'', slice_deep (RequesterRule_type ex) (RequesterRule_DeepCopyInto ex)),
      (''Constraints'', PolicyConstraints_DeepCopyInto), (''IssuanceRules'', slice_copy IssuanceRule_type),
      (''AccessEvaluationWebhook'', new_copy WebhookConfig_type assign)]"

definition TokenPolicySpec_DeepCopy :: "externals \<Rightarrow> copier" where
  "TokenPolicySpec_DeepCopy ex = new_copy (TokenPolicySpec_type ex) (TokenPolicySpec_DeepCopyInto ex)"

definition TokenPolicyStatus_type :: "externals \<Rightarrow> gotype" where
  "TokenPolicyStatus_type ex = TStruct
     [(''Conditions'', TSlice (fst (ex_Condition ex)))]"

definition TokenPolicyStatus_DeepCopyInto :: "externals \<Rightarrow> copier" where
  "TokenPolicyStatus_DeepCopyInto ex = struct_copy
     [(''Conditions'', slice_deep (fst (ex_Condition ex)) (snd (ex_Condition ex)))]"

definition TokenPolicyStatus_DeepCopy :: "externals \<Rightarrow> copier" where
  "TokenPolicyStatus_DeepCopy ex = new_copy (TokenPolicyStatus_type ex) (TokenPolicyStatus_DeepCopyInto ex)"

definition TokenPolicy_type :: "externals \<Rightarrow> gotype" where
  "TokenPolicy_type ex = TStruct
     [(''TypeMeta'', ex_TypeMeta ex), (''ObjectMeta'', fst (ex_ObjectMeta ex)), (''Spec'', TokenPolicySpec_type ex),
      (''Status'', TokenPolicyStatus_type ex)]"

definition TokenPolicy_DeepCopyInto :: "externals \<Rightarrow> copier" where
  "TokenPolicy_DeepCopyInto ex = struct_copy
     [(''TypeMeta'', assign), (''ObjectMeta'', snd (ex_ObjectMeta ex)), (''Spec'', TokenPolicySpec_DeepCopyInto ex),
      (''Status'', TokenPolicyStatus_DeepCopyInto ex)]"

definition TokenPolicy_DeepCopy :: "externals \<Rightarrow> copier" where
  "TokenPolicy_DeepCopy ex = new_copy (TokenPolicy_type ex) (TokenPolicy_DeepCopyInto ex)"

definition TokenPolicy_DeepCopyObject :: "externals \<Rightarrow> object_copier" where
  "TokenPolicy_DeepCopyObject ex = copy_object (TokenPolicy_DeepCopy ex)"

definition TokenPolicyList_type :: "externals \<Rightarrow> gotype" where
  "TokenPolicyList_type ex = TStruct
     [(''TypeMeta'', ex_TypeMeta ex), (''ListMeta'', fst (ex_ListMeta ex)), (''Items'', TSlice (TokenPolicy_type ex))]"

definition TokenPolicyList_DeepCopyInto :: "externals \<Rightarrow> copier" where
  "TokenPolicyList_DeepCopyInto ex = struct_copy
     [(''TypeMeta'', assign), (''ListMeta'', snd (ex_ListMeta ex)),
      (''Items'', slice_deep (TokenPolicy_type ex) (TokenPolicy_DeepCopyInto ex))]"

definition TokenPolicyList_DeepCopy :: "externals \<Rightarrow> copier" where
  "TokenPolicyList_DeepCopy ex = new_copy (TokenPolicyList_type ex) (TokenPolicyList_DeepCopyInto ex)"

definition TokenPolicyList_DeepCopyObject :: "externals \<Rightarrow> object_copier" where
  "TokenPolicyList_DeepCopyObject ex = copy_object (TokenPolicyList_DeepCopy ex)"

subsection \<open>Registration\<close>

text \<open>The kinds that are added to the scheme, each with its type and the copying function its interface has.\<close>

definition GroupVersion :: "string \<times> string" where
  "GroupVersion = (''kontxt.io'', ''v1alpha1'')"

definition addKnownTypes :: "externals \<Rightarrow> ((string \<times> string) \<times> string \<times> gotype \<times> object_copier) list" where
  "addKnownTypes ex =
     [(GroupVersion, ''TxTokenConfig'', TxTokenConfig_type ex, TxTokenConfig_DeepCopyObject ex),
      (GroupVersion, ''TxTokenConfigList'', TxTokenConfigList_type ex, TxTokenConfigList_DeepCopyObject ex),
      (GroupVersion, ''TransactionType'', TransactionType_type ex, TransactionType_DeepCopyObject ex),
      (GroupVersion, ''TransactionTypeList'', TransactionTypeList_type ex, TransactionTypeList_DeepCopyObject ex),
      (GroupVersion, ''ServiceTokenRequirement'', ServiceTokenRequirement_type ex, ServiceTokenRequirement_DeepCopyObject ex),
      (GroupVersion, ''ServiceTokenRequirementList'', ServiceTokenRequirementList_type ex, ServiceTokenRequirementList_DeepCopyObject ex),
      (GroupVersion, ''TokenPolicy'', TokenPolicy_type ex, TokenPolicy_DeepCopyObject ex),
      (GroupVersion, ''TokenPolicyList'', TokenPolicyList_type ex, TokenPolicyList_DeepCopyObject ex)]"

subsection \<open>Every copy is deep\<close>

lemma externals_okD:
  assumes "externals_ok ex"
  shows "mset (ex_order ex kvs) = mset kvs" "flat (ex_TypeMeta ex)"
    "deep_copier (fst (ex_ObjectMeta ex)) (snd (ex_ObjectMeta ex))" "deep_copier (fst (ex_ListMeta ex)) (snd (ex_ListMeta ex))"
    "deep_copier (fst (ex_LabelSelector ex)) (snd (ex_LabelSelector ex))" "deep_copier (fst (ex_Condition ex)) (snd (ex_Condition ex))"
  using assms by (auto simp: externals_ok_def)

declare externals_okD [deep_copies]

lemma flat_types [deep_copies]:
  "flat ClaimValidationRule_type"
  "flat ClaimOrExpression_type"
  "flat ExtraMapping_type"
  "flat WorkloadAuthConfig_type"
  "flat TokenDefaults_type"
  "flat EndpointSpec_type"
  "flat TctxFieldMapping_type"
  "flat TctxEnrichment_type"
  "flat ServiceReference_type"
  "flat VerificationRule_type"
  "flat IssuanceRule_type"
  "flat WebhookConfig_type"
  by (simp_all add: ClaimValidationRule_type_def ClaimOrExpression_type_def ExtraMapping_type_def WorkloadAuthConfig_type_def
      TokenDefaults_type_def EndpointSpec_type_def TctxFieldMapping_type_def TctxEnrichment_type_def
      ServiceReference_type_def VerificationRule_type_def IssuanceRule_type_def WebhookConfig_type_def)

lemma flat_structs_deep [deep_copies]:
  "deep_copier ClaimValidationRule_type ClaimValidationRule_DeepCopyInto"
  "deep_copier ClaimOrExpression_type ClaimOrExpression_DeepCopyInto"
  "deep_copier ExtraMapping_type ExtraMapping_DeepCopyInto"
  "deep_copier WorkloadAuthConfig_type WorkloadAuthConfig_DeepCopyInto"
  "deep_copier TokenDefaults_type TokenDefaults_DeepCopyInto"
  "deep_copier EndpointSpec_type EndpointSpec_DeepCopyInto"
  "deep_copier TctxFieldMapping_type TctxFieldMapping_DeepCopyInto"
  "deep_copier TctxEnrichment_type TctxEnrichment_DeepCopyInto"
  "deep_copier ServiceReference_type ServiceReference_DeepCopyInto"
  "deep_copier VerificationRule_type VerificationRule_DeepCopyInto"
  "deep_copier IssuanceRule_type IssuanceRule_DeepCopyInto"
  "deep_copier WebhookConfig_type WebhookConfig_DeepCopyInto"
  unfolding ClaimValidationRule_type_def ClaimValidationRule_DeepCopyInto_def
    ClaimOrExpression_type_def ClaimOrExpression_DeepCopyInto_def ExtraMapping_type_def ExtraMapping_DeepCopyInto_def
    WorkloadAuthConfig_type_def WorkloadAuthConfig_DeepCopyInto_def
    TokenDefaults_type_def TokenDefaults_DeepCopyInto_def EndpointSpec_type_def EndpointSpec_DeepCopyInto_def
    TctxFieldMapping_type_def TctxFieldMapping_DeepCopyInto_def
    TctxEnrichment_type_def TctxEnrichment_DeepCopyInto_def
    ServiceReference_type_def ServiceReference_DeepCopyInto_def
    VerificationRule_type_def VerificationRule_DeepCopyInto_def IssuanceRule_type_def IssuanceRule_DeepCopyInto_def
    WebhookConfig_type_def WebhookConfig_DeepCopyInto_def
  by (rule struct_copy_deep; simp)+

lemma IssuerConfig_deep [deep_copies]: "deep_copier IssuerConfig_type IssuerConfig_DeepCopyInto"
  unfolding IssuerConfig_type_def IssuerConfig_DeepCopyInto_def
  by (rule struct_copy_deep) (simp_all add: deep_copies)

lemma ClaimMappings_deep [deep_copies]: "deep_copier ClaimMappings_type ClaimMappings_DeepCopyInto"
  unfolding ClaimMappings_type_def ClaimMappings_DeepCopyInto_def
  by (rule struct_copy_deep) (simp_all add: deep_copies)

lemma SubjectTokenAuthenticator_deep [deep_copies]: "deep_copier SubjectTokenAuthenticator_type SubjectTokenAuthenticator_DeepCopyInto"
  unfolding SubjectTokenAuthenticator_type_def SubjectTokenAuthenticator_DeepCopyInto_def
  by (rule struct_copy_deep) (simp_all add: deep_copies)

lemma TxTokenConfigSpec_deep [deep_copies]: "deep_copier TxTokenConfigSpec_type TxTokenConfigSpec_DeepCopyInto"
  unfolding TxTokenConfigSpec_type_def TxTokenConfigSpec_DeepCopyInto_def
  by (rule struct_copy_deep) (simp_all add: deep_copies)

lemma TxTokenConfigStatus_deep [deep_copies]:
  "externals_ok ex \<Longrightarrow> deep_copier (TxTokenConfigStatus_type ex) (TxTokenConfigStatus_DeepCopyInto ex)"
  unfolding TxTokenConfigStatus_type_def TxTokenConfigStatus_DeepCopyInto_def
  by (rule struct_copy_deep) (simp_all add: deep_copies)

lemma TxTokenConfig_deep [deep_copies]:
  "externals_ok ex \<Longrightarrow> deep_copier (TxTokenConfig_type ex) (TxTokenConfig_DeepCopyInto ex)"
  unfolding TxTokenConfig_type_def TxTokenConfig_DeepCopyInto_def
  by (rule struct_copy_deep) (simp_all add: deep_copies)

lemma TxTokenConfigList_deep [deep_copies]:
  "externals_ok ex \<Longrightarrow> deep_copier (TxTokenConfigList_type ex) (TxTokenConfigList_DeepCopyInto ex)"
  unfolding TxTokenConfigList_type_def TxTokenConfigList_DeepCopyInto_def
  by (rule struct_copy_deep) (simp_all add: deep_copies)

lemma TransactionTypeSpec_deep [deep_copies]:
  "externals_ok ex \<Longrightarrow> deep_copier TransactionTypeSpec_type (TransactionTypeSpec_DeepCopyInto ex)"
  unfolding TransactionTypeSpec_type_def TransactionTypeSpec_DeepCopyInto_def
  by (rule struct_copy_deep) (simp_all add: deep_copies)

lemma TransactionTypeStatus_deep [deep_copies]:
  "externals_ok ex \<Longrightarrow> deep_copier (TransactionTypeStatus_type ex) (TransactionTypeStatus_DeepCopyInto ex)"
  unfolding TransactionTypeStatus_type_def TransactionTypeStatus_DeepCopyInto_def
  by (rule struct_copy_deep) (simp_all add: deep_copies)

lemma TransactionType_deep [deep_copies]:
  "externals_ok ex \<Longrightarrow> deep_copier (TransactionType_type ex) (TransactionType_DeepCopyInto ex)"
  unfolding TransactionType_type_def TransactionType_DeepCopyInto_def
  by (rule struct_copy_deep) (simp_all add: deep_copies)

lemma TransactionTypeList_deep [deep_copies]:
  "externals_ok ex \<Longrightarrow> deep_copier (TransactionTypeList_type ex) (TransactionTypeList_DeepCopyInto ex)"
  unfolding TransactionTypeList_type_def TransactionTypeList_DeepCopyInto_def
  by (rule struct_copy_deep) (simp_all add: deep_copies)

lemma VerificationSpec_deep [deep_copies]: "deep_copier VerificationSpec_type VerificationSpec_DeepCopyInto"
  unfolding VerificationSpec_type_def VerificationSpec_DeepCopyInto_def
  by (rule struct_copy_deep) (simp_all add: deep_copies)

lemma ServiceTokenRequirementSpec_deep [deep_copies]: "deep_copier ServiceTokenRequirementSpec_type ServiceTokenRequirementSpec_DeepCopyInto"
  unfolding ServiceTokenRequirementSpec_type_def ServiceTokenRequirementSpec_DeepCopyInto_def
  by (rule struct_copy_deep) (simp_all add: deep_copies)

lemma ServiceTokenRequirementStatus_deep [deep_copies]:
  "externals_ok ex \<Longrightarrow> deep_copier (ServiceTokenRequirementStatus_type ex) (ServiceTokenRequirementStatus_DeepCopyInto ex)"
  unfolding ServiceTokenRequirementStatus_type_def ServiceTokenRequirementStatus_DeepCopyInto_def
  by (rule struct_copy_deep) (simp_all add: deep_copies)

lemma ServiceTokenRequirement_deep [deep_copies]:
  "externals_ok ex \<Longrightarrow> deep_copier (ServiceTokenRequirement_type ex) (ServiceTokenRequirement_DeepCopyInto ex)"
  unfolding ServiceTokenRequirement_type_def ServiceTokenRequirement_DeepCopyInto_def
  by (rule struct_copy_deep) (simp_all add: deep_copies)

lemma ServiceTokenRequirementList_deep [deep_copies]:
  "externals_ok ex \<Longrightarrow> deep_copier (ServiceTokenRequirementList_type ex) (ServiceTokenRequirementList_DeepCopyInto ex)"
  unfolding ServiceTokenRequirementList_type_def ServiceTokenRequirementList_DeepCopyInto_def
  by (rule struct_copy_deep) (simp_all add: deep_copies)

lemma NamespaceSelector_deep [deep_copies]:
  "externals_ok ex \<Longrightarrow> deep_copier NamespaceSelector_type (NamespaceSelector_DeepCopyInto ex)"
  unfolding NamespaceSelector_type_def NamespaceSelector_DeepCopyInto_def
  by (rule struct_copy_deep) (simp_all add: deep_copies)

lemma RequesterRule_deep [deep_copies]:
  "externals_ok ex \<Longrightarrow> deep_copier (RequesterRule_type ex) (RequesterRule_DeepCopyInto ex)"
  unfolding RequesterRule_type_def RequesterRule_DeepCopyInto_def
  by (rule struct_copy_deep) (simp_all add: deep_copies)

lemma PolicyConstraints_deep [deep_copies]: "deep_copier PolicyConstraints_type PolicyConstraints_DeepCopyInto"
  unfolding PolicyConstraints_type_def PolicyConstraints_DeepCopyInto_def
  by (rule struct_copy_deep) (simp_all add: deep_copies)

lemma TokenPolicySpec_deep [deep_copies]:
  "externals_ok ex \<Longrightarrow> deep_copier (TokenPolicySpec_type ex) (TokenPolicySpec_DeepCopyInto ex)"
  unfolding TokenPolicySpec_type_def TokenPolicySpec_DeepCopyInto_def
  by (rule struct_copy_deep) (simp_all add: deep_copies)

lemma TokenPolicyStatus_deep [deep_copies]:
  "externals_ok ex \<Longrightarrow> deep_copier (TokenPolicyStatus_type ex) (TokenPolicyStatus_DeepCopyInto ex)"
  unfolding TokenPolicyStatus_type_def TokenPolicyStatus_DeepCopyInto_def
  by (rule struct_copy_deep) (simp_all add: deep_copies)

lemma TokenPolicy_deep [deep_copies]:
  "externals_ok ex \<Longrightarrow> deep_copier (TokenPolicy_type ex) (TokenPolicy_DeepCopyInto ex)"
  unfolding TokenPolicy_type_def TokenPolicy_DeepCopyInto_def
  by (rule struct_copy_deep) (simp_all add: deep_copies)

lemma TokenPolicyList_deep [deep_copies]:
  "externals_ok ex \<Longrightarrow> deep_copier (TokenPolicyList_type ex) (TokenPolicyList_DeepCopyInto ex)"
  unfolding TokenPolicyList_type_def TokenPolicyList_DeepCopyInto_def
  by (rule struct_copy_deep) (simp_all add: deep_copies)

interpretation config_copy: deep_copier TxTokenConfigSpec_type TxTokenConfigSpec_DeepCopyInto
  by (rule TxTokenConfigSpec_deep)

interpretation requirement_copy: deep_copier ServiceTokenRequirementSpec_type ServiceTokenRequirementSpec_DeepCopyInto
  by (rule ServiceTokenRequirementSpec_deep)

interpretation constraints_copy: deep_copier PolicyConstraints_type PolicyConstraints_DeepCopyInto
  by (rule PolicyConstraints_deep)

lemmas object_copy_defs =
  TxTokenConfig_DeepCopyObject_def TxTokenConfig_DeepCopy_def
  TxTokenConfigList_DeepCopyObject_def TxTokenConfigList_DeepCopy_def
  TransactionType_DeepCopyObject_def TransactionType_DeepCopy_def
  TransactionTypeList_DeepCopyObject_def TransactionTypeList_DeepCopy_def
  ServiceTokenRequirement_DeepCopyObject_def ServiceTokenRequirement_DeepCopy_def
  ServiceTokenRequirementList_DeepCopyObject_def ServiceTokenRequirementList_DeepCopy_def
  TokenPolicy_DeepCopyObject_def TokenPolicy_DeepCopy_def
  TokenPolicyList_DeepCopyObject_def TokenPolicyList_DeepCopy_def

lemmas object_deep =
  TxTokenConfig_deep TxTokenConfigList_deep TransactionType_deep TransactionTypeList_deep ServiceTokenRequirement_deep
  ServiceTokenRequirementList_deep TokenPolicy_deep TokenPolicyList_deep

text \<open>Every registered kind has a copy of its own type, made by a deep copier.\<close>

lemma registered_deep:
  assumes "externals_ok ex" "(g, kind, ty, copy) \<in> set (addKnownTypes ex)"
  shows "\<exists>into. copy = copy_object (new_copy ty into) \<and> deep_copier ty into"
  using assms(2) object_deep [OF assms(1)] by (auto simp: addKnownTypes_def object_copy_defs)

lemma copy_object_nil: "copy_object (new_copy ty into) GNil st = (None, st)"
  by (simp add: copy_object_def new_copy_def)

text \<open>
  C20. Copies of registered objects are deep: for every kind that is registered, the copy of an object has the same content in
  cells of its own, each used once, and the original is unchanged. From then on a write to any cell outside the copy leaves
  the copy as it is, and a write to any cell outside the original leaves the original as it is, so a controller that changes
  what it was given changes nothing that others hold. The copies of the Kubernetes types are assumed to be deep.
\<close>

theorem registered_copies_separate:
  assumes "externals_ok ex" "(g, kind, ty, copy) \<in> set (addKnownTypes ex)"
    and "denote (TPtr ty) st p = Some (t, as)" "p \<noteq> GNil"
  shows "\<exists>q st' bs. copy p st = (Some q, st') \<and> denote (TPtr ty) st' p = Some (t, as) \<and> denote (TPtr ty) st' q = Some (t, bs) \<and>
     distinct bs \<and> set as \<inter> set bs = {} \<and>
     (\<forall>a c. a \<notin> set bs \<longrightarrow> denote (TPtr ty) (st'[a := c]) q = Some (t, bs)) \<and>
     (\<forall>a c. a \<notin> set as \<longrightarrow> denote (TPtr ty) (st'[a := c]) p = Some (t, as))"
proof -
  obtain into where into: "copy = copy_object (new_copy ty into)" "deep_copier ty into" using registered_deep [OF assms(1,2)] by blast
  obtain q st' bs where q: "new_copy ty into p st = (q, st')" "denote (TPtr ty) st' p = Some (t, as)"
    "denote (TPtr ty) st' q = Some (t, bs)" "distinct bs" "set as \<inter> set bs = {}"
    "\<forall>a c. a \<notin> set bs \<longrightarrow> denote (TPtr ty) (st'[a := c]) q = Some (t, bs)"
    "\<forall>a c. a \<notin> set as \<longrightarrow> denote (TPtr ty) (st'[a := c]) p = Some (t, as)"
    using deep_copier.separate [OF new_copy_deep [OF into(2)] assms(3)] by blast
  have "q \<noteq> GNil" using q(3) assms(3,4) by (auto simp: denote_ptr)
  with q show ?thesis by (intro exI [of _ q] exI [of _ st'] exI [of _ bs]) (simp add: into(1) copy_object_def)
qed

subsection \<open>A copied transaction type\<close>

definition demo_externals :: externals where
  "demo_externals =
     \<lparr>ex_order = rev,
      ex_TypeMeta = TStruct [(''Kind'', TString), (''APIVersion'', TString)],
      ex_ObjectMeta = (TStruct [(''Name'', TString), (''Labels'', TMap TString)], struct_copy [(''Labels'', map_copy rev)]),
      ex_ListMeta = (TStruct [(''ResourceVersion'', TString)], struct_copy []),
      ex_LabelSelector = (TStruct [(''MatchLabels'', TMap TString)], struct_copy [(''MatchLabels'', map_copy rev)]),
      ex_Condition = (TStruct [(''Type'', TString), (''Status'', TString)], struct_copy [])\<rparr>"

lemma demo_externals_ok: "externals_ok demo_externals"
  unfolding externals_ok_def demo_externals_def by (simp add: struct_copy_deep map_copy_deep)

definition demo_object :: gv where
  "demo_object = GStruct
     [(''TypeMeta'', GStruct [(''Kind'', GLit (LStr ''TransactionType'')), (''APIVersion'', GLit (LStr ''kontxt.io/v1alpha1''))]),
      (''ObjectMeta'', GStruct [(''Name'', GLit (LStr ''buy'')), (''Labels'', GMap 1)]),
      (''Spec'', GStruct
        [(''Endpoint'', GStruct [(''Path'', GLit (LStr ''/buy'')), (''Method'', GLit (LStr ''POST''))]),
         (''Purpose'', GLit (LStr ''order'')), (''Scope'', GLit (LStr ''buy'')), (''TctxMapping'', GNil), (''TctxEnrichments'', GNil),
         (''RctxFields'', GSlice 2 0 2), (''TokenLifetime'', GLit (LStr ''15s''))]),
      (''Status'', GStruct [(''Conditions'', GNil), (''ProducedTctxFields'', GNil), (''EffectiveTokenLifetime'', GLit (LStr []))])]"

definition demo_store :: store where
  "demo_store = [CVar demo_object, CMap [(''app'', GLit (LStr ''shop''))], CArray [GLit (LStr ''req_ip''), GLit (LStr ''authn'')]]"

theorem registered_copies_separate_witness:
  "\<exists>q st' t bs. TransactionType_DeepCopyObject demo_externals (GPtr 0) demo_store = (Some q, st') \<and>
     denote (TPtr (TransactionType_type demo_externals)) demo_store (GPtr 0) = Some (t, [0, 1, 2]) \<and>
     denote (TPtr (TransactionType_type demo_externals)) (st'[2 := CArray []]) q = Some (t, bs)"
proof -
  let ?ty = "TransactionType_type demo_externals"
  have "map_option snd (denote (TPtr ?ty) demo_store (GPtr 0)) = Some [0, 1, 2]" by code_simp
  then obtain t where t: "denote (TPtr ?ty) demo_store (GPtr 0) = Some (t, [0, 1, 2])" by auto
  have "(GroupVersion, ''TransactionType'', ?ty, TransactionType_DeepCopyObject demo_externals) \<in> set (addKnownTypes demo_externals)"
    by (simp add: addKnownTypes_def)
  from registered_copies_separate [OF demo_externals_ok this t] obtain q st' bs where
    q: "TransactionType_DeepCopyObject demo_externals (GPtr 0) demo_store = (Some q, st')" "set [0, 1, 2] \<inter> set bs = {}"
    "\<forall>a c. a \<notin> set bs \<longrightarrow> denote (TPtr ?ty) (st'[a := c]) q = Some (t, bs)"
    by auto
  then have "denote (TPtr ?ty) (st'[2 := CArray []]) q = Some (t, bs)" by auto
  with q(1) t show ?thesis by blast
qed

end
