(* ===== verification/Spec2Isabelle.thy ===== *)
theory Spec2Isabelle
  imports Connection Programs Services DeepCopy
begin

text \<open>
  A verification of kontxt, a system that issues, distributes and checks transaction tokens in a Kubernetes cluster.

  \<^bold>\<open>The program and how its parts interact.\<close> A \<^emph>\<open>token service\<close> (\<open>cmd/tts\<close>, \<open>pkg/tts\<close>) exchanges an access token of an identity
  provider for a short-lived signed transaction token, or a transaction token for a narrower one. It authenticates the subject
  token (\<open>pkg/authn\<close>), evaluates issuance rules, and signs with the keys of \<open>pkg/keys\<close>, whose public part it serves as a JWKS.
  A \<^emph>\<open>controller\<close> (\<open>cmd/controller\<close>, \<open>internal/controller\<close>) turns custom resources (\<open>api/v1alpha1\<close>) into generation,
  verification and issuance rules and publishes them on a \<^emph>\<open>rule server\<close> (\<open>internal/controller/ruleserver\<close>), which streams
  them to the \<^emph>\<open>rule clients\<close> (\<open>pkg/tts/ruleclient\<close>, \<open>pkg/extauth/ruleclient\<close>). An \<^emph>\<open>ext-auth adapter\<close> (\<open>cmd/extauth\<close>,
  \<open>pkg/extauth\<close>) is asked by Envoy about every request: at an entry point it obtains a transaction token for the request
  (\<open>generate.go\<close>), in front of a service it verifies the token and the rules of the service (\<open>server.go\<close>). An \<^emph>\<open>SDK\<close>
  (\<open>sdk/\<close>) verifies tokens, exchanges them and propagates them to outbound calls; \<open>examples/\<close> has services built with it.

  \<^bold>\<open>Which theory models what.\<close> Definitions carry the names of the source.

  \<^item> \<open>Prelude\<close>: errors as values (\<open>error\<close>, \<open>'a res\<close>, \<open>bindr\<close>), Go maps with string keys as lists sorted by key (\<open>mput\<close>,
    \<open>mdel\<close>, \<open>mwf\<close>), shared lemmas and simplification collections.
  \<^item> \<open>GoStrings\<close>, \<open>GoEncoding\<close>, \<open>Json\<close>, \<open>JsonRoundtrip\<close>, \<open>GoHttp\<close>, \<open>GoTime\<close>, \<open>GoSha256\<close>: what the repository uses of the
    standard library, with round trips for base64, big-endian integers, URL escaping, forms, UTF-8 and JSON.
  \<^item> \<open>Token\<close> (\<open>pkg/token\<close>), \<open>Keys\<close> (\<open>pkg/keys\<close>), \<open>Verify\<close> (\<open>pkg/tts/local_verifier.go\<close>, \<open>sdk/verify\<close>): claims, signing, key
    rotation, JWKS, and the two verifiers under the contract \<open>token_verifier\<close>.
  \<^item> \<open>Cel\<close>: the interface of the expression library, with the contracts \<open>rule_evaluator\<close> and \<open>rule_compiler\<close> that
    \<open>Issuance\<close> (\<open>pkg/tts/cel.go\<close>), \<open>Authn\<close> (\<open>pkg/authn\<close>) and \<open>CelVerify\<close> (\<open>pkg/extauth/celverify\<close>) fulfil.
  \<^item> \<open>TTS\<close> (\<open>pkg/tts/config.go\<close>, \<open>handler.go\<close>, \<open>server.go\<close>): the token endpoint with issuance and replacement; the state
    of the service is threaded through every request. \<open>Demo\<close> is a concrete service for the examples of the properties.
  \<^item> \<open>TokenFlow\<close>: the life of a token across these components.
  \<^item> \<open>SdkClient\<close> (\<open>sdk/tts\<close>, \<open>sdk/middleware\<close>): exchange client, verification middleware, propagating transport.
  \<^item> \<open>GoMemory\<close>, \<open>DeepCopy\<close> (\<open>zz_generated.deepcopy.go\<close>, \<open>groupversion_info.go\<close>, all structs of \<open>types.go\<close>): values, slices, maps and
    pointers on a store of cells, the statements of copying functions, the contract \<open>deep_copier\<close>, and the copies of all
    resources.
  \<^item> \<open>Api\<close>, \<open>Controller\<close> (\<open>rules.go\<close>, \<open>controller.go\<close>, \<open>policy_reconciler.go\<close>): the three reconcilers, each with status update,
    conditions and publication; every listing of the policies has an answer of its own.
  \<^item> \<open>RuleDiscovery\<close> (rule server), \<open>RuleClient\<close> (rule clients, \<open>handler_setter.go\<close>; a turn of a stream is installing the rules,
    \<open>install_verification\<close> and so on, and then recording it, \<open>mark_verification\<close>), \<open>Connection\<close> (their connections, and what a
    stream may still do after its connection has returned), \<open>RuleSync\<close> (server, network and clients as the transition system
    \<open>net_step\<close>, with the contract \<open>rule_protocol\<close>; its steps have no conditions on the rules, and two flags per client, which no step
    reads, record whether it lost a message and whether it was sent a change of one rule while two had the same key),
    \<open>PolicyFlow\<close> (from policies to the decisions of the token service).
  \<^item> \<open>Identity\<close> (\<open>identity.go\<close>), \<open>ExtAuth\<close> (\<open>server.go\<close>), \<open>Generate\<close> (\<open>generate.go\<close>): the ext-auth adapter.
  \<^item> \<open>Programs\<close> (\<open>cmd/\<close>): the wiring of the programs, their health endpoints, and the transition systems \<open>extauth_step\<close> and
    \<open>tts_step\<close> of the running programs, in which a request may come between installing rules and recording it.
  \<^item> \<open>Services\<close> (\<open>examples/\<close>): services A, B and C, the agents and the mock identity provider.

  \<^bold>\<open>What the theorems show.\<close>

  \<^item> Tokens: what is issued verifies to the claims it was issued with, in process and through the JWKS endpoint, until it
    expires or its key has been rotated away twice, where a verifier that has cached the key does not notice the rotations;
    other signed tokens are refused; replacement never widens a scope; issuance needs an authenticated subject and the
    consent of every rule that applies.
  \<^item> Admission: the verification adapter allows a request exactly when it is excluded or its token verifies and satisfies
    every rule; automatic narrowing only weakens a token; a request that matches a generation rule is denied or goes on
    with a token that carries the context its rule demands.
  \<^item> Distribution: clients converge to the rules of the server under every interleaving, the last rule counting where two have
    one key; a snapshot repairs what was lost; a new connection replaces all that an earlier one brought; a full channel can
    leave a client behind, and a change of one of two rules with the same key leaves clients that disagree. The programs are
    ready only when rules are installed, and exactly then once the installation is recorded.
  \<^item> End to end: the issuance rules of the policies, and the requirements of the services, are what the token service and the
    adapter enforce after a reconcile and a snapshot. Of several rules of a policy with the same name the last is enforced.
  \<^item> Controllers: compliance, published lifetimes, conditions, and that a failed reconcile publishes nothing. The copies of the
    registered resources share no memory with the original.
  \<^item> Deviations of the code from its documentation are theorems too (IPv6 addresses, scopes of several words, traffic without
    a bearer token, the order of generation rules, rules with equal keys, cached keys).

  \<^bold>\<open>Parameters.\<close> Code that is not part of the repository is an argument: JWT signing and parsing (\<open>jwt_Sign_spec\<close>, \<open>jwt_Parse_spec\<close>
  state what the library documents, and \<open>Token\<close> has an instance that meets them), the expression library, RSA key generation,
  YAML decoding, the Kubernetes client (\<open>kube\<close>), the network, URL parsing, the clock, random bytes, and the order in which Go
  ranges over a map (a permutation). Messages of Envoy and of the rule protocol are records.

  \<^bold>\<open>Bounds.\<close> Three readers count down. For JSON, \<open>json_fuel s = Suc (2 * length s)\<close> units are enough, since every second call
  consumes a byte (\<open>json_fuel_enough\<close>); durations and media type parameters are given the length of the text, since
  every turn consumes a byte (\<open>duration_sum_fuel\<close>, \<open>media_params_fuel\<close>): in each case more fuel gives the same result. Subscriber
  channels have 64 slots, subscriber numbers are 64-bit words that wrap, SHA-256 works on 32-bit words, and durations are
  checked against the range of a signed 64-bit integer.

  \<^bold>\<open>Not modelled.\<close> The scheme of the Kubernetes libraries, \<open>SetupWithManager\<close> and \<open>Register\<close>, which only hand values to libraries;
  the generated messages under \<open>gen/\<close>, which are records here; listeners, signals, shutdown, logging and the version printout of
  the programs, whose effects are outside the process; scheduling of goroutines below the granularity of a request, of the installation of rules
  and of its record, so a read of the rules of the generation adapter during their replacement is not a step; case folding of
  HTTP methods, header names and the like beyond ASCII; what follows for a token endpoint whose URL has a query (\<open>exchange_request\<close> keeps the
  query, the properties about an exchange assume it to be empty unless they say otherwise); the capacity of slices beyond their length; the end-to-end tests and deployment files. Outside
  \<open>DeepCopy\<close> the resources are values, as the controllers never share one.
\<close>

end
